(* ===== verification/Farm_Prelude.thy ===== *)
theory Farm_Prelude
  imports Main "HOL-Library.AList" "HOL-Library.Char_ord" "HOL-Library.List_Lexorder"
    "HOL-Library.Sublist" "HOL-Library.Multiset"
begin

text \<open>
  Shared vocabulary of the development: Go error values, the outcome of a call (a return,
  a run-time panic, or a wait that never returns), computations over an explicit world,
  the string functions of Go's standard library that the program calls, and Go maps as
  association lists.

  \<^item> An error is kept as structure: \<open>Errorf f as\<close> is \<open>fmt.Errorf(f, as)\<close> without a wrapped
    error and \<open>WrapE f as e\<close> the same call whose last verb is \<open>%w\<close> with \<open>e\<close>. Rendering the
    text is not modelled.
  \<^item> A Go map is an association list with distinct keys. The order of the list is the order
    in which a \<open>range\<close> loop visits it; statements hold for every order.
  \<^item> Strings are byte sequences; white space is the ASCII white space.
\<close>

named_theorems io_simps \<open>unfolding of the world-passing combinators\<close>
named_theorems io_split \<open>inversion of a successful world-passing computation\<close>

section \<open>Errors\<close>

datatype arg = AStr string | AInt int | APlatforms "(string \<times> string \<times> string) list"
  | AReport string string

datatype error =
    ErrNew string
  | Errorf string "arg list"
  | WrapE string "arg list" error
  | MultiE error "error list"
  | NotExist string
  | ExtE string

text \<open>
  \<open>multierror.Append\<close> onto a group's error list: a multierror is flattened one level. A
  multierror that is used as an error lists at least one (\<open>ErrorOrNil\<close>), so \<open>MultiE\<close> has a first
  error and the rest.
\<close>

fun multi_append :: "error list \<Rightarrow> error \<Rightarrow> error list" where
  "multi_append errs (MultiE e es) = errs @ e # es"
| "multi_append errs e = errs @ [e]"

text \<open>\<open>(*multierror.Error).ErrorOrNil\<close>: an empty list of errors is no error.\<close>

definition error_or_nil :: "error list \<Rightarrow> error option" where
  "error_or_nil errs = (case errs of [] \<Rightarrow> None | e # es \<Rightarrow> Some (MultiE e es))"

lemma error_or_nil_simps [simp]:
  "error_or_nil [] = None"
  "error_or_nil (e # es) = Some (MultiE e es)"
  "error_or_nil es = None \<longleftrightarrow> es = []"
  by (simp_all add: error_or_nil_def split: list.splits)

lemma multi_append_ne [simp]: "multi_append errs e \<noteq> []"
  by (cases e) auto

section \<open>Outcomes and world-passing computations\<close>

datatype 'a outcome = Ret 'a | Panic string | Blocked

type_synonym ('w, 'a) io = "'w \<Rightarrow> 'a outcome \<times> 'w"
type_synonym ('w, 'a) ioe = "'w \<Rightarrow> (error + 'a) outcome \<times> 'w"

definition ret :: "'a \<Rightarrow> ('w, 'a) io" where
  "ret a = (\<lambda>w. (Ret a, w))"

definition io_bind :: "('w, 'a) io \<Rightarrow> ('a \<Rightarrow> ('w, 'b) io) \<Rightarrow> ('w, 'b) io" where
  "io_bind m f = (\<lambda>w. case m w of
      (Ret a, w1) \<Rightarrow> f a w1
    | (Panic s, w1) \<Rightarrow> (Panic s, w1)
    | (Blocked, w1) \<Rightarrow> (Blocked, w1))"

text \<open>\<open>if err != nil { return ..., err }\<close>: an error ends the caller.\<close>

definition try_bind :: "('w, 'a) ioe \<Rightarrow> ('a \<Rightarrow> ('w, 'b) ioe) \<Rightarrow> ('w, 'b) ioe" where
  "try_bind m f = io_bind m (\<lambda>r. case r of Inl e \<Rightarrow> ret (Inl e) | Inr a \<Rightarrow> f a)"

text \<open>\<open>return ..., fmt.Errorf(f, args, err)\<close> instead of \<open>err\<close>.\<close>

definition wrap_err :: "(error \<Rightarrow> error) \<Rightarrow> ('w, 'a) ioe \<Rightarrow> ('w, 'a) ioe" where
  "wrap_err g m = io_bind m (\<lambda>r. ret (map_sum g (\<lambda>a. a) r))"

text \<open>\<open>defer c\<close>: \<open>c\<close> runs when the rest of the function is left, however it is left.\<close>

definition defer_io :: "('w \<Rightarrow> 'w) \<Rightarrow> ('w, 'a) io \<Rightarrow> ('w, 'a) io" where
  "defer_io c m = (\<lambda>w. case m w of (r, w1) \<Rightarrow> (r, c w1))"

lemma io_bind_simps [simp, io_simps]:
  "m w = (Ret a, w1) \<Longrightarrow> io_bind m f w = f a w1"
  "m w = (Panic s, w1) \<Longrightarrow> io_bind m f w = (Panic s, w1)"
  "m w = (Blocked, w1) \<Longrightarrow> io_bind m f w = (Blocked, w1)"
  by (simp_all add: io_bind_def)

lemma ret_simp [simp, io_simps]: "ret a w = (Ret a, w)"
  by (simp add: ret_def)

lemma try_bind_simps [simp, io_simps]:
  "m w = (Ret (Inr a), w1) \<Longrightarrow> try_bind m f w = f a w1"
  "m w = (Ret (Inl e), w1) \<Longrightarrow> try_bind m f w = (Ret (Inl e), w1)"
  "m w = (Panic s, w1) \<Longrightarrow> try_bind m f w = (Panic s, w1)"
  "m w = (Blocked, w1) \<Longrightarrow> try_bind m f w = (Blocked, w1)"
  by (simp_all add: try_bind_def)

lemma wrap_err_simps [simp, io_simps]:
  "m w = (Ret (Inr a), w1) \<Longrightarrow> wrap_err g m w = (Ret (Inr a), w1)"
  "m w = (Ret (Inl e), w1) \<Longrightarrow> wrap_err g m w = (Ret (Inl (g e)), w1)"
  "m w = (Panic s, w1) \<Longrightarrow> wrap_err g m w = (Panic s, w1)"
  "m w = (Blocked, w1) \<Longrightarrow> wrap_err g m w = (Blocked, w1)"
  by (simp_all add: wrap_err_def)

lemma defer_io_simp [simp, io_simps]: "m w = (r, w1) \<Longrightarrow> defer_io c m w = (r, c w1)"
  by (simp add: defer_io_def)

lemma io_bind_RetE [io_split]:
  "io_bind m f w = (Ret b, w') \<longleftrightarrow> (\<exists>a w1. m w = (Ret a, w1) \<and> f a w1 = (Ret b, w'))"
  by (auto simp: io_bind_def split: prod.splits outcome.splits)

lemma try_bind_Inr [io_split]:
  "try_bind m f w = (Ret (Inr b), w') \<longleftrightarrow>
     (\<exists>a w1. m w = (Ret (Inr a), w1) \<and> f a w1 = (Ret (Inr b), w'))"
  by (auto simp: try_bind_def io_bind_def split: prod.splits outcome.splits sum.splits)

lemma try_bind_Inl [io_split]:
  "try_bind m f w = (Ret (Inl e), w') \<longleftrightarrow>
     m w = (Ret (Inl e), w') \<or> (\<exists>a w1. m w = (Ret (Inr a), w1) \<and> f a w1 = (Ret (Inl e), w'))"
  by (auto simp: try_bind_def io_bind_def split: prod.splits outcome.splits sum.splits)

lemma wrap_err_Inr [io_split]:
  "wrap_err g m w = (Ret (Inr a), w') \<longleftrightarrow> m w = (Ret (Inr a), w')"
  by (auto simp: wrap_err_def io_bind_def split: prod.splits outcome.splits)
     (auto simp: map_sum_def split: sum.splits)

lemma wrap_err_Inl [io_split]:
  "wrap_err g m w = (Ret (Inl e), w') \<longleftrightarrow> (\<exists>e0. m w = (Ret (Inl e0), w') \<and> e = g e0)"
  by (auto simp: wrap_err_def io_bind_def split: prod.splits outcome.splits)
     (auto simp: map_sum_def split: sum.splits)

lemma defer_io_Ret [io_split]:
  "defer_io c m w = (r, w') \<longleftrightarrow> (\<exists>w1. m w = (r, w1) \<and> w' = c w1)"
  by (auto simp: defer_io_def split: prod.splits)

section \<open>Strings\<close>

text \<open>\<open>strings.Split(s, sep)\<close> for a one-byte separator: one piece more than separators.\<close>

fun str_split :: "char \<Rightarrow> string \<Rightarrow> string list" where
  "str_split c [] = [[]]"
| "str_split c (x # xs) =
     (if x = c then [] # str_split c xs
      else (case str_split c xs of [] \<Rightarrow> [[x]] | y # ys \<Rightarrow> (x # y) # ys))"

text \<open>Cut at the first separator.\<close>

fun str_cut :: "char \<Rightarrow> string \<Rightarrow> string \<times> string option" where
  "str_cut c [] = ([], None)"
| "str_cut c (x # xs) =
     (if x = c then ([], Some xs) else (case str_cut c xs of (a, r) \<Rightarrow> (x # a, r)))"

text \<open>\<open>strings.SplitN(s, sep, n)\<close>: at most \<open>n\<close> pieces, the last one unsplit.\<close>

fun str_splitn :: "char \<Rightarrow> nat \<Rightarrow> string \<Rightarrow> string list" where
  "str_splitn c 0 s = []"
| "str_splitn c (Suc 0) s = [s]"
| "str_splitn c (Suc (Suc n)) s =
     (case str_cut c s of (a, None) \<Rightarrow> [a] | (a, Some r) \<Rightarrow> a # str_splitn c (Suc n) r)"

text \<open>\<open>strings.Join\<close> with a one-byte separator.\<close>

fun str_join :: "char \<Rightarrow> string list \<Rightarrow> string" where
  "str_join c [] = []"
| "str_join c [s] = s"
| "str_join c (s # t # ss) = s @ [c] @ str_join c (t # ss)"

definition has_prefix :: "string \<Rightarrow> string \<Rightarrow> bool" where
  "has_prefix s p \<longleftrightarrow> take (length p) s = p"

definition trim_prefix :: "string \<Rightarrow> string \<Rightarrow> string" where
  "trim_prefix s p = (if has_prefix s p then drop (length p) s else s)"

definition is_space :: "char \<Rightarrow> bool" where
  "is_space c \<longleftrightarrow> (let n = of_char c :: nat in n = 32 \<or> (9 \<le> n \<and> n \<le> 13))"

definition trim_space :: "string \<Rightarrow> string" where
  "trim_space s = rev (dropWhile is_space (rev (dropWhile is_space s)))"

text \<open>\<open>strings.Fields\<close>: the maximal runs of bytes that are not white space.\<close>

fun str_fields_acc :: "string \<Rightarrow> string \<Rightarrow> string list" where
  "str_fields_acc cur [] = (if cur = [] then [] else [rev cur])"
| "str_fields_acc cur (x # xs) =
     (if is_space x then (if cur = [] then [] else [rev cur]) @ str_fields_acc [] xs
      else str_fields_acc (x # cur) xs)"

definition str_fields :: "string \<Rightarrow> string list" where
  "str_fields s = str_fields_acc [] s"

text \<open>
  The lines a \<open>bufio.Scanner\<close> returns: newline-terminated, a trailing carriage return
  dropped, no empty last line; a line that does not fit the 64 KiB buffer ends the scan.
\<close>

definition max_scan_token_size :: nat where
  "max_scan_token_size = 65536"

definition drop_cr :: "string \<Rightarrow> string" where
  "drop_cr l = (if l \<noteq> [] \<and> last l = CHR 0x0D then butlast l else l)"

definition raw_lines :: "string \<Rightarrow> string list" where
  "raw_lines s = (let ls = str_split (CHR 0x0A) s in
     if last ls = [] then butlast ls else ls)"

definition scan_lines :: "string \<Rightarrow> string list" where
  "scan_lines s = map drop_cr (takeWhile (\<lambda>l. length l < max_scan_token_size) (raw_lines s))"

text \<open>\<open>strconv.ParseInt(s, 10, bits)\<close>; a syntax or a range error is \<open>None\<close>.\<close>

definition digit_val :: "char \<Rightarrow> nat option" where
  "digit_val c = (let n = of_char c :: nat in if 48 \<le> n \<and> n \<le> 57 then Some (n - 48) else None)"

fun parse_digits :: "nat \<Rightarrow> string \<Rightarrow> nat option" where
  "parse_digits acc [] = Some acc"
| "parse_digits acc (c # cs) =
     (case digit_val c of None \<Rightarrow> None | Some d \<Rightarrow> parse_digits (10 * acc + d) cs)"

definition parse_uint :: "string \<Rightarrow> nat option" where
  "parse_uint s = (if s = [] then None else parse_digits 0 s)"

definition parse_int :: "nat \<Rightarrow> string \<Rightarrow> int option" where
  "parse_int bits s =
     (let neg = (take 1 s = ''-'');
          body = (if neg \<or> take 1 s = ''+'' then drop 1 s else s)
      in case parse_uint body of
           None \<Rightarrow> None
         | Some u \<Rightarrow> let n = (if neg then - int u else int u) in
             if - (2 ^ (bits - 1)) \<le> n \<and> n < 2 ^ (bits - 1) then Some n else None)"

subsection \<open>Laws of the string functions\<close>

lemma str_split_ne [simp]: "str_split c s \<noteq> []"
  by (induction s) (auto split: list.splits)

lemma str_join_split: "str_join c (str_split c s) = s"
proof (induction s)
  case (Cons x s)
  obtain y ys where split: "str_split c s = y # ys"
    by (cases "str_split c s") auto
  with Cons.IH show ?case by (cases ys) auto
qed simp

lemma str_split_no_sep: "p \<in> set (str_split c s) \<Longrightarrow> c \<notin> set p"
proof (induction s arbitrary: p)
  case (Cons x s)
  then show ?case
    by (cases "str_split c s") (auto split: if_splits)
qed simp

lemma str_split_id: "c \<notin> set s \<Longrightarrow> str_split c s = [s]"
  by (induction s) auto

lemma str_split_append: "c \<notin> set s \<Longrightarrow> str_split c (s @ c # t) = s # str_split c t"
  by (induction s) auto

lemma str_cut_None [simp]: "str_cut c s = (a, None) \<longleftrightarrow> c \<notin> set s \<and> a = s"
proof (induction s arbitrary: a)
  case (Cons x s)
  then show ?case by (cases "str_cut c s"; cases a) auto
qed auto

lemma str_cut_notin [simp]: "c \<notin> set s \<Longrightarrow> str_cut c s = (s, None)"
  by simp

lemma str_cut_append [simp]: "c \<notin> set a \<Longrightarrow> str_cut c (a @ c # r) = (a, Some r)"
  by (induction a) auto

lemma str_cut_SomeD: "str_cut c s = (a, Some r) \<Longrightarrow> c \<notin> set a \<and> s = a @ c # r"
proof (induction s arbitrary: a)
  case (Cons x s)
  then show ?case by (cases "str_cut c s") (auto split: if_splits)
qed simp

lemma str_cut_Some: "str_cut c s = (a, Some r) \<longleftrightarrow> c \<notin> set a \<and> s = a @ c # r"
  using str_cut_SomeD by fastforce

lemma str_splitn_ne [simp]: "str_splitn c (Suc n) s \<noteq> []"
  by (cases n) (auto split: prod.splits option.splits)

lemma str_splitn_length: "length (str_splitn c n s) \<le> n"
  by (induction c n s rule: str_splitn.induct) (auto split: prod.splits option.splits)

lemma str_join_splitn: "str_join c (str_splitn c (Suc n) s) = s"
proof (induction n arbitrary: s)
  case (Suc n)
  show ?case
  proof (cases "str_cut c s")
    case (Pair a r)
    show ?thesis
    proof (cases r)
      case (Some t)
      obtain y ys where "str_splitn c (Suc n) t = y # ys"
        using str_splitn_ne [of c n t] by (cases "str_splitn c (Suc n) t") auto
      with Suc.IH [of t] Pair Some show ?thesis by (auto dest: str_cut_SomeD)
    qed (use Pair in auto)
  qed
qed simp

lemma str_splitn_2:
  "str_splitn c 2 s = (case str_cut c s of (a, None) \<Rightarrow> [a] | (a, Some r) \<Rightarrow> [a, r])"
  by (simp add: numeral_2_eq_2)

lemma has_prefix_append [simp]: "has_prefix (p @ s) p"
  by (simp add: has_prefix_def)

lemma has_prefix_iff: "has_prefix s p \<longleftrightarrow> (\<exists>t. s = p @ t)"
  by (auto simp: has_prefix_def) (metis append_take_drop_id)

lemma trim_prefix_append [simp]: "trim_prefix (p @ s) p = s"
  by (simp add: trim_prefix_def)

lemma str_fields_acc_props:
  "f \<in> set (str_fields_acc cur s) \<Longrightarrow> \<forall>c\<in>set cur. \<not> is_space c \<Longrightarrow>
     f \<noteq> [] \<and> (\<forall>c\<in>set f. \<not> is_space c)"
  by (induction cur s arbitrary: f rule: str_fields_acc.induct) (auto split: if_splits)

lemma str_fields_props: "f \<in> set (str_fields s) \<Longrightarrow> f \<noteq> [] \<and> (\<forall>c\<in>set f. \<not> is_space c)"
  unfolding str_fields_def using str_fields_acc_props by fastforce

lemma str_fields_acc_ne: "cur \<noteq> [] \<Longrightarrow> str_fields_acc cur s \<noteq> []"
  by (induction cur s rule: str_fields_acc.induct) auto

lemma str_fields_Nil_iff: "str_fields s = [] \<longleftrightarrow> (\<forall>c\<in>set s. is_space c)"
proof (induction s)
  case (Cons x s)
  then show ?case using str_fields_acc_ne [of "[x]" s] by (auto simp: str_fields_def)
qed (simp add: str_fields_def)

lemma trim_space_Nil_iff: "trim_space s = [] \<longleftrightarrow> (\<forall>c\<in>set s. is_space c)"
  by (auto simp: trim_space_def dropWhile_eq_Nil_conv dest: set_dropWhileD)
     (metis dropWhile_eq_Nil_conv hd_dropWhile hd_in_set)

text \<open>A line that is not blank has a first field: indexing it cannot be out of range.\<close>

lemma str_fields_nonblank: "trim_space s \<noteq> [] \<Longrightarrow> str_fields s \<noteq> []"
  by (simp add: trim_space_Nil_iff str_fields_Nil_iff)

lemma parse_int_range: "parse_int bits s = Some n \<Longrightarrow> - (2 ^ (bits - 1)) \<le> n \<and> n < 2 ^ (bits - 1)"
  by (auto simp: parse_int_def Let_def split: option.splits if_splits)

section \<open>Go maps\<close>

abbreviation mput :: "'k \<Rightarrow> 'v \<Rightarrow> ('k \<times> 'v) list \<Rightarrow> ('k \<times> 'v) list" where
  "mput \<equiv> AList.update"

abbreviation mkeys :: "('k \<times> 'v) list \<Rightarrow> 'k list" where
  "mkeys m \<equiv> map fst m"

abbreviation wf_map :: "('k \<times> 'v) list \<Rightarrow> bool" where
  "wf_map m \<equiv> distinct (map fst m)"

lemma map_of_mput [simp]: "map_of (mput k v m) = (map_of m)(k \<mapsto> v)"
  by (simp add: update_conv')

lemma wf_map_mput [simp]: "wf_map m \<Longrightarrow> wf_map (mput k v m)"
  by (rule distinct_update)

lemma mkeys_mput [simp]: "fst ` set (mput k v m) = insert k (fst ` set m)"
  by (simp add: dom_update)

lemma mput_fresh: "k \<notin> fst ` set m \<Longrightarrow> mput k v m = m @ [(k, v)]"
  by (induction m) auto

text \<open>The first writer of a key wins: \<open>if _, assigned := m[k]; !assigned { m[k] = v }\<close>.\<close>

definition mput_new :: "'k \<Rightarrow> 'v \<Rightarrow> ('k \<times> 'v) list \<Rightarrow> ('k \<times> 'v) list" where
  "mput_new k v m = (case map_of m k of None \<Rightarrow> mput k v m | Some _ \<Rightarrow> m)"

lemma map_of_mput_new:
  "map_of (mput_new k v m) x = (if x = k \<and> map_of m k = None then Some v else map_of m x)"
  by (auto simp: mput_new_def split: option.splits)

lemma wf_map_mput_new [simp]: "wf_map m \<Longrightarrow> wf_map (mput_new k v m)"
  by (auto simp: mput_new_def split: option.splits)

section \<open>Lists\<close>

lemma list_all2_memD: "list_all2 P xs ys \<Longrightarrow> y \<in> set ys \<Longrightarrow> \<exists>x\<in>set xs. P x y"
  by (induction rule: list_all2_induct) auto

end
