(* ===== verification/Build_Types.thy ===== *)
theory Build_Types
  imports Farm_Prelude "HOL-Library.Word"
begin

text \<open>
  The data of \<open>types.go\<close> as records, \<open>copyStringStringMap\<close> (\<open>copy.go\<close>) and the translation of
  build options to podman's (\<open>podman.go\<close>). Field names are the source's with a prefix for the
  struct. An \<open>int64\<close> or \<open>uint64\<close> is a 64-bit word; a nil map or pointer is \<open>None\<close>; a context is
  not modelled; an \<open>io.Writer\<close> is one of the writers the program makes or an external one.
\<close>

type_synonym i64 = "64 word"
type_synonym u64 = "64 word"
type_synonym named_ref = string
type_synonym string_map = "(string \<times> string) list"

text \<open>The struct \<open>{ OS, Arch, Variant string }\<close>.\<close>

type_synonym plat = "string \<times> string \<times> string"

datatype writer = NilWriter | PipeOut string | PipeErr string | ExtWriter nat

section \<open>types.go\<close>

record Info =
  NativePlatforms :: "string list"
  EmulatedPlatforms :: "string list"

record BuildOptions =
  bo_OutputFormat :: string
  bo_Out :: writer
  bo_Err :: writer
  bo_ForceRemoveIntermediateContainers :: bool
  bo_RemoveIntermediateContainers :: bool
  bo_RemoveIntermediateImages :: bool
  bo_PruneImagesOnSuccess :: bool
  bo_Platforms :: "plat list"
  bo_Pull :: bool
  bo_IIDFile :: string
  bo_ContextDirectory :: string
  bo_Labels :: "string list"
  bo_Args :: "string_map option"
  bo_ShmSize :: string
  bo_Ulimit :: "string list"
  bo_Memory :: i64
  bo_MemorySwap :: i64
  bo_CPUShares :: u64
  bo_CPUQuota :: i64
  bo_CPUPeriod :: u64
  bo_CPUSetCPUs :: string
  bo_CPUSetMems :: string
  bo_CgroupParent :: string
  bo_NoCache :: bool
  bo_Quiet :: bool
  bo_CacheFrom :: "named_ref list"
  bo_CacheTo :: "named_ref list"
  bo_AddHost :: "string list"
  bo_Target :: string
  bo_ConfigureNetwork :: "bool option"

record BuildReport =
  ImageID :: string
  SaveFormat :: string

record PullToFileOptions =
  pf_ImageID :: string
  pf_SaveFormat :: string
  pf_SaveFile :: string

text \<open>A handle of an external \<open>entities.ImageEngine\<close>; \<open>None\<close> where the source has nil.\<close>

type_synonym engine = nat

record PullToLocalOptions =
  pl_ImageID :: string
  pl_SaveFormat :: string
  pl_Destination :: "engine option"

record RemoveImageOptions =
  rm_ImageID :: string

record PruneImageOptions =
  pr_All :: bool

record PruneImageReport =
  ImageIDs :: "string list"
  ImageNames :: "string list"

record ListBuilderOptions =
  lo_ForceRemoveIntermediateContainers :: bool
  lo_RemoveIntermediateContainers :: bool
  lo_RemoveIntermediateImages :: bool
  lo_PruneImagesOnSuccess :: bool
  lo_IIDFile :: string

text \<open>The zero value of \<open>BuildOptions\<close>.\<close>

definition zero_BuildOptions :: BuildOptions where
  "zero_BuildOptions = \<lparr>bo_OutputFormat = [], bo_Out = NilWriter, bo_Err = NilWriter,
     bo_ForceRemoveIntermediateContainers = False, bo_RemoveIntermediateContainers = False,
     bo_RemoveIntermediateImages = False, bo_PruneImagesOnSuccess = False, bo_Platforms = [],
     bo_Pull = False, bo_IIDFile = [], bo_ContextDirectory = [], bo_Labels = [], bo_Args = None,
     bo_ShmSize = [], bo_Ulimit = [], bo_Memory = 0, bo_MemorySwap = 0, bo_CPUShares = 0,
     bo_CPUQuota = 0, bo_CPUPeriod = 0, bo_CPUSetCPUs = [], bo_CPUSetMems = [],
     bo_CgroupParent = [], bo_NoCache = False, bo_Quiet = False, bo_CacheFrom = [],
     bo_CacheTo = [], bo_AddHost = [], bo_Target = [], bo_ConfigureNetwork = None\<rparr>"

section \<open>copy.go\<close>

definition copyStringStringMap :: "string_map option \<Rightarrow> string_map option" where
  "copyStringStringMap inp = (case inp of
      None \<Rightarrow> None
    | Some m \<Rightarrow> Some (fold (\<lambda>kv out. mput (fst kv) (snd kv) out) m []))"

section \<open>podman.go\<close>

datatype PullPolicy = PullIfMissing | PullAlways | PullIfNewer | PullNever

datatype NetworkConfigurationPolicy = NetworkDefault | NetworkDisabled | NetworkEnabled

text \<open>The fields of buildah's options that the program sets; the others keep their zero value.\<close>

record CommonBuildOptions =
  cb_ShmSize :: string
  cb_Ulimit :: "string list"
  cb_Memory :: i64
  cb_MemorySwap :: i64
  cb_CPUShares :: u64
  cb_CPUQuota :: i64
  cb_CPUPeriod :: u64
  cb_CPUSetCPUs :: string
  cb_CPUSetMems :: string
  cb_CgroupParent :: string
  cb_AddHost :: "string list"

record podman_BuildOptions =
  pb_Layers :: bool
  pb_CommonBuildOpts :: CommonBuildOptions
  pb_OutputFormat :: string
  pb_Out :: writer
  pb_Err :: writer
  pb_ForceRmIntermediateCtrs :: bool
  pb_RemoveIntermediateCtrs :: bool
  pb_Platforms :: "plat list"
  pb_PullPolicy :: PullPolicy
  pb_IIDFile :: string
  pb_ContextDirectory :: string
  pb_Labels :: "string list"
  pb_Args :: "string_map option"
  pb_NoCache :: bool
  pb_Quiet :: bool
  pb_CacheFrom :: "named_ref list"
  pb_CacheTo :: "named_ref list"
  pb_Target :: string
  pb_ConfigureNetwork :: NetworkConfigurationPolicy

definition pull_policy :: "BuildOptions \<Rightarrow> PullPolicy" where
  "pull_policy options = (if bo_Pull options then PullAlways else PullIfMissing)"

definition network_policy :: "BuildOptions \<Rightarrow> NetworkConfigurationPolicy" where
  "network_policy options = (case bo_ConfigureNetwork options of
      None \<Rightarrow> NetworkDefault
    | Some b \<Rightarrow> if b then NetworkEnabled else NetworkDisabled)"

definition podmanBuildOptionsFromBuildOptions ::
    "BuildOptions \<Rightarrow> string \<Rightarrow> string \<Rightarrow> string \<Rightarrow> podman_BuildOptions" where
  "podmanBuildOptionsFromBuildOptions options os arch variant = \<lparr>
     pb_Layers = True,
     pb_CommonBuildOpts = \<lparr>
       cb_ShmSize = bo_ShmSize options,
       cb_Ulimit = [] @ bo_Ulimit options,
       cb_Memory = bo_Memory options,
       cb_MemorySwap = bo_MemorySwap options,
       cb_CPUShares = bo_CPUShares options,
       cb_CPUQuota = bo_CPUQuota options,
       cb_CPUPeriod = bo_CPUPeriod options,
       cb_CPUSetCPUs = bo_CPUSetCPUs options,
       cb_CPUSetMems = bo_CPUSetMems options,
       cb_CgroupParent = bo_CgroupParent options,
       cb_AddHost = [] @ bo_AddHost options\<rparr>,
     pb_OutputFormat = bo_OutputFormat options,
     pb_Out = bo_Out options,
     pb_Err = bo_Err options,
     pb_ForceRmIntermediateCtrs = bo_ForceRemoveIntermediateContainers options,
     pb_RemoveIntermediateCtrs = bo_RemoveIntermediateContainers options,
     pb_Platforms = [(os, arch, variant)],
     pb_PullPolicy = pull_policy options,
     pb_IIDFile = bo_IIDFile options,
     pb_ContextDirectory = bo_ContextDirectory options,
     pb_Labels = [] @ bo_Labels options,
     pb_Args = copyStringStringMap (bo_Args options),
     pb_NoCache = bo_NoCache options,
     pb_Quiet = bo_Quiet options,
     pb_CacheFrom = [] @ bo_CacheFrom options,
     pb_CacheTo = [] @ bo_CacheTo options,
     pb_Target = bo_Target options,
     pb_ConfigureNetwork = network_policy options\<rparr>"

section \<open>Laws\<close>

lemma fold_mput_append:
  assumes "distinct (map fst acc @ map fst m)"
  shows "fold (\<lambda>kv out. mput (fst kv) (snd kv) out) m acc = acc @ m"
  using assms
proof (induction m arbitrary: acc)
  case (Cons kv m)
  then have "mput (fst kv) (snd kv) acc = acc @ [kv]"
    by (subst mput_fresh) auto
  with Cons show ?case by simp
qed simp

lemma copyStringStringMap_id: "wf_map m \<Longrightarrow> copyStringStringMap (Some m) = Some m"
  by (simp add: copyStringStringMap_def fold_mput_append)

end
