(* ===== verification/Elf_Headers.thy ===== *)
theory Elf_Headers
  imports Farm_Prelude "HOL-Library.Word"
begin

text \<open>
  The generator of ELF header prefixes, \<open>emulation/elf.go\<close>: the table of known target
  platforms, \<open>(*elfPlatform).header\<close>, which builds the plausible first 40 bytes of binaries
  for one platform, and \<open>getKnownELFPlatformHeaders\<close>. A header buffer is the world of the
  byte-writing operations, and a write outside the buffer is a panic. The constants are those
  of Go's \<open>debug/elf\<close>.
\<close>

unbundle bit_operations_syntax

type_synonym byte = "8 word"
type_synonym u16 = "16 word"
type_synonym u32 = "32 word"

section \<open>Constants of debug/elf\<close>

definition ELFMAG :: "byte list" where "ELFMAG = [0x7f, 0x45, 0x4c, 0x46]"

definition EI_CLASS :: nat where [simp]: "EI_CLASS = 4"
definition EI_DATA :: nat where [simp]: "EI_DATA = 5"
definition EI_VERSION :: nat where [simp]: "EI_VERSION = 6"
definition EI_OSABI :: nat where [simp]: "EI_OSABI = 7"
definition EI_ABIVERSION :: nat where [simp]: "EI_ABIVERSION = 8"

definition ELFOSABI_NONE :: byte where [simp]: "ELFOSABI_NONE = 0"
definition ELFOSABI_LINUX :: byte where [simp]: "ELFOSABI_LINUX = 3"
definition ELFCLASS32 :: byte where [simp]: "ELFCLASS32 = 1"
definition ELFCLASS64 :: byte where [simp]: "ELFCLASS64 = 2"
definition ELFDATANONE :: byte where [simp]: "ELFDATANONE = 0"
definition ELFDATA2LSB :: byte where [simp]: "ELFDATA2LSB = 1"
definition ELFDATA2MSB :: byte where [simp]: "ELFDATA2MSB = 2"
definition EV_NONE :: nat where [simp]: "EV_NONE = 0"
definition EV_CURRENT :: nat where [simp]: "EV_CURRENT = 1"
definition ET_EXEC :: u16 where [simp]: "ET_EXEC = 2"

definition EM_386 :: u16 where [simp]: "EM_386 = 3"
definition EM_MIPS :: u16 where [simp]: "EM_MIPS = 8"
definition EM_MIPS_RS3_LE :: u16 where [simp]: "EM_MIPS_RS3_LE = 10"
definition EM_PPC :: u16 where [simp]: "EM_PPC = 20"
definition EM_PPC64 :: u16 where [simp]: "EM_PPC64 = 21"
definition EM_S390 :: u16 where [simp]: "EM_S390 = 22"
definition EM_ARM :: u16 where [simp]: "EM_ARM = 40"
definition EM_X86_64 :: u16 where [simp]: "EM_X86_64 = 62"
definition EM_AARCH64 :: u16 where [simp]: "EM_AARCH64 = 183"
definition EM_RISCV :: u16 where [simp]: "EM_RISCV = 243"
definition EM_LOONGARCH :: u16 where [simp]: "EM_LOONGARCH = 258"

section \<open>encoding/binary on a byte buffer\<close>

datatype byte_order = LittleEndian | BigEndian

text \<open>Overwriting a stretch of a buffer, and reading one back.\<close>

definition overwrite :: "nat \<Rightarrow> byte list \<Rightarrow> byte list \<Rightarrow> byte list" where
  "overwrite off bs h = take off h @ bs @ drop (off + length bs) h"

definition slice :: "nat \<Rightarrow> nat \<Rightarrow> byte list \<Rightarrow> byte list" where
  "slice off n h = take n (drop off h)"

definition put_bytes :: "nat \<Rightarrow> byte list \<Rightarrow> (byte list, unit) io" where
  "put_bytes off bs = (\<lambda>h. if off + length bs \<le> length h then (Ret (), overwrite off bs h)
     else (Panic ''index out of range'', h))"

definition put_byte :: "nat \<Rightarrow> byte \<Rightarrow> (byte list, unit) io" where
  "put_byte off v = put_bytes off [v]"

definition u16_bytes :: "byte_order \<Rightarrow> u16 \<Rightarrow> byte list" where
  "u16_bytes en v = (case en of
      LittleEndian \<Rightarrow> [ucast v, ucast (drop_bit 8 v)]
    | BigEndian \<Rightarrow> [ucast (drop_bit 8 v), ucast v])"

definition u32_bytes :: "byte_order \<Rightarrow> u32 \<Rightarrow> byte list" where
  "u32_bytes en v = (case en of
      LittleEndian \<Rightarrow> [ucast v, ucast (drop_bit 8 v), ucast (drop_bit 16 v), ucast (drop_bit 24 v)]
    | BigEndian \<Rightarrow> [ucast (drop_bit 24 v), ucast (drop_bit 16 v), ucast (drop_bit 8 v), ucast v])"

text \<open>\<open>endian.PutUint16(header[off:], v)\<close> and \<open>endian.PutUint32(header[off:], v)\<close>.\<close>

definition put_u16 :: "byte_order \<Rightarrow> nat \<Rightarrow> u16 \<Rightarrow> (byte list, unit) io" where
  "put_u16 en off v = put_bytes off (u16_bytes en v)"

definition put_u32 :: "byte_order \<Rightarrow> nat \<Rightarrow> u32 \<Rightarrow> (byte list, unit) io" where
  "put_u32 en off v = put_bytes off (u32_bytes en v)"

text \<open>The readers, used to state what a header says.\<close>

fun u16_of_bytes :: "byte_order \<Rightarrow> byte list \<Rightarrow> u16" where
  "u16_of_bytes LittleEndian bs = ucast (bs ! 0) OR push_bit 8 (ucast (bs ! 1))"
| "u16_of_bytes BigEndian bs = ucast (bs ! 1) OR push_bit 8 (ucast (bs ! 0))"

fun u32_of_bytes :: "byte_order \<Rightarrow> byte list \<Rightarrow> u32" where
  "u32_of_bytes LittleEndian bs = ucast (bs ! 0) OR push_bit 8 (ucast (bs ! 1))
     OR push_bit 16 (ucast (bs ! 2)) OR push_bit 24 (ucast (bs ! 3))"
| "u32_of_bytes BigEndian bs = ucast (bs ! 3) OR push_bit 8 (ucast (bs ! 2))
     OR push_bit 16 (ucast (bs ! 1)) OR push_bit 24 (ucast (bs ! 0))"

definition get_u16 :: "byte_order \<Rightarrow> nat \<Rightarrow> byte list \<Rightarrow> u16" where
  "get_u16 en off h = u16_of_bytes en (slice off 2 h)"

definition get_u32 :: "byte_order \<Rightarrow> nat \<Rightarrow> byte list \<Rightarrow> u32" where
  "get_u32 en off h = u32_of_bytes en (slice off 4 h)"

section \<open>The platform table\<close>

record elfPlatform =
  platform :: string
  osabi :: "byte list"
  eclass :: byte
  edata :: byte
  alsoNone :: bool
  machine :: u16
  eflags :: "u32 list"

definition knownELFPlatforms :: "elfPlatform list" where
  "knownELFPlatforms = [
    \<lparr>platform = ''linux/386'', osabi = [ELFOSABI_NONE, ELFOSABI_LINUX],
     eclass = ELFCLASS32, edata = ELFDATA2LSB, alsoNone = True, machine = EM_386, eflags = []\<rparr>,
    \<lparr>platform = ''linux/amd64'', osabi = [ELFOSABI_NONE, ELFOSABI_LINUX],
     eclass = ELFCLASS64, edata = ELFDATA2LSB, alsoNone = True, machine = EM_X86_64, eflags = []\<rparr>,
    \<lparr>platform = ''linux/arm'', osabi = [ELFOSABI_NONE, ELFOSABI_LINUX],
     eclass = ELFCLASS32, edata = ELFDATA2LSB, alsoNone = False, machine = EM_ARM, eflags = []\<rparr>,
    \<lparr>platform = ''linux/arm64'', osabi = [ELFOSABI_NONE, ELFOSABI_LINUX],
     eclass = ELFCLASS64, edata = ELFDATA2LSB, alsoNone = False, machine = EM_AARCH64, eflags = []\<rparr>,
    \<lparr>platform = ''linux/arm64be'', osabi = [ELFOSABI_NONE, ELFOSABI_LINUX],
     eclass = ELFCLASS64, edata = ELFDATA2MSB, alsoNone = False, machine = EM_AARCH64, eflags = []\<rparr>,
    \<lparr>platform = ''linux/loong64'', osabi = [ELFOSABI_NONE, ELFOSABI_LINUX],
     eclass = ELFCLASS64, edata = ELFDATA2LSB, alsoNone = False, machine = EM_LOONGARCH, eflags = []\<rparr>,
    \<lparr>platform = ''linux/mips'', osabi = [ELFOSABI_NONE, ELFOSABI_LINUX],
     eclass = ELFCLASS32, edata = ELFDATA2MSB, alsoNone = False, machine = EM_MIPS, eflags = [0, 2]\<rparr>,
    \<lparr>platform = ''linux/mipsle'', osabi = [ELFOSABI_NONE, ELFOSABI_LINUX],
     eclass = ELFCLASS32, edata = ELFDATA2LSB, alsoNone = False, machine = EM_MIPS_RS3_LE,
     eflags = [0, 2]\<rparr>,
    \<lparr>platform = ''linux/mips64'', osabi = [ELFOSABI_NONE, ELFOSABI_LINUX],
     eclass = ELFCLASS64, edata = ELFDATA2MSB, alsoNone = False, machine = EM_MIPS, eflags = [0, 2]\<rparr>,
    \<lparr>platform = ''linux/mips64le'', osabi = [ELFOSABI_NONE, ELFOSABI_LINUX],
     eclass = ELFCLASS64, edata = ELFDATA2LSB, alsoNone = False, machine = EM_MIPS_RS3_LE,
     eflags = [0, 2]\<rparr>,
    \<lparr>platform = ''linux/ppc'', osabi = [ELFOSABI_NONE, ELFOSABI_LINUX],
     eclass = ELFCLASS32, edata = ELFDATA2MSB, alsoNone = False, machine = EM_PPC, eflags = []\<rparr>,
    \<lparr>platform = ''linux/ppc64'', osabi = [ELFOSABI_NONE, ELFOSABI_LINUX],
     eclass = ELFCLASS64, edata = ELFDATA2MSB, alsoNone = False, machine = EM_PPC64, eflags = []\<rparr>,
    \<lparr>platform = ''linux/ppc64le'', osabi = [ELFOSABI_NONE, ELFOSABI_LINUX],
     eclass = ELFCLASS64, edata = ELFDATA2LSB, alsoNone = False, machine = EM_PPC64, eflags = []\<rparr>,
    \<lparr>platform = ''linux/riscv32'', osabi = [ELFOSABI_NONE, ELFOSABI_LINUX],
     eclass = ELFCLASS32, edata = ELFDATA2LSB, alsoNone = False, machine = EM_RISCV, eflags = []\<rparr>,
    \<lparr>platform = ''linux/riscv64'', osabi = [ELFOSABI_NONE, ELFOSABI_LINUX],
     eclass = ELFCLASS64, edata = ELFDATA2LSB, alsoNone = False, machine = EM_RISCV, eflags = []\<rparr>,
    \<lparr>platform = ''linux/s390x'', osabi = [ELFOSABI_NONE, ELFOSABI_LINUX],
     eclass = ELFCLASS64, edata = ELFDATA2MSB, alsoNone = False, machine = EM_S390, eflags = []\<rparr>]"

section \<open>Generating headers\<close>

definition go_copy :: "'a list \<Rightarrow> 'a list \<Rightarrow> 'a list" where
  "go_copy dst src = take (length dst) src @ drop (length src) dst"

text \<open>\<open>header := make([]byte, 40); copy(header, elf.ELFMAG)\<close>.\<close>

definition blank_header :: "byte list" where
  "blank_header = go_copy (replicate 40 0) ELFMAG"

text \<open>\<open>switch e.data\<close>: the byte order, or none for a value the switch refuses.\<close>

definition data_order :: "byte \<Rightarrow> byte_order option" where
  "data_order d = (if d = ELFDATA2LSB then Some LittleEndian
     else if d = ELFDATA2MSB then Some BigEndian else None)"

text \<open>\<open>switch e.class\<close>: \<open>entrySize\<close>, \<open>phoffSize\<close> and \<open>shoffSize\<close>, which are always equal.\<close>

definition addr_size :: "byte \<Rightarrow> nat" where
  "addr_size c = (if c = ELFCLASS32 then 2 else if c = ELFCLASS64 then 4 else 0)"

definition flags_offset :: "byte \<Rightarrow> nat" where
  "flags_offset c = 24 + addr_size c + addr_size c + addr_size c"

text \<open>The writes of one round of the inner loop, up to the first \<open>append\<close>.\<close>

definition fill_header :: "elfPlatform \<Rightarrow> byte_order \<Rightarrow> byte \<Rightarrow> u32 \<Rightarrow> (byte list, unit) io" where
  "fill_header e en abi flag =
     io_bind (put_byte EI_OSABI abi) (\<lambda>_.
     io_bind (put_byte EI_CLASS (eclass e)) (\<lambda>_.
     io_bind (put_byte EI_DATA (edata e)) (\<lambda>_.
     io_bind (put_byte EI_VERSION (of_nat EV_CURRENT)) (\<lambda>_.
     io_bind (put_byte EI_ABIVERSION 0) (\<lambda>_.
     io_bind (put_u16 en 16 ET_EXEC) (\<lambda>_.
     io_bind (put_u16 en 18 (machine e)) (\<lambda>_.
     io_bind (put_u32 en 20 (of_nat EV_CURRENT)) (\<lambda>_.
     put_u32 en (flags_offset (eclass e)) flag))))))))"

text \<open>The three writes of \<open>if e.alsoNone\<close>.\<close>

definition none_header :: "byte_order \<Rightarrow> (byte list, unit) io" where
  "none_header en =
     io_bind (put_byte EI_DATA ELFDATANONE) (\<lambda>_.
     io_bind (put_byte EI_VERSION (of_nat EV_NONE)) (\<lambda>_.
     put_u32 en 20 (of_nat EV_NONE)))"

definition header_round :: "elfPlatform \<Rightarrow> byte \<Rightarrow> u32 \<Rightarrow> (error + byte list list) outcome" where
  "header_round e abi flag = (case data_order (edata e) of
      None \<Rightarrow> Ret (Inl (Errorf ''internal error in entry for %q'' [AStr (platform e)]))
    | Some en \<Rightarrow>
       (case fill_header e en abi flag blank_header of
          (Ret _, h) \<Rightarrow>
            if alsoNone e then
              (case none_header en h of
                 (Ret _, h') \<Rightarrow> Ret (Inr [h, h'])
               | (Panic s, _) \<Rightarrow> Panic s
               | (Blocked, _) \<Rightarrow> Blocked)
            else Ret (Inr [h])
        | (Panic s, _) \<Rightarrow> Panic s
        | (Blocked, _) \<Rightarrow> Blocked))"

fun header_rounds :: "elfPlatform \<Rightarrow> (byte \<times> u32) list \<Rightarrow> byte list list \<Rightarrow>
    (error + byte list list) outcome" where
  "header_rounds e [] headers = Ret (Inr headers)"
| "header_rounds e ((abi, flag) # rest) headers =
     (case header_round e abi flag of
        Ret (Inr hs) \<Rightarrow> header_rounds e rest (headers @ hs)
      | Ret (Inl err) \<Rightarrow> Ret (Inl err)
      | Panic s \<Rightarrow> Panic s
      | Blocked \<Rightarrow> Blocked)"

definition header :: "elfPlatform \<Rightarrow> (error + byte list list) outcome" where
  "header e =
     (let abis = (if osabi e = [] then [ELFOSABI_NONE] else osabi e);
          flags = (if eflags e = [] then [0] else eflags e)
      in header_rounds e (List.product abis flags) [])"

fun known_headers :: "elfPlatform list \<Rightarrow> (string \<times> byte list list) list \<Rightarrow>
    (string \<times> byte list list) list outcome" where
  "known_headers [] m = Ret m"
| "known_headers (p # ps) m =
     (case header p of
        Ret (Inr headerList) \<Rightarrow> known_headers ps (mput (platform p) headerList m)
      | Ret (Inl err) \<Rightarrow> known_headers ps m
      | Panic s \<Rightarrow> Panic s
      | Blocked \<Rightarrow> Blocked)"

definition getKnownELFPlatformHeaders :: "(string \<times> byte list list) list outcome" where
  "getKnownELFPlatformHeaders = known_headers knownELFPlatforms []"

section \<open>Laws of the byte buffer\<close>

named_theorems buffer_simps \<open>reading a buffer after a write\<close>

lemma length_overwrite [simp]: "off + length bs \<le> length h \<Longrightarrow> length (overwrite off bs h) = length h"
  by (simp add: overwrite_def)

lemma slice_overwrite_same [buffer_simps]:
  "off + length bs \<le> length h \<Longrightarrow> n = length bs \<Longrightarrow> slice off n (overwrite off bs h) = bs"
  by (simp add: slice_def overwrite_def)

lemma slice_overwrite_before [buffer_simps]:
  "o' + n \<le> off \<Longrightarrow> off \<le> length h \<Longrightarrow> slice o' n (overwrite off bs h) = slice o' n h"
  by (auto simp: slice_def overwrite_def drop_take min_def)

lemma slice_overwrite_after [buffer_simps]:
  assumes "off + length bs \<le> o'" and "off + length bs \<le> length h"
  shows "slice o' n (overwrite off bs h) = slice o' n h"
proof -
  have "drop o' (overwrite off bs h) = drop (o' - (off + length bs)) (drop (off + length bs) h)"
    using assms by (simp add: overwrite_def drop_append)
  also have "\<dots> = drop o' h" using assms by simp
  finally show ?thesis by (simp add: slice_def)
qed

lemma put_bytes_ok [simp]:
  "off + length bs \<le> length h \<Longrightarrow> put_bytes off bs h = (Ret (), overwrite off bs h)"
  by (simp add: put_bytes_def)

lemma length_u16_bytes [simp]: "length (u16_bytes en v) = 2"
  by (cases en) (simp_all add: u16_bytes_def)

lemma length_u32_bytes [simp]: "length (u32_bytes en v) = 4"
  by (cases en) (simp_all add: u32_bytes_def)

lemma u16_of_bytes_u16_bytes [simp]: "u16_of_bytes en (u16_bytes en v) = v"
  by (cases en; simp add: u16_bytes_def; rule bit_word_eqI; auto simp: bit_simps)

lemma u32_of_bytes_u32_bytes [simp]: "u32_of_bytes en (u32_bytes en v) = v"
proof -
  have top: "24 + (n - 24) = n" if "\<not> n - 16 < 8" for n :: nat
    using that by simp
  show ?thesis
    by (cases en; simp add: u32_bytes_def; rule bit_word_eqI; auto simp: bit_simps)
       (metis top)+
qed

lemma flags_offset_bounds: "24 \<le> flags_offset c \<and> flags_offset c + 4 \<le> 40"
  by (simp add: flags_offset_def addr_size_def)

section \<open>What a generated header says\<close>

text \<open>The fields of a header of platform \<open>e\<close>, written with byte order \<open>en\<close>.\<close>

definition describes :: "elfPlatform \<Rightarrow> byte_order \<Rightarrow> byte \<Rightarrow> u32 \<Rightarrow> byte \<Rightarrow> nat \<Rightarrow> byte list \<Rightarrow> bool" where
  "describes e en abi flag d ver h \<longleftrightarrow>
     length h = 40 \<and> slice 0 4 h = ELFMAG \<and> slice EI_CLASS 1 h = [eclass e] \<and>
     slice EI_DATA 1 h = [d] \<and> slice EI_VERSION 1 h = [of_nat ver] \<and>
     slice EI_OSABI 1 h = [abi] \<and> slice EI_ABIVERSION 1 h = [0] \<and>
     get_u16 en 16 h = ET_EXEC \<and> get_u16 en 18 h = machine e \<and>
     get_u32 en 20 h = of_nat ver \<and> get_u32 en (flags_offset (eclass e)) h = flag"

lemma fill_header_describes:
  assumes "length h = 40" and "slice 0 4 h = ELFMAG"
  shows "\<exists>h'. fill_header e en abi flag h = (Ret (), h') \<and>
           describes e en abi flag (edata e) EV_CURRENT h'"
  using assms flags_offset_bounds [of "eclass e"]
  by (simp add: fill_header_def put_byte_def put_u16_def put_u32_def describes_def
      get_u16_def get_u32_def buffer_simps)

lemma none_header_describes:
  assumes "describes e en abi flag d ver h"
  shows "\<exists>h'. none_header en h = (Ret (), h') \<and> describes e en abi flag ELFDATANONE EV_NONE h'"
  using assms flags_offset_bounds [of "eclass e"]
  by (simp add: none_header_def put_byte_def put_u32_def describes_def
      get_u16_def get_u32_def buffer_simps)

text \<open>One round of the loops: the header, and with \<open>alsoNone\<close> its variant.\<close>

definition round_headers :: "elfPlatform \<Rightarrow> byte_order \<Rightarrow> byte \<times> u32 \<Rightarrow> byte list list \<Rightarrow> bool" where
  "round_headers e en af hs \<longleftrightarrow>
     (\<exists>h. describes e en (fst af) (snd af) (edata e) EV_CURRENT h \<and>
       (if alsoNone e
        then \<exists>h'. hs = [h, h'] \<and> describes e en (fst af) (snd af) ELFDATANONE EV_NONE h'
        else hs = [h]))"

lemma header_round_ok:
  assumes "data_order (edata e) = Some en"
  shows "\<exists>hs. header_round e abi flag = Ret (Inr hs) \<and> round_headers e en (abi, flag) hs"
proof -
  have blank: "length blank_header = 40" "slice 0 4 blank_header = ELFMAG"
    by (simp_all add: blank_header_def go_copy_def ELFMAG_def slice_def)
  obtain h where h: "fill_header e en abi flag blank_header = (Ret (), h)"
      and d: "describes e en abi flag (edata e) EV_CURRENT h"
    using fill_header_describes [OF blank] by blast
  obtain h' where h': "none_header en h = (Ret (), h')"
      and d': "describes e en abi flag ELFDATANONE EV_NONE h'"
    using none_header_describes [OF d] by blast
  show ?thesis
  proof (cases "alsoNone e")
    case True
    with assms h h' have "header_round e abi flag = Ret (Inr [h, h'])"
      by (simp add: header_round_def)
    moreover from True d d' have "round_headers e en (abi, flag) [h, h']"
      unfolding round_headers_def by auto
    ultimately show ?thesis by blast
  next
    case False
    with assms h have "header_round e abi flag = Ret (Inr [h])"
      by (simp add: header_round_def)
    moreover from False d have "round_headers e en (abi, flag) [h]"
      unfolding round_headers_def by auto
    ultimately show ?thesis by blast
  qed
qed

lemma header_rounds_ok:
  assumes "data_order (edata e) = Some en"
  shows "\<exists>hss. header_rounds e afs acc = Ret (Inr (acc @ concat hss)) \<and>
           list_all2 (round_headers e en) afs hss"
proof (induction afs arbitrary: acc)
  case Nil
  then show ?case by auto
next
  case (Cons af afs)
  obtain abi flag where af: "af = (abi, flag)" by (cases af)
  obtain hs where hs: "header_round e abi flag = Ret (Inr hs)" "round_headers e en af hs"
    using header_round_ok [OF assms] af by blast
  obtain hss where "header_rounds e afs (acc @ hs) = Ret (Inr ((acc @ hs) @ concat hss))"
      "list_all2 (round_headers e en) afs hss"
    using Cons.IH by blast
  with hs af show ?case by (intro exI [of _ "hs # hss"]) simp
qed

lemma round_headers_length: "round_headers e en af hs \<Longrightarrow> length hs = (if alsoNone e then 2 else 1)"
  by (auto simp: round_headers_def split: if_splits)

lemma round_headers_first:
  "round_headers e en af hs \<Longrightarrow> \<exists>h \<in> set hs. describes e en (fst af) (snd af) (edata e) EV_CURRENT h"
  by (auto simp: round_headers_def split: if_splits)

lemma concat_rounds_length:
  "list_all2 (round_headers e en) afs hss \<Longrightarrow>
     length (concat hss) = (if alsoNone e then 2 else 1) * length afs"
  by (induction rule: list_all2_induct) (auto simp: round_headers_length)

definition header_abis :: "elfPlatform \<Rightarrow> byte list" where
  "header_abis e = (if osabi e = [] then [ELFOSABI_NONE] else osabi e)"

definition header_flags :: "elfPlatform \<Rightarrow> u32 list" where
  "header_flags e = (if eflags e = [] then [0] else eflags e)"

lemma header_eq: "header e = header_rounds e (List.product (header_abis e) (header_flags e)) []"
  by (simp add: header_def header_abis_def header_flags_def Let_def)

lemma header_ok:
  assumes "data_order (edata e) = Some en"
  shows "\<exists>hss. header e = Ret (Inr (concat hss)) \<and>
    list_all2 (round_headers e en) (List.product (header_abis e) (header_flags e)) hss"
  using header_rounds_ok [OF assms, of _ "[]"] by (simp add: header_eq)

lemma list_all2_concat_in:
  "list_all2 P xs yss \<Longrightarrow> y \<in> set (concat yss) \<Longrightarrow> \<exists>x ys. x \<in> set xs \<and> P x ys \<and> y \<in> set ys"
  by (induction rule: list_all2_induct) auto

lemma list_all2_ex: "list_all2 P xs yss \<Longrightarrow> x \<in> set xs \<Longrightarrow> \<exists>ys. ys \<in> set yss \<and> P x ys"
  by (induction rule: list_all2_induct) auto

text \<open>What tells two platforms apart: the class byte and the two machine bytes.\<close>

definition signature :: "elfPlatform \<Rightarrow> byte list" where
  "signature e = [eclass e] @ (case data_order (edata e) of
     None \<Rightarrow> [] | Some en \<Rightarrow> u16_bytes en (machine e))"

lemma u16_bytes_of_bytes: "length bs = 2 \<Longrightarrow> u16_bytes en (u16_of_bytes en bs) = bs"
proof -
  assume "length bs = 2"
  then obtain a b where "bs = [a, b]"
    by (auto simp: numeral_2_eq_2 length_Suc_conv)
  then show ?thesis
    by (cases en; simp add: u16_bytes_def; intro conjI bit_word_eqI; auto simp: bit_simps dest: bit_imp_le_length)
qed

lemma describes_signature:
  assumes "describes e en abi flag d ver h" and "data_order (edata e) = Some en"
  shows "slice EI_CLASS 1 h @ slice 18 2 h = signature e"
proof -
  have "length (slice 18 2 h) = 2" using assms(1) by (simp add: describes_def slice_def)
  then have "slice 18 2 h = u16_bytes en (machine e)"
    using assms(1) u16_bytes_of_bytes [of "slice 18 2 h" en] by (simp add: describes_def get_u16_def)
  with assms show ?thesis by (simp add: describes_def signature_def)
qed

lemma table_data_order: "e \<in> set knownELFPlatforms \<Longrightarrow> data_order (edata e) \<noteq> None"
  by (auto simp: knownELFPlatforms_def data_order_def)

lemma table_signatures: "distinct (map signature knownELFPlatforms)"
  by (simp add: knownELFPlatforms_def signature_def data_order_def u16_bytes_def)

lemma table_platforms: "distinct (map platform knownELFPlatforms)"
  by (simp add: knownELFPlatforms_def)



text \<open>
  A table entry with any other data encoding is refused with an error naming its
  platform.
\<close>

theorem header_bad_data:
  assumes "edata e \<noteq> ELFDATA2LSB" and "edata e \<noteq> ELFDATA2MSB"
  shows "header e = Ret (Inl (Errorf ''internal error in entry for %q'' [AStr (platform e)]))"
proof -
  obtain abi abis flag flags where "header_abis e = abi # abis" "header_flags e = flag # flags"
    by (cases "osabi e"; cases "eflags e") (auto simp: header_abis_def header_flags_def)
  with assms show ?thesis
    by (simp add: header_eq header_round_def data_order_def)
qed

theorem header_bad_data_witness:
  "header ((knownELFPlatforms ! 0)\<lparr>edata := ELFDATANONE\<rparr>) =
     Ret (Inl (Errorf ''internal error in entry for %q'' [AStr ''linux/386'']))"
  using header_bad_data [of "(knownELFPlatforms ! 0)\<lparr>edata := ELFDATANONE\<rparr>"]
  by (simp add: knownELFPlatforms_def)

lemma header_signature:
  assumes "data_order (edata e) \<noteq> None" and "header e = Ret (Inr hs)" and "h \<in> set hs"
  shows "slice EI_CLASS 1 h @ slice 18 2 h = signature e"
proof -
  obtain en where en: "data_order (edata e) = Some en" using assms(1) by blast
  obtain hss where hss: "hs = concat hss"
      "list_all2 (round_headers e en) (List.product (header_abis e) (header_flags e)) hss"
    using header_ok [OF en] assms(2) by auto
  then obtain af hs' where "round_headers e en af hs'" "h \<in> set hs'"
    using list_all2_concat_in [OF hss(2), of h] assms(3) by blast
  then obtain d ver where "describes e en (fst af) (snd af) d ver h"
    by (fastforce simp: round_headers_def split: if_splits)
  then show ?thesis using describes_signature en by blast
qed

lemma known_headers_map:
  assumes "\<And>e. e \<in> set ps \<Longrightarrow> \<exists>hs. header e = Ret (Inr hs)"
    and "distinct (map platform ps)" and "platform ` set ps \<inter> fst ` set m = {}"
  shows "\<exists>m'. known_headers ps m = Ret m' \<and> map fst m' = map fst m @ map platform ps \<and>
    (\<forall>x \<in> set m'. x \<in> set m \<or> (\<exists>e \<in> set ps. fst x = platform e \<and> header e = Ret (Inr (snd x))))"
  using assms
proof (induction ps arbitrary: m)
  case (Cons e ps)
  obtain hs where hs: "header e = Ret (Inr hs)" using Cons.prems(1) by auto
  have put: "mput (platform e) hs m = m @ [(platform e, hs)]"
    using Cons.prems(3) by (intro mput_fresh) auto
  have "\<exists>m'. known_headers ps (m @ [(platform e, hs)]) = Ret m' \<and>
      map fst m' = map fst (m @ [(platform e, hs)]) @ map platform ps \<and>
      (\<forall>x \<in> set m'. x \<in> set (m @ [(platform e, hs)]) \<or>
         (\<exists>e \<in> set ps. fst x = platform e \<and> header e = Ret (Inr (snd x))))"
    using Cons.prems by (intro Cons.IH) auto
  with hs put show ?case by fastforce
qed auto

lemma known_headers_table:
  "\<exists>m. getKnownELFPlatformHeaders = Ret m \<and> map fst m = map platform knownELFPlatforms \<and>
     (\<forall>x \<in> set m. \<exists>e \<in> set knownELFPlatforms. fst x = platform e \<and> header e = Ret (Inr (snd x)))"
proof -
  have "\<exists>hs. header e = Ret (Inr hs)" if "e \<in> set knownELFPlatforms" for e
    using header_ok table_data_order [OF that] by blast
  then show ?thesis
    using known_headers_map [of knownELFPlatforms "[]"] table_platforms
    by (auto simp: getKnownELFPlatformHeaders_def)
qed

text \<open>The map \<open>getKnownELFPlatformHeaders\<close> returns.\<close>

definition known_map :: "(string \<times> byte list list) list" where
  "known_map = (case getKnownELFPlatformHeaders of Ret m \<Rightarrow> m | _ \<Rightarrow> [])"

lemma getKnown_eq [simp]: "getKnownELFPlatformHeaders = Ret known_map"
proof -
  obtain m where m: "getKnownELFPlatformHeaders = Ret m"
    using known_headers_table by blast
  show ?thesis unfolding known_map_def m by simp
qed

lemma known_map_props:
  "map fst known_map = map platform knownELFPlatforms"
  "\<forall>x \<in> set known_map. \<exists>e \<in> set knownELFPlatforms. fst x = platform e \<and> header e = Ret (Inr (snd x))"
  using known_headers_table by auto

lemma known_map_lookup:
  assumes "e \<in> set knownELFPlatforms"
  shows "\<exists>hs. header e = Ret (Inr hs) \<and> map_of known_map (platform e) = Some hs"
proof -
  have "platform e \<in> set (map fst known_map)" using known_map_props(1) assms(1) by simp
  then obtain hs where hs: "map_of known_map (platform e) = Some hs"
    by (metis domD dom_map_of_conv_image_fst list.set_map)
  then obtain e' where e': "e' \<in> set knownELFPlatforms" "platform e = platform e'"
      "header e' = Ret (Inr hs)"
    using known_map_props(2) map_of_SomeD [OF hs] by fastforce
  with assms(1) table_platforms have "e' = e" by (auto simp: distinct_map inj_on_def)
  with e' hs show ?thesis by blast
qed

text \<open>The facts that evaluate a header.\<close>

lemma blank_header_eval:
  "blank_header = [0x7f, 0x45, 0x4c, 0x46, 0, 0, 0, 0, 0, 0, 0, 0, 0, 0, 0, 0, 0, 0, 0, 0,
     0, 0, 0, 0, 0, 0, 0, 0, 0, 0, 0, 0, 0, 0, 0, 0, 0, 0, 0, 0]"
  by (simp add: blank_header_def go_copy_def ELFMAG_def eval_nat_numeral)

lemmas elf_eval = knownELFPlatforms_def header_def header_round_def data_order_def
  fill_header_def none_header_def blank_header_eval put_byte_def put_u16_def
  put_u32_def u16_bytes_def u32_bytes_def put_bytes_def overwrite_def flags_offset_def
  addr_size_def io_bind_def

text \<open>
  C37. The header map has one entry per table row, in every case, and its headers identify the
  platform: a byte string that is a plausible header of two platforms does not exist.
\<close>

theorem known_headers_identify:
  "\<exists>m. getKnownELFPlatformHeaders = Ret m \<and> map fst m = map platform knownELFPlatforms \<and>
     (\<forall>p hs q hs' h. map_of m p = Some hs \<and> map_of m q = Some hs' \<and> h \<in> set hs \<and> h \<in> set hs'
        \<longrightarrow> p = q)"
proof -
  have "p = q" if pq: "map_of known_map p = Some hs" "map_of known_map q = Some hs'"
    and h: "h \<in> set hs" "h \<in> set hs'" for p hs q hs' h
  proof -
    obtain d where d: "d \<in> set knownELFPlatforms" "p = platform d" "header d = Ret (Inr hs)"
      using known_map_props(2) map_of_SomeD [OF pq(1)] by fastforce
    obtain e where e: "e \<in> set knownELFPlatforms" "q = platform e" "header e = Ret (Inr hs')"
      using known_map_props(2) map_of_SomeD [OF pq(2)] by fastforce
    have "signature d = signature e"
      using header_signature [OF table_data_order [OF d(1)] d(3) h(1)]
        header_signature [OF table_data_order [OF e(1)] e(3) h(2)] by simp
    with d e table_signatures show ?thesis by (auto simp: distinct_map inj_on_def)
  qed
  then show ?thesis using known_map_props(1) by auto
qed

theorem known_headers_identify_witness:
  "\<exists>m hs hs'. getKnownELFPlatformHeaders = Ret m \<and> map_of m ''linux/ppc64'' = Some hs \<and>
     map_of m ''linux/ppc64le'' = Some hs' \<and> set hs \<inter> set hs' = {}"
proof -
  have rows: "knownELFPlatforms ! 11 \<in> set knownELFPlatforms" "knownELFPlatforms ! 12 \<in> set knownELFPlatforms"
    "platform (knownELFPlatforms ! 11) = ''linux/ppc64''" "platform (knownELFPlatforms ! 12) = ''linux/ppc64le''"
    by (simp_all add: knownELFPlatforms_def)
  obtain hs hs' where l: "map_of known_map ''linux/ppc64'' = Some hs" "map_of known_map ''linux/ppc64le'' = Some hs'"
    using known_map_lookup [OF rows(1)] known_map_lookup [OF rows(2)] unfolding rows(3,4) by blast
  have "\<forall>p hs q hs' h. map_of known_map p = Some hs \<and> map_of known_map q = Some hs' \<and>
      h \<in> set hs \<and> h \<in> set hs' \<longrightarrow> p = q"
    using known_headers_identify unfolding getKnown_eq outcome.inject by blast
  with l have "set hs \<inter> set hs' = {}" by fastforce
  with l show ?thesis by auto
qed

end
