(* ===== verification/Binfmt_Misc.thy ===== *)
theory Binfmt_Misc
  imports Elf_Headers
begin

text \<open>
  Detection of user-space emulation: \<open>emulation/binfmtmisc_linux.go\<close> (\<open>magicMatch\<close>,
  \<open>parseBinfmtMisc\<close>, \<open>registeredBinfmtMisc\<close>), its non-Linux counterpart and
  \<open>emulation/emulation.go\<close> (\<open>Registered\<close>). The binfmt_misc directory is an argument: a file
  tree in the order \<open>filepath.WalkDir\<close> reads it, with the result of every system call in it.
  The package variable \<open>globalPlatform\<close>, which is written and never read, is left out.
\<close>

section \<open>Matching a header against a registered magic\<close>

text \<open>
  The loop of \<open>magicMatch\<close> at index \<open>i\<close>: \<open>ms\<close> is what is left of \<open>magic\<close>, and the result is
  the final value of the variable \<open>mismatch\<close>.
\<close>

fun magic_loop :: "byte list \<Rightarrow> nat \<Rightarrow> byte list \<Rightarrow> nat \<Rightarrow> byte list \<Rightarrow> nat \<Rightarrow> nat" where
  "magic_loop hdr offset msk i [] mismatch = mismatch"
| "magic_loop hdr offset msk i (m0 # ms) mismatch =
     (if i \<ge> length hdr then mismatch
      else
        let m = (if length msk > i - offset then m0 AND msk ! (i - offset) else m0)
        in if hdr ! i \<noteq> m then mismatch
           else magic_loop hdr offset msk (Suc i) ms (Suc i))"

definition magicMatch :: "byte list \<Rightarrow> nat \<Rightarrow> byte list \<Rightarrow> byte list \<Rightarrow> bool" where
  "magicMatch hdr offset msk magic \<longleftrightarrow>
     magic_loop hdr offset msk offset magic 0 \<ge> offset + length magic"

section \<open>Parsing a registry entry\<close>

definition hex_val :: "char \<Rightarrow> nat option" where
  "hex_val c = (let n = of_char c :: nat in
     if 48 \<le> n \<and> n \<le> 57 then Some (n - 48)
     else if 97 \<le> n \<and> n \<le> 102 then Some (n - 87)
     else if 65 \<le> n \<and> n \<le> 70 then Some (n - 55)
     else None)"

text \<open>\<open>hex.DecodeString\<close>; an invalid digit or an odd length is an error.\<close>

fun hex_decode :: "string \<Rightarrow> byte list option" where
  "hex_decode [] = Some []"
| "hex_decode [c] = None"
| "hex_decode (c # d # cs) =
     (case (hex_val c, hex_val d, hex_decode cs) of
        (Some a, Some b, Some bs) \<Rightarrow> Some (of_nat (16 * a + b) # bs)
      | _ \<Rightarrow> None)"

type_synonym entry = "int \<times> byte list \<times> byte list"

text \<open>\<open>return -1, nil, nil, nil\<close>: the entry is to be ignored.\<close>

definition ignored :: entry where
  "ignored = (-1, [], [])"

definition bad_format :: "string \<Rightarrow> string \<Rightarrow> error" where
  "bad_format path line = Errorf ''invalid format for %q in %q'' [AStr line, AStr path]"

text \<open>After the scan: decode the two hexadecimal strings.\<close>

definition parse_finish :: "string \<Rightarrow> int \<times> string \<times> string \<Rightarrow> error + entry" where
  "parse_finish path st = (case st of (offset, magicString, maskString) \<Rightarrow>
     (if magicString = [] \<or> maskString = [] then Inr ignored
      else case hex_decode magicString of
             None \<Rightarrow> Inl (Errorf ''invalid magic %q in %q'' [AStr magicString, AStr path])
           | Some magic \<Rightarrow>
              (case hex_decode maskString of
                 None \<Rightarrow> Inl (Errorf ''invalid mask %q in %q'' [AStr maskString, AStr path])
               | Some msk \<Rightarrow> Inr (offset, magic, msk))))"

text \<open>
  One round of the scan over the variables \<open>offset\<close>, \<open>magicString\<close> and \<open>maskString\<close>: return
  from the function, or go on with new values.
\<close>

type_synonym scan_state = "int \<times> string \<times> string"

datatype line_step = Return "error + entry" | Continue scan_state | LinePanic string

text \<open>The cases of \<open>switch fields[0]\<close>.\<close>

datatype field_key = KDisabled | KEnabled | KInterpreter | KOffset | KMagic | KMask | KFlags
  | KOther

definition field_key :: "string \<Rightarrow> field_key" where
  "field_key key =
     (if key = ''disabled'' then KDisabled
      else if key = ''enabled'' then KEnabled
      else if key = ''interpreter'' then KInterpreter
      else if key = ''offset'' then KOffset
      else if key = ''magic'' then KMagic
      else if key = ''mask'' then KMask
      else if key = ''flags'' \<or> key = ''flags:'' then KFlags
      else KOther)"

definition parse_field :: "string \<Rightarrow> string \<Rightarrow> string \<Rightarrow> string list \<Rightarrow> scan_state \<Rightarrow> line_step" where
  "parse_field path line key vals st = (case st of (offset, magicString, maskString) \<Rightarrow>
     (case field_key key of
        KDisabled \<Rightarrow> Return (Inr ignored)
      | KEnabled \<Rightarrow> Continue st
      | KInterpreter \<Rightarrow> Continue st
      | KOffset \<Rightarrow>
         (case vals of
            [v] \<Rightarrow> (case parse_int 8 v of
                      None \<Rightarrow> Return (Inl (Errorf ''invalid offset %q in %q'' [AStr v, AStr path]))
                    | Some offset64 \<Rightarrow> Continue (offset64, magicString, maskString))
          | _ \<Rightarrow> Return (Inl (bad_format path line)))
      | KMagic \<Rightarrow>
         (case vals of
            [v] \<Rightarrow> Continue (offset, v, maskString)
          | _ \<Rightarrow> Return (Inl (bad_format path line)))
      | KMask \<Rightarrow>
         (case vals of
            [v] \<Rightarrow> Continue (offset, magicString, v)
          | _ \<Rightarrow> Return (Inl (bad_format path line)))
      | KFlags \<Rightarrow>
         (case vals of
            [v] \<Rightarrow> if CHR ''F'' \<in> set v then Continue st else Return (Inr ignored)
          | _ \<Rightarrow> Return (Inl (bad_format path line)))
      | KOther \<Rightarrow> Return (Inl (Errorf ''unrecognized field %q in %q'' [AStr key, AStr path]))))"

definition parse_line :: "string \<Rightarrow> string \<Rightarrow> scan_state \<Rightarrow> line_step" where
  "parse_line path line st =
     (if trim_space line = [] then Continue st
      else case str_fields line of
             [] \<Rightarrow> LinePanic ''index out of range''
           | key # vals \<Rightarrow> parse_field path line key vals st)"

fun parse_lines :: "string \<Rightarrow> string list \<Rightarrow> scan_state \<Rightarrow> (error + entry) outcome" where
  "parse_lines path [] st = Ret (parse_finish path st)"
| "parse_lines path (line # rest) st = (case parse_line path line st of
      Return r \<Rightarrow> Ret r
    | Continue st' \<Rightarrow> parse_lines path rest st'
    | LinePanic s \<Rightarrow> Panic s)"

definition parseBinfmtMisc :: "string \<Rightarrow> string \<Rightarrow> (error + entry) outcome" where
  "parseBinfmtMisc path contents = parse_lines path (scan_lines contents) (0, [], [])"

section \<open>Walking the registry\<close>

text \<open>
  What \<open>os.Open\<close> and reading give for a file: an error, or the bytes read and the error
  that ended the reading, if it was not the end of the file.
\<close>

type_synonym file_data = "error + (string \<times> error option)"

text \<open>
  A file with the result of \<open>d.Info()\<close> (whether it is regular), or a directory with the error
  of \<open>os.ReadDir\<close> and the entries it returned, sorted by name.
\<close>

datatype fs_node =
    FsFile "error + bool" file_data
  | FsDir "error option" "(string \<times> fs_node) list"

text \<open>The arguments of one call of the walk function, and what its system calls return.\<close>

record visit =
  v_path :: string
  v_base :: string
  v_info :: "(error + bool) option"
  v_err :: "error option"
  v_open :: file_data

fun walk_node :: "string \<Rightarrow> string \<Rightarrow> fs_node \<Rightarrow> visit list" where
  "walk_node path base (FsFile info data) =
     [\<lparr>v_path = path, v_base = base, v_info = Some info, v_err = None, v_open = data\<rparr>]"
| "walk_node path base (FsDir rerr kids) =
     (let d = \<lparr>v_path = path, v_base = base, v_info = Some (Inr False), v_err = None,
               v_open = Inl (ExtE ''is a directory'')\<rparr>
      in d # (case rerr of None \<Rightarrow> [] | Some e \<Rightarrow> [d\<lparr>v_err := Some e\<rparr>]) @
         concat (map (\<lambda>k. walk_node (path @ ''/'' @ fst k) (fst k) (snd k)) kids))"

text \<open>The calls \<open>filepath.WalkDir\<close> makes as long as each returns no error; a failing
  \<open>Lstat\<close> of the root calls the function once, with no directory entry.\<close>

definition WalkDir :: "string \<Rightarrow> string \<Rightarrow> error + fs_node \<Rightarrow> visit list" where
  "WalkDir root base r = (case r of
      Inl e \<Rightarrow> [\<lparr>v_path = root, v_base = base, v_info = None, v_err = Some e,
                v_open = Inl e\<rparr>]
    | Inr node \<Rightarrow> walk_node root base node)"

fun is_not_exist :: "error \<Rightarrow> bool" where
  "is_not_exist (NotExist _) = True"
| "is_not_exist (WrapE _ _ e) = is_not_exist e"
| "is_not_exist _ = False"

text \<open>The captured variables \<open>registered\<close> and \<open>globalEnabled\<close>.\<close>

type_synonym walk_state = "string list \<times> bool"

definition matching_platforms :: "(string \<times> byte list list) list \<Rightarrow> entry \<Rightarrow> string list" where
  "matching_platforms known e = (case e of (offset, magic, msk) \<Rightarrow>
     map fst (filter (\<lambda>ph. list_ex (\<lambda>h. magicMatch h (nat offset) msk magic) (snd ph)) known))"

definition read_status :: "visit \<Rightarrow> string \<times> error option \<Rightarrow> walk_state \<Rightarrow>
    walk_state \<times> error option" where
  "read_status v cont st = (case snd cont of
      Some e \<Rightarrow> (st, Some e)
    | None \<Rightarrow>
       (let status = trim_space (fst cont) in
        if status = ''disabled'' then ((fst st, False), None)
        else if status = ''enabled'' then ((fst st, True), None)
        else (st, Some (Errorf ''unrecognized binfmt_misc status value %q in %q''
                          [AStr status, AStr (v_path v)]))))"

definition read_entry :: "visit \<Rightarrow> string \<Rightarrow> walk_state \<Rightarrow> (walk_state \<times> error option) outcome" where
  "read_entry v cont st = (case parseBinfmtMisc (v_path v) cont of
      Panic s \<Rightarrow> Panic s
    | Blocked \<Rightarrow> Blocked
    | Ret (Inl e) \<Rightarrow> Ret (st, Some e)
    | Ret (Inr e) \<Rightarrow>
       if fst e < 0 then Ret (st, None)
       else (case getKnownELFPlatformHeaders of
               Ret known \<Rightarrow> Ret ((fst st @ matching_platforms known e, snd st), None)
             | Panic s \<Rightarrow> Panic s
             | Blocked \<Rightarrow> Blocked))"

text \<open>A regular file: \<open>os.Open\<close>, then the status file or a registry entry.\<close>

definition visit_regular :: "visit \<Rightarrow> walk_state \<Rightarrow> (walk_state \<times> error option) outcome" where
  "visit_regular v st = (case v_open v of
      Inl e \<Rightarrow> Ret (st, Some e)
    | Inr cont \<Rightarrow>
        if v_base v = ''status'' then Ret (read_status v cont st)
        else read_entry v (fst cont) st)"

text \<open>The walk function. A missing directory entry makes \<open>d.Info()\<close> a nil dereference.\<close>

definition visit_entry :: "visit \<Rightarrow> walk_state \<Rightarrow> (walk_state \<times> error option) outcome" where
  "visit_entry v st =
     (if v_base v = ''register'' then Ret (st, None)
      else if v_err v \<noteq> None \<and> \<not> is_not_exist (the (v_err v)) then Ret (st, v_err v)
      else case v_info v of
             None \<Rightarrow> Panic ''invalid memory address or nil pointer dereference''
           | Some (Inl e) \<Rightarrow> Ret (st, Some e)
           | Some (Inr regular) \<Rightarrow> if \<not> regular then Ret (st, None) else visit_regular v st)"

fun walk_visits :: "visit list \<Rightarrow> walk_state \<Rightarrow> (walk_state \<times> error option) outcome" where
  "walk_visits [] st = Ret (st, None)"
| "walk_visits (v # vs) st = (case visit_entry v st of
      Ret (st', None) \<Rightarrow> walk_visits vs st'
    | Ret (st', Some e) \<Rightarrow> Ret (st', Some e)
    | Panic s \<Rightarrow> Panic s
    | Blocked \<Rightarrow> Blocked)"

definition registeredBinfmtMisc :: "error + fs_node \<Rightarrow> (string list \<times> error option) outcome" where
  "registeredBinfmtMisc r =
     (case walk_visits (WalkDir ''/proc/sys/fs/binfmt_misc'' ''binfmt_misc'' r) ([], False) of
        Ret (st, err) \<Rightarrow> if \<not> snd st then Ret ([], None) else Ret (sort (fst st), err)
      | Panic s \<Rightarrow> Panic s
      | Blocked \<Rightarrow> Blocked)"

text \<open>\<open>binfmtmisc_other.go\<close>: no detection outside Linux.\<close>

definition registeredBinfmtMisc_other :: "(string list \<times> error option) outcome" where
  "registeredBinfmtMisc_other = Ret ([], None)"

text \<open>\<open>emulation.go\<close>, over the detection of the system it is built for.\<close>

definition Registered :: "(string list \<times> error option) outcome \<Rightarrow> string list outcome" where
  "Registered detect = (case detect of
      Ret (binfmt, None) \<Rightarrow> Ret ([] @ binfmt)
    | Ret (binfmt, Some err) \<Rightarrow> Ret []
    | Panic s \<Rightarrow> Panic s
    | Blocked \<Rightarrow> Blocked)"

section \<open>Laws\<close>

definition mask_at :: "byte list \<Rightarrow> nat \<Rightarrow> byte" where
  "mask_at msk j = (if j < length msk then msk ! j else -1)"

lemma magic_loop_le: "mismatch \<le> i \<Longrightarrow> magic_loop hdr offset msk i ms mismatch \<le> i + length ms"
  by (induction hdr offset msk i ms mismatch rule: magic_loop.induct) (auto simp: Let_def)

lemma magic_loop_full:
  assumes "mismatch \<le> i" and "offset \<le> i" and "ms \<noteq> []"
  shows "i + length ms \<le> magic_loop hdr offset msk i ms mismatch \<longleftrightarrow>
    i + length ms \<le> length hdr \<and>
    (\<forall>j < length ms. hdr ! (i + j) = ms ! j AND mask_at msk (i - offset + j))"
  using assms
proof (induction hdr offset msk i ms mismatch rule: magic_loop.induct)
  case (2 hdr offset msk i m0 ms mismatch)
  let ?m = "m0 AND mask_at msk (i - offset)"
  have m: "(if length msk > i - offset then m0 AND msk ! (i - offset) else m0) = ?m"
    by (simp add: mask_at_def)
  show ?case
  proof (cases "i < length hdr \<and> hdr ! i = ?m")
    case True
    have step: "magic_loop hdr offset msk i (m0 # ms) mismatch =
        magic_loop hdr offset msk (Suc i) ms (Suc i)"
      using True by (simp add: Let_def m)
    have all: "(\<forall>j < length (m0 # ms). hdr ! (i + j) = (m0 # ms) ! j AND mask_at msk (i - offset + j))
        \<longleftrightarrow> (\<forall>j < length ms. hdr ! (Suc i + j) = ms ! j AND mask_at msk (Suc i - offset + j))"
      using True "2.prems"(2) by (auto simp: less_Suc_eq_0_disj Suc_diff_le)
    show ?thesis
    proof (cases "ms = []")
      case True
      with \<open>i < length hdr \<and> hdr ! i = ?m\<close> step show ?thesis by simp
    next
      case False
      have "Suc i + length ms \<le> magic_loop hdr offset msk (Suc i) ms (Suc i) \<longleftrightarrow>
          Suc i + length ms \<le> length hdr \<and>
          (\<forall>j < length ms. hdr ! (Suc i + j) = ms ! j AND mask_at msk (Suc i - offset + j))"
        using "2.IH" [OF _ refl] True "2.prems" False by (simp add: m)
      with step all show ?thesis by simp
    qed
  next
    case False
    then have "magic_loop hdr offset msk i (m0 # ms) mismatch = mismatch"
      by (auto simp: Let_def m)
    with False "2.prems" show ?thesis by (auto intro!: exI [of _ 0])
  qed
qed simp

text \<open>
  \<open>magicMatch\<close>, characterised: an empty magic matches at offset 0 only; any other magic matches
  when it lies inside the header and each header byte equals the masked magic byte (a mask that
  is too short does not mask).
\<close>

lemma magicMatch_iff:
  "magicMatch hdr offset msk magic \<longleftrightarrow>
     (if magic = [] then offset = 0
      else offset + length magic \<le> length hdr \<and>
        (\<forall>j < length magic. hdr ! (offset + j) = magic ! j AND mask_at msk j))"
proof (cases "magic = []")
  case False
  then show ?thesis
    using magic_loop_full [of 0 offset offset magic hdr msk] by (simp add: magicMatch_def)
qed (simp add: magicMatch_def)

text \<open>The rule of binfmt_misc: the header, masked, equals the magic, masked.\<close>

definition binfmt_rule :: "byte list \<Rightarrow> nat \<Rightarrow> byte list \<Rightarrow> byte list \<Rightarrow> bool" where
  "binfmt_rule hdr offset msk magic \<longleftrightarrow>
     offset + length magic \<le> length hdr \<and>
     (\<forall>j < length magic. hdr ! (offset + j) AND mask_at msk j = magic ! j AND mask_at msk j)"

lemma eq_and_iff: "h = m AND k \<longleftrightarrow> h AND k = m AND k \<and> h AND NOT k = 0"
  for h m k :: "'a::len word"
proof
  assume "h = m AND k"
  then show "h AND k = m AND k \<and> h AND NOT k = 0"
    by (auto intro!: bit_word_eqI simp: bit_simps)
next
  assume a: "h AND k = m AND k \<and> h AND NOT k = 0"
  have "h = (h AND k) OR (h AND NOT k)"
    by (rule bit_word_eqI) (auto simp: bit_simps)
  with a show "h = m AND k" by simp
qed

text \<open>
  C38. \<open>magicMatch\<close> is the binfmt_misc rule restricted to headers whose masked-out bits are
  zero: it never reports a platform the kernel would not match, and it may miss one.
\<close>

theorem magicMatch_vs_rule:
  assumes "magic \<noteq> []"
  shows "magicMatch hdr offset msk magic \<longleftrightarrow>
    binfmt_rule hdr offset msk magic \<and>
    (\<forall>j < length magic. hdr ! (offset + j) AND NOT (mask_at msk j) = 0)"
proof -
  have byte: "hdr ! (offset + j) = magic ! j AND mask_at msk j \<longleftrightarrow>
      hdr ! (offset + j) AND mask_at msk j = magic ! j AND mask_at msk j \<and>
      hdr ! (offset + j) AND NOT (mask_at msk j) = 0" for j
    by (rule eq_and_iff)
  show ?thesis
    using assms by (auto simp: magicMatch_iff binfmt_rule_def dest: byte [THEN iffD1]
        intro: byte [THEN iffD2])
qed

theorem magicMatch_vs_rule_witness:
  "[0x45 :: byte] \<noteq> [] \<and> magicMatch [0x7f, 0x45] 1 [0xff] [0x45]"
  using magicMatch_vs_rule [of "[0x45]" "[0x7f, 0x45]" 1 "[0xff]"]
  by (simp add: binfmt_rule_def mask_at_def)

section \<open>Parsing\<close>

lemma parse_line_no_panic: "parse_line path line st \<noteq> LinePanic s"
proof (cases "trim_space line = []")
  case False
  then obtain key vals where "str_fields line = key # vals"
    using str_fields_nonblank by (cases "str_fields line") auto
  then show ?thesis
    by (cases st; cases "field_key key")
       (auto simp: parse_line_def parse_field_def split: if_splits list.splits option.splits)
qed (simp add: parse_line_def)

definition scan_ok :: "scan_state \<Rightarrow> bool" where
  "scan_ok st \<longleftrightarrow> -128 \<le> fst st \<and> fst st \<le> 127"

definition entry_ok :: "entry \<Rightarrow> bool" where
  "entry_ok e \<longleftrightarrow> -128 \<le> fst e \<and> fst e \<le> 127 \<and> (e = ignored \<or> fst (snd e) \<noteq> [] \<and> snd (snd e) \<noteq> [])"

lemma ignored_ok [simp]: "entry_ok ignored"
  by (simp add: entry_ok_def ignored_def)

lemma parse_field_Continue:
  "parse_field path line key vals st = Continue st' \<Longrightarrow>
     fst st' = fst st \<or> (\<exists>v. parse_int 8 v = Some (fst st'))"
  by (cases st; cases "field_key key")
     (auto simp: parse_field_def split: if_splits list.splits option.splits)

lemma parse_field_Return: "parse_field path line key vals st = Return (Inr e) \<Longrightarrow> e = ignored"
  by (cases st; cases "field_key key")
     (auto simp: parse_field_def split: if_splits list.splits option.splits)

lemma parse_line_Continue:
  assumes "scan_ok st" and "parse_line path line st = Continue st'"
  shows "scan_ok st'"
proof -
  have "fst st' = fst st \<or> (\<exists>v. parse_int 8 v = Some (fst st'))"
    using assms(2) by (auto simp: parse_line_def dest: parse_field_Continue split: if_splits list.splits)
  with assms(1) show ?thesis using parse_int_range [of 8] by (fastforce simp: scan_ok_def)
qed

lemma parse_line_Return: "parse_line path line st = Return (Inr e) \<Longrightarrow> entry_ok e"
  by (auto simp: parse_line_def dest: parse_field_Return split: if_splits list.splits)

lemma hex_decode_length: "hex_decode s = Some bs \<Longrightarrow> length s = 2 * length bs"
  by (induction s arbitrary: bs rule: hex_decode.induct) (auto split: prod.splits option.splits)

lemma parse_finish_ok: "scan_ok st \<Longrightarrow> parse_finish path st = Inr e \<Longrightarrow> entry_ok e"
  by (auto simp: parse_finish_def scan_ok_def entry_ok_def ignored_def
      dest!: hex_decode_length split: prod.splits option.splits if_splits)

lemma parse_lines_ok:
  "scan_ok st \<Longrightarrow> \<exists>r. parse_lines path ls st = Ret r \<and> (\<forall>e. r = Inr e \<longrightarrow> entry_ok e)"
proof (induction path ls st rule: parse_lines.induct)
  case (1 path st)
  then show ?case using parse_finish_ok by auto
next
  case (2 path line rest st)
  then show ?case
    using parse_line_no_panic [of path line st] parse_line_Return [of path line st]
      parse_line_Continue [OF "2.prems", of path line]
    by (cases "parse_line path line st") auto
qed

text \<open>
  C36. \<open>parseBinfmtMisc\<close> returns on every input: no index is out of range, whatever the file
  holds. An entry it returns has an offset that fits 8 bits, and unless the entry is to be
  ignored its magic and its mask are not empty.
\<close>

theorem parseBinfmtMisc_total:
  "\<exists>r. parseBinfmtMisc path contents = Ret r \<and> (\<forall>e. r = Inr e \<longrightarrow> entry_ok e)"
  unfolding parseBinfmtMisc_def by (rule parse_lines_ok) (simp add: scan_ok_def)

theorem parseBinfmtMisc_total_witness:
  "\<exists>r. parseBinfmtMisc ''p'' ''enabled'' = Ret r \<and> (\<forall>e. r = Inr e \<longrightarrow> entry_ok e)"
  by (rule parseBinfmtMisc_total)

subsection \<open>Round trip with the text the kernel prints\<close>

definition hex_digit :: "nat \<Rightarrow> char" where
  "hex_digit n = char_of (if n < 10 then 48 + n else 87 + n)"

definition hex_encode :: "byte list \<Rightarrow> string" where
  "hex_encode bs = concat (map (\<lambda>b. [hex_digit (unat b div 16), hex_digit (unat b mod 16)]) bs)"

fun nat_digits :: "nat \<Rightarrow> string" where
  "nat_digits n = (if n < 10 then [char_of (48 + n)]
     else nat_digits (n div 10) @ [char_of (48 + n mod 10)])"

declare nat_digits.simps [simp del]

definition kernel_text :: "string \<Rightarrow> string \<Rightarrow> nat \<Rightarrow> byte list \<Rightarrow> byte list \<Rightarrow> string" where
  "kernel_text interp flags offset magic msk = concat (map (\<lambda>l. l @ [CHR 0x0A])
     [''enabled'', ''interpreter '' @ interp, ''flags: '' @ flags, ''offset '' @ nat_digits offset,
      ''magic '' @ hex_encode magic, ''mask '' @ hex_encode msk])"

lemma unat_byte: "unat (b :: byte) < 256"
  using unsigned_less [of b] by simp

lemma hex_val_hex_digit: "n < 16 \<Longrightarrow> hex_val (hex_digit n) = Some n"
  by (auto simp: hex_val_def hex_digit_def Let_def)

lemma hex_decode_encode [simp]: "hex_decode (hex_encode bs) = Some bs"
proof (induction bs)
  case (Cons b bs)
  have "unat b div 16 < 16" "unat b mod 16 < 16" using unat_byte [of b] by simp_all
  moreover have "(of_nat (16 * (unat b div 16) + unat b mod 16) :: byte) = b" by simp
  ultimately show ?case using Cons by (simp add: hex_encode_def hex_val_hex_digit)
qed (simp add: hex_encode_def)

lemma parse_digits_append:
  "parse_digits acc (xs @ ys) =
     (case parse_digits acc xs of None \<Rightarrow> None | Some a \<Rightarrow> parse_digits a ys)"
  by (induction acc xs rule: parse_digits.induct) (auto split: option.splits)

lemma digit_val_digit: "d < 10 \<Longrightarrow> digit_val (char_of (48 + d)) = Some d"
  by (simp add: digit_val_def Let_def)

lemma parse_digits_nat_digits: "parse_digits 0 (nat_digits n) = Some n"
proof (induction n rule: nat_digits.induct)
  case (1 n)
  show ?case
  proof (cases "n < 10")
    case True
    then show ?thesis by (simp add: nat_digits.simps [of n] digit_val_digit)
  next
    case False
    with 1 show ?thesis
      by (simp add: nat_digits.simps [of n] parse_digits_append digit_val_digit)
  qed
qed

text \<open>The characters of a printed number or hexadecimal string.\<close>

definition word_char :: "char \<Rightarrow> bool" where
  "word_char c \<longleftrightarrow> (let n = of_char c :: nat in 48 \<le> n \<and> n \<le> 102)"

lemma word_char_not: "word_char c \<Longrightarrow> \<not> is_space c \<and> c \<noteq> CHR 0x0A \<and> c \<noteq> CHR 0x0D \<and> c \<noteq> CHR ''-'' \<and> c \<noteq> CHR ''+''"
  by (auto simp: word_char_def is_space_def Let_def)

lemma hex_encode_chars: "c \<in> set (hex_encode bs) \<Longrightarrow> word_char c"
proof -
  have "word_char (hex_digit n)" if "n < 16" for n
    using that by (auto simp: word_char_def hex_digit_def Let_def)
  then show "c \<in> set (hex_encode bs) \<Longrightarrow> word_char c"
    using unat_byte by (auto simp: hex_encode_def less_mult_imp_div_less)
qed

lemma nat_digits_chars: "c \<in> set (nat_digits n) \<Longrightarrow> word_char c"
proof (induction n rule: nat_digits.induct)
  case (1 n)
  have d: "word_char (char_of (48 + d))" if "d < 10" for d :: nat
    using that by (simp add: word_char_def Let_def)
  show ?case
  proof (cases "n < 10")
    case True
    with "1.prems" d show ?thesis by (simp add: nat_digits.simps [of n])
  next
    case False
    with 1 d [of "n mod 10"] show ?thesis by (auto simp: nat_digits.simps [of n])
  qed
qed

lemma nat_digits_ne: "nat_digits n \<noteq> []"
  by (simp add: nat_digits.simps [of n])

lemma parse_int_nat_digits: "n < 128 \<Longrightarrow> parse_int 8 (nat_digits n) = Some (int n)"
proof -
  assume "n < 128"
  obtain c cs where d: "nat_digits n = c # cs" using nat_digits_ne by (cases "nat_digits n") auto
  then have "word_char c" using nat_digits_chars [of c n] by simp
  then have "c \<noteq> CHR ''-''" "c \<noteq> CHR ''+''" using word_char_not by blast+
  with d \<open>n < 128\<close> show ?thesis
    using parse_digits_nat_digits [of n] by (simp add: parse_int_def parse_uint_def)
qed

lemma str_fields_acc_word:
  "\<forall>c\<in>set w. \<not> is_space c \<Longrightarrow> str_fields_acc cur (w @ s) = str_fields_acc (rev w @ cur) s"
  by (induction w arbitrary: cur) auto

lemma str_fields_word: "w \<noteq> [] \<Longrightarrow> \<forall>c\<in>set w. \<not> is_space c \<Longrightarrow> str_fields w = [w]"
  using str_fields_acc_word [of w "[]" "[]"] by (simp add: str_fields_def)

lemma str_fields_Cons:
  "w \<noteq> [] \<Longrightarrow> \<forall>c\<in>set w. \<not> is_space c \<Longrightarrow> str_fields (w @ CHR '' '' # s) = w # str_fields s"
  using str_fields_acc_word [of w "[]" "CHR '' '' # s"]
  by (simp add: str_fields_def is_space_def)

lemma raw_lines_concat:
  "\<forall>l\<in>set ls. CHR 0x0A \<notin> set l \<Longrightarrow> raw_lines (concat (map (\<lambda>l. l @ [CHR 0x0A]) ls)) = ls"
proof -
  assume "\<forall>l\<in>set ls. CHR 0x0A \<notin> set l"
  then have "str_split (CHR 0x0A) (concat (map (\<lambda>l. l @ [CHR 0x0A]) ls)) = ls @ [[]]"
    by (induction ls) (auto simp: str_split_append)
  then show ?thesis by (simp add: raw_lines_def)
qed

lemma parse_line_word:
  assumes "key \<noteq> []" and "\<forall>c\<in>set key. \<not> is_space c"
  shows "parse_line path (key @ CHR '' '' # s) st =
    parse_field path (key @ CHR '' '' # s) key (str_fields s) st"
proof -
  have "trim_space (key @ CHR '' '' # s) \<noteq> []"
    using assms by (auto simp: trim_space_Nil_iff neq_Nil_conv)
  with assms show ?thesis by (simp add: parse_line_def str_fields_Cons)
qed

lemma drop_cr_id: "\<forall>c\<in>set w. c \<noteq> CHR 0x0D \<Longrightarrow> drop_cr (u @ CHR '' '' # w) = u @ CHR '' '' # w"
  by (cases w rule: rev_cases) (auto simp: drop_cr_def)

lemma drop_cr_interpreter: "\<exists>x. drop_cr (u @ CHR '' '' # w) = u @ CHR '' '' # x"
  by (cases w rule: rev_cases) (auto simp: drop_cr_def butlast_append)

lemma length_nat_digits: "n < 128 \<Longrightarrow> length (nat_digits n) \<le> 3"
  by (simp add: nat_digits.simps [of n] nat_digits.simps [of "n div 10"]
      nat_digits.simps [of "n div 10 div 10"])

lemma length_hex_encode [simp]: "length (hex_encode bs) = 2 * length bs"
  by (induction bs) (auto simp: hex_encode_def)

text \<open>Lines that the scanner returns as they are, or without a final carriage return.\<close>

definition kernel_lines :: "string \<Rightarrow> string \<Rightarrow> nat \<Rightarrow> byte list \<Rightarrow> byte list \<Rightarrow> string list" where
  "kernel_lines interp flags offset magic msk =
     [''enabled'', ''interpreter'' @ CHR '' '' # interp, ''flags:'' @ CHR '' '' # flags,
      ''offset'' @ CHR '' '' # nat_digits offset, ''magic'' @ CHR '' '' # hex_encode magic,
      ''mask'' @ CHR '' '' # hex_encode msk]"

lemma word_field: "w \<noteq> [] \<Longrightarrow> \<forall>c\<in>set w. word_char c \<Longrightarrow> str_fields w = [w] \<and> (\<forall>c\<in>set w. c \<noteq> CHR 0x0D)"
  using word_char_not by (auto intro!: str_fields_word)

lemma hex_encode_ne: "bs \<noteq> [] \<Longrightarrow> hex_encode bs \<noteq> []"
  by (cases bs) (auto simp: hex_encode_def)

lemma parse_key_value:
  assumes "k \<noteq> []" "\<forall>c\<in>set k. \<not> is_space c" "str_fields w = [w]" "\<forall>c\<in>set w. c \<noteq> CHR 0x0D"
  shows "parse_line path (drop_cr (k @ CHR '' '' # w)) st = parse_field path (k @ CHR '' '' # w) k [w] st"
  using assms by (simp add: drop_cr_id parse_line_word)

lemma parse_hex_lines:
  assumes "bs \<noteq> []"
  shows "parse_line path (drop_cr (''magic'' @ CHR '' '' # hex_encode bs)) (n, b, c) = Continue (n, hex_encode bs, c)"
    "parse_line path (drop_cr (''mask'' @ CHR '' '' # hex_encode bs)) (n, b, c) = Continue (n, b, hex_encode bs)"
proof -
  note word = word_field [OF hex_encode_ne [OF assms] ballI [OF hex_encode_chars]]
  show "parse_line path (drop_cr (''magic'' @ CHR '' '' # hex_encode bs)) (n, b, c) = Continue (n, hex_encode bs, c)"
    by (subst parse_key_value) (use word in \<open>auto simp: is_space_def parse_field_def field_key_def\<close>)
  show "parse_line path (drop_cr (''mask'' @ CHR '' '' # hex_encode bs)) (n, b, c) = Continue (n, b, hex_encode bs)"
    by (subst parse_key_value) (use word in \<open>auto simp: is_space_def parse_field_def field_key_def\<close>)
qed

lemma parse_offset_line:
  assumes "offset < 128"
  shows "parse_line path (drop_cr (''offset'' @ CHR '' '' # nat_digits offset)) (n, b, c) = Continue (int offset, b, c)"
  by (subst parse_key_value)
     (use word_field [OF nat_digits_ne ballI [OF nat_digits_chars]] assms in
       \<open>auto simp: is_space_def parse_field_def field_key_def parse_int_nat_digits\<close>)

text \<open>The lines that the parser reads without effect.\<close>

lemma parse_other_lines:
  assumes "CHR ''F'' \<in> set flags" "\<forall>c\<in>set flags. \<not> is_space c"
  shows "parse_line path (drop_cr ''enabled'') st = Continue st"
    "parse_line path (drop_cr (''interpreter'' @ CHR '' '' # interp)) st = Continue st"
    "parse_line path (drop_cr (''flags:'' @ CHR '' '' # flags)) st = Continue st"
proof -
  show "parse_line path (drop_cr ''enabled'') st = Continue st"
    by (cases st) (simp add: parse_line_def drop_cr_def trim_space_def str_fields_def is_space_def
        parse_field_def field_key_def)
  obtain x where x: "drop_cr (''interpreter'' @ CHR '' '' # interp) = ''interpreter'' @ CHR '' '' # x"
    using drop_cr_interpreter by blast
  show "parse_line path (drop_cr (''interpreter'' @ CHR '' '' # interp)) st = Continue st"
    unfolding x
    by (subst parse_line_word, simp, simp add: is_space_def, cases st, simp add: parse_field_def field_key_def)
  have "str_fields flags = [flags]" using assms by (intro str_fields_word) auto
  moreover have "\<forall>c\<in>set flags. c \<noteq> CHR 0x0D" using assms(2) by (auto simp: is_space_def)
  ultimately show "parse_line path (drop_cr (''flags:'' @ CHR '' '' # flags)) st = Continue st"
    by (subst parse_key_value) (simp_all add: is_space_def, cases st, simp add: parse_field_def field_key_def assms)
qed

lemma parse_kernel_lines:
  assumes "CHR ''F'' \<in> set flags" "\<forall>c\<in>set flags. \<not> is_space c"
    and off: "offset < 128" and ne: "magic \<noteq> []" "msk \<noteq> []"
  shows "parse_lines path (map drop_cr (kernel_lines interp flags offset magic msk)) (0, [], [])
    = Ret (Inr (int offset, magic, msk))"
  unfolding kernel_lines_def list.map parse_lines.simps parse_other_lines [OF assms(1,2)]
    parse_offset_line [OF off] parse_hex_lines(1) [OF ne(1)] parse_hex_lines(2) [OF ne(2)] line_step.case
  using ne hex_encode_ne by (simp add: parse_finish_def)

lemma scan_kernel_text:
  assumes "CHR 0x0A \<notin> set interp" "length interp < 65000"
    and "\<forall>c\<in>set flags. \<not> is_space c" "length flags < 65000"
    and "offset < 128" "length magic < 32000" "length msk < 32000"
  shows "scan_lines (kernel_text interp flags offset magic msk) =
    map drop_cr (kernel_lines interp flags offset magic msk)"
proof -
  have eq: "kernel_text interp flags offset magic msk =
      concat (map (\<lambda>l. l @ [CHR 0x0A]) (kernel_lines interp flags offset magic msk))"
    by (simp add: kernel_text_def kernel_lines_def)
  have nl: "CHR 0x0A \<notin> set w" if "\<forall>c\<in>set w. word_char c" for w
    using that word_char_not by blast
  have "CHR 0x0A \<notin> set flags" using assms(3) by (auto simp: is_space_def)
  with assms(1) have raw: "raw_lines (kernel_text interp flags offset magic msk) =
      kernel_lines interp flags offset magic msk"
    unfolding eq using nl [of "nat_digits offset"] nl [of "hex_encode magic"] nl [of "hex_encode msk"]
    by (intro raw_lines_concat) (auto simp: kernel_lines_def dest: nat_digits_chars hex_encode_chars)
  have "\<forall>l\<in>set (kernel_lines interp flags offset magic msk). length l < max_scan_token_size"
    using assms length_nat_digits [of offset]
    by (auto simp: kernel_lines_def max_scan_token_size_def)
  then show ?thesis by (simp add: scan_lines_def raw takeWhile_eq_all_conv [THEN iffD2])
qed



section \<open>Walking\<close>

text \<open>A visited file is a registry entry that matches a header of platform \<open>p\<close>.\<close>

definition entry_matches :: "visit \<Rightarrow> string \<Rightarrow> bool" where
  "entry_matches v p \<longleftrightarrow>
     v_base v \<noteq> ''register'' \<and> v_base v \<noteq> ''status'' \<and> v_info v = Some (Inr True) \<and>
     (\<exists>c r e. v_open v = Inr (c, r) \<and> parseBinfmtMisc (v_path v) c = Ret (Inr e) \<and> 0 \<le> fst e \<and>
        p \<in> set (matching_platforms known_map e))"

lemma visit_entry_registered:
  assumes "visit_entry v st = Ret (st', err)"
  shows "set (fst st') \<subseteq> set (fst st) \<union> {p. entry_matches v p}"
    and "err = None \<Longrightarrow> v_err v = None \<Longrightarrow> set (fst st') = set (fst st) \<union> {p. entry_matches v p}"
  using assms
  by (auto simp: visit_entry_def visit_regular_def read_status_def read_entry_def entry_matches_def
      Let_def split: if_splits option.splits sum.splits prod.splits outcome.splits)

lemma walk_visits_registered:
  assumes "walk_visits vs st = Ret (st', err)"
  shows "set (fst st') \<subseteq> set (fst st) \<union> {p. \<exists>v\<in>set vs. entry_matches v p}"
  using assms
proof (induction vs arbitrary: st)
  case (Cons v vs)
  then obtain st1 err1 where v: "visit_entry v st = Ret (st1, err1)"
    by (cases "visit_entry v st") auto
  show ?case
  proof (cases err1)
    case None
    with Cons.prems v have "walk_visits vs st1 = Ret (st', err)" by simp
    then show ?thesis using Cons.IH visit_entry_registered(1) [OF v] by fastforce
  next
    case (Some e)
    with Cons.prems v show ?thesis using visit_entry_registered(1) [OF v] by auto
  qed
qed simp

lemma walk_visits_complete:
  assumes "walk_visits vs st = Ret (st', None)" and "\<forall>v\<in>set vs. v_err v = None"
  shows "set (fst st') = set (fst st) \<union> {p. \<exists>v\<in>set vs. entry_matches v p}"
  using assms
proof (induction vs arbitrary: st)
  case (Cons v vs)
  then obtain st1 where v: "visit_entry v st = Ret (st1, None)" and "walk_visits vs st1 = Ret (st', None)"
    by (auto split: outcome.splits option.splits prod.splits)
  then have "set (fst st') = set (fst st1) \<union> {p. \<exists>v\<in>set vs. entry_matches v p}"
    using Cons by simp
  with visit_entry_registered(2) [OF v] Cons.prems(2) show ?case by auto
qed simp

lemma visit_entry_enabled:
  assumes "visit_entry v st = Ret (st', err)" and "v_base v \<noteq> ''status''"
  shows "snd st' = snd st"
  using assms
  by (auto simp: visit_entry_def visit_regular_def read_entry_def
      split: if_splits option.splits sum.splits prod.splits outcome.splits)

lemma walk_visits_enabled:
  "walk_visits vs st = Ret (st', err) \<Longrightarrow> \<forall>v\<in>set vs. v_base v \<noteq> ''status'' \<Longrightarrow> snd st' = snd st"
proof (induction vs arbitrary: st)
  case (Cons v vs)
  then show ?case
    by (fastforce dest: visit_entry_enabled split: outcome.splits option.splits prod.splits)
qed simp

text \<open>The visits of the registry when its root directory can be read.\<close>

abbreviation registry_visits :: "error + fs_node \<Rightarrow> visit list" where
  "registry_visits r \<equiv> WalkDir ''/proc/sys/fs/binfmt_misc'' ''binfmt_misc'' r"

lemma registered_justified:
  assumes "registeredBinfmtMisc r = Ret (reg, err)" and "p \<in> set reg"
  shows "\<exists>v\<in>set (registry_visits r). entry_matches v p"
proof -
  obtain st where w: "walk_visits (registry_visits r) ([], False) = Ret st"
    using assms(1) by (cases "walk_visits (registry_visits r) ([], False)") (auto simp: registeredBinfmtMisc_def)
  with assms have "p \<in> set (fst (fst st))" by (auto simp: registeredBinfmtMisc_def split: prod.splits if_splits)
  with walk_visits_registered [of _ _ "fst st" "snd st"] w show ?thesis by fastforce
qed

text \<open>
  C34. The platforms \<open>registeredBinfmtMisc\<close> reports are sorted, and each is justified by a
  regular file of the registry that parses to an active entry matching one of that platform's
  known headers. When the walk meets no error and emulation is enabled, they are exactly those.
\<close>

theorem registered_correct:
  assumes "registeredBinfmtMisc r = Ret (reg, err)"
  shows "sorted reg \<and>
    (\<forall>p\<in>set reg. \<exists>v\<in>set (registry_visits r). entry_matches v p) \<and>
    (\<forall>rs. walk_visits (registry_visits r) ([], False) = Ret ((rs, True), None) \<and>
       (\<forall>v\<in>set (registry_visits r). v_err v = None) \<longrightarrow>
       err = None \<and> set reg = {p. \<exists>v\<in>set (registry_visits r). entry_matches v p})"
proof -
  obtain st where w: "walk_visits (registry_visits r) ([], False) = Ret st"
    using assms by (cases "walk_visits (registry_visits r) ([], False)")
      (auto simp: registeredBinfmtMisc_def)
  with assms have reg: "(reg, err) = (if \<not> snd (fst st) then ([], None) else (sort (fst (fst st)), snd st))"
    by (auto simp: registeredBinfmtMisc_def split: prod.splits if_splits)
  then have "sorted reg" by (auto split: if_splits)
  moreover have "\<forall>p\<in>set reg. \<exists>v\<in>set (registry_visits r). entry_matches v p"
    using registered_justified [OF assms] by blast
  moreover have "err = None \<and> set reg = {p. \<exists>v\<in>set (registry_visits r). entry_matches v p}"
    if "walk_visits (registry_visits r) ([], False) = Ret ((rs, True), None)"
      and "\<forall>v\<in>set (registry_visits r). v_err v = None" for rs
    using that reg w walk_visits_complete by fastforce
  ultimately show ?thesis by blast
qed

lemma matching_platformsI:
  assumes "e \<in> set knownELFPlatforms" and "header e = Ret (Inr hs)"
    and "list_ex (\<lambda>h. magicMatch h (nat off) msk magic) hs"
  shows "platform e \<in> set (matching_platforms known_map (off, magic, msk))"
proof -
  have "(platform e, hs) \<in> set known_map"
    using known_map_lookup [OF assms(1)] assms(2) by (auto dest: map_of_SomeD)
  with assms(3) show ?thesis by (force simp: matching_platforms_def)
qed

text \<open>A registry with one emulator, the file \<open>register\<close> that cannot be read, and the status.\<close>

definition arm64_magic :: "byte list" where
  "arm64_magic = [0x7f, 0x45, 0x4c, 0x46, 2, 1, 1, 0, 0, 0, 0, 0, 0, 0, 0, 0, 2, 0, 0xb7, 0]"

definition arm64_mask :: "byte list" where
  "arm64_mask = [0xff, 0xff, 0xff, 0xff, 0xff, 0xff, 0xff, 0, 0xff, 0xff, 0xff, 0xff, 0xff, 0xff,
     0xff, 0xff, 0xfe, 0xff, 0xff, 0xff]"

definition sample_registry :: "error + fs_node" where
  "sample_registry = Inr (FsDir None
     [(''qemu-aarch64'', FsFile (Inr True)
         (Inr (kernel_text ''/usr/bin/qemu-aarch64-static'' ''F'' 0 arm64_magic arm64_mask, None))),
      (''register'', FsFile (Inr True) (Inl (ExtE ''permission denied''))),
      (''status'', FsFile (Inr True) (Inr (''enabled'' @ [CHR 0x0A], None)))])"

lemma arm64_entry [simp]:
  "length arm64_magic = 20" "length arm64_mask = 20" "arm64_magic \<noteq> []" "arm64_mask \<noteq> []"
  by (simp_all add: arm64_magic_def arm64_mask_def)

lemma parse_sample:
  "parseBinfmtMisc p (kernel_text ''/usr/bin/qemu-aarch64-static'' ''F'' 0 arm64_magic arm64_mask)
     = Ret (Inr (0, arm64_magic, arm64_mask))"
  by (simp add: parseBinfmtMisc_def scan_kernel_text parse_kernel_lines is_space_def)

lemma sample_matches:
  "''linux/arm64'' \<in> set (matching_platforms known_map (0, arm64_magic, arm64_mask))"
proof -
  have "\<exists>hs. header (knownELFPlatforms ! 3) = Ret (Inr hs) \<and>
      list_ex (\<lambda>h. magicMatch h (nat 0) arm64_mask arm64_magic) hs"
    by (simp add: elf_eval magicMatch_def arm64_magic_def arm64_mask_def)
  moreover have "knownELFPlatforms ! 3 \<in> set knownELFPlatforms"
    by (simp add: knownELFPlatforms_def)
  ultimately have "platform (knownELFPlatforms ! 3) \<in>
      set (matching_platforms known_map (0, arm64_magic, arm64_mask))"
    using matching_platformsI by blast
  then show ?thesis by (simp add: knownELFPlatforms_def)
qed

lemmas walk_eval = registeredBinfmtMisc_def WalkDir_def Let_def visit_entry_def visit_regular_def
  read_entry_def read_status_def trim_space_def is_space_def

lemma sample_registered:
  "registeredBinfmtMisc sample_registry =
     Ret (sort (matching_platforms known_map (0, arm64_magic, arm64_mask)), None)"
  by (simp add: sample_registry_def walk_eval parse_sample)

theorem registered_correct_witness:
  "\<exists>reg. registeredBinfmtMisc sample_registry = Ret (reg, None) \<and> ''linux/arm64'' \<in> set reg \<and>
     sorted reg \<and> (\<forall>p\<in>set reg. \<exists>v\<in>set (registry_visits sample_registry). entry_matches v p)"
  using registered_correct [OF sample_registered] sample_registered sample_matches by auto

section \<open>The vectors of the repository's test\<close>

text \<open>
  \<open>TestParseBinfmtMisc\<close>: the text of a vector, and its assertion (the entry parses, is not
  disabled and matches a header of its platform).
\<close>

definition test_text :: "string \<Rightarrow> string \<Rightarrow> string \<Rightarrow> string" where
  "test_text interp magicString maskString =
     concat (map (\<lambda>l. [CHR 0x0A, CHR 0x09, CHR 0x09, CHR 0x09] @ l)
       [''enabled'', ''interpreter /usr/bin/'' @ interp, ''flags: F'', ''offset 0'',
        ''magic '' @ magicString, ''mask  '' @ maskString, []])"

definition vector_ok :: "string \<Rightarrow> string \<Rightarrow> string \<Rightarrow> string \<Rightarrow> bool" where
  "vector_ok p interp magicString maskString \<longleftrightarrow>
     (case parseBinfmtMisc ''test vector'' (test_text interp magicString maskString) of
        Ret (Inr (offset, magic, msk)) \<Rightarrow>
          0 \<le> offset \<and> (case map_of known_map p of
             Some headers \<Rightarrow> list_ex (\<lambda>h. magicMatch h (nat offset) msk magic) headers
           | None \<Rightarrow> False)
      | _ \<Rightarrow> False)"

lemma vector_okI:
  assumes "e \<in> set knownELFPlatforms"
    and "parseBinfmtMisc ''test vector'' (test_text interp mg mk) = Ret (Inr (0, magic, msk))"
    and "\<exists>hs. header e = Ret (Inr hs) \<and> list_ex (\<lambda>h. magicMatch h 0 msk magic) hs"
  shows "vector_ok (platform e) interp mg mk"
  using known_map_lookup [OF assms(1)] assms(2,3) by (auto simp: vector_ok_def)

lemmas parse_eval = parseBinfmtMisc_def parse_line_def parse_field_def field_key_def
  parse_finish_def scan_lines_def raw_lines_def test_text_def max_scan_token_size_def drop_cr_def
  str_fields_def is_space_def trim_space_def hex_val_def parse_int_def parse_uint_def
  digit_val_def Let_def

lemma vector_386:
  "vector_ok (platform (knownELFPlatforms ! 0)) ''qemu-i386-static''
     ''7f454c4601010100000000000000000002000300'' ''fffffffffffefe00fffffffffffffffffeffffff''"
  by (rule vector_okI [where magic = "[0x7f, 0x45, 0x4c, 0x46, 1, 1, 1, 0, 0, 0, 0, 0, 0, 0, 0, 0, 2, 0, 3, 0]"
        and msk = "[255, 255, 255, 255, 255, 254, 254, 0, 255, 255, 255, 255, 255, 255, 255, 255, 254, 255, 255, 255]"])
     (simp add: knownELFPlatforms_def, simp add: parse_eval, simp add: elf_eval magicMatch_def)

lemma vector_amd64:
  "vector_ok (platform (knownELFPlatforms ! 1)) ''qemu-x86_64-static''
     ''7f454c4602010100000000000000000002003e00'' ''fffffffffffefe00fffffffffffffffffeffffff''"
  by (rule vector_okI [where magic = "[0x7f, 0x45, 0x4c, 0x46, 2, 1, 1, 0, 0, 0, 0, 0, 0, 0, 0, 0, 2, 0, 0x3e, 0]"
        and msk = "[255, 255, 255, 255, 255, 254, 254, 0, 255, 255, 255, 255, 255, 255, 255, 255, 254, 255, 255, 255]"])
     (simp add: knownELFPlatforms_def, simp add: parse_eval, simp add: elf_eval magicMatch_def)

lemma vector_arm:
  "vector_ok (platform (knownELFPlatforms ! 2)) ''qemu-arm-static''
     ''7f454c4601010100000000000000000002002800'' ''ffffffffffffff00fffffffffffffffffeffffff''"
  by (rule vector_okI [where magic = "[0x7f, 0x45, 0x4c, 0x46, 1, 1, 1, 0, 0, 0, 0, 0, 0, 0, 0, 0, 2, 0, 0x28, 0]"
        and msk = "[255, 255, 255, 255, 255, 255, 255, 0, 255, 255, 255, 255, 255, 255, 255, 255, 254, 255, 255, 255]"])
     (simp add: knownELFPlatforms_def, simp add: parse_eval, simp add: elf_eval magicMatch_def)

lemma vector_arm64:
  "vector_ok (platform (knownELFPlatforms ! 3)) ''qemu-aarch64-static''
     ''7f454c460201010000000000000000000200b700'' ''ffffffffffffff00fffffffffffffffffeffffff''"
  by (rule vector_okI [where magic = "[0x7f, 0x45, 0x4c, 0x46, 2, 1, 1, 0, 0, 0, 0, 0, 0, 0, 0, 0, 2, 0, 0xb7, 0]"
        and msk = "[255, 255, 255, 255, 255, 255, 255, 0, 255, 255, 255, 255, 255, 255, 255, 255, 254, 255, 255, 255]"])
     (simp add: knownELFPlatforms_def, simp add: parse_eval, simp add: elf_eval magicMatch_def)

lemma vector_ppc64le:
  "vector_ok (platform (knownELFPlatforms ! 12)) ''qemu-ppc64le-static''
     ''7f454c4602010100000000000000000002001500'' ''ffffffffffffff00fffffffffffffffffeffff00''"
  by (rule vector_okI [where magic = "[0x7f, 0x45, 0x4c, 0x46, 2, 1, 1, 0, 0, 0, 0, 0, 0, 0, 0, 0, 2, 0, 0x15, 0]"
        and msk = "[255, 255, 255, 255, 255, 255, 255, 0, 255, 255, 255, 255, 255, 255, 255, 255, 254, 255, 255, 0]"])
     (simp add: knownELFPlatforms_def, simp add: parse_eval, simp add: elf_eval magicMatch_def)

lemma vector_s390x:
  "vector_ok (platform (knownELFPlatforms ! 15)) ''qemu-s390x-static''
     ''7f454c4602020100000000000000000000020016'' ''ffffffffffffff00fffffffffffffffffffeffff''"
  by (rule vector_okI [where magic = "[0x7f, 0x45, 0x4c, 0x46, 2, 2, 1, 0, 0, 0, 0, 0, 0, 0, 0, 0, 0, 2, 0, 0x16]"
        and msk = "[255, 255, 255, 255, 255, 255, 255, 0, 255, 255, 255, 255, 255, 255, 255, 255, 255, 254, 255, 255]"])
     (simp add: knownELFPlatforms_def, simp add: parse_eval, simp add: elf_eval magicMatch_def)

lemmas vectors = vector_386 vector_amd64 vector_arm vector_arm64 vector_ppc64le vector_s390x

lemma table_rows:
  "platform (knownELFPlatforms ! 0) = ''linux/386''" "platform (knownELFPlatforms ! 1) = ''linux/amd64''"
  "platform (knownELFPlatforms ! 2) = ''linux/arm''" "platform (knownELFPlatforms ! 3) = ''linux/arm64''"
  "platform (knownELFPlatforms ! 12) = ''linux/ppc64le''" "platform (knownELFPlatforms ! 15) = ''linux/s390x''"
  by (simp_all add: knownELFPlatforms_def)

text \<open>
  The registry entries that Fedora's qemu packages install, which the repository's test
  uses, are recognised: each of the six texts parses and matches a header of its platform.
\<close>

theorem test_vectors_match:
  "vector_ok ''linux/386'' ''qemu-i386-static''
     ''7f454c4601010100000000000000000002000300'' ''fffffffffffefe00fffffffffffffffffeffffff'' \<and>
   vector_ok ''linux/amd64'' ''qemu-x86_64-static''
     ''7f454c4602010100000000000000000002003e00'' ''fffffffffffefe00fffffffffffffffffeffffff'' \<and>
   vector_ok ''linux/arm'' ''qemu-arm-static''
     ''7f454c4601010100000000000000000002002800'' ''ffffffffffffff00fffffffffffffffffeffffff'' \<and>
   vector_ok ''linux/arm64'' ''qemu-aarch64-static''
     ''7f454c460201010000000000000000000200b700'' ''ffffffffffffff00fffffffffffffffffeffffff'' \<and>
   vector_ok ''linux/ppc64le'' ''qemu-ppc64le-static''
     ''7f454c4602010100000000000000000002001500'' ''ffffffffffffff00fffffffffffffffffeffff00'' \<and>
   vector_ok ''linux/s390x'' ''qemu-s390x-static''
     ''7f454c4602020100000000000000000000020016'' ''ffffffffffffff00fffffffffffffffffffeffff''"
  using vectors unfolding table_rows by blast

section \<open>Where detection goes wrong\<close>

lemma binfmt_rule_eval:
  "binfmt_rule hdr offset msk magic \<longleftrightarrow>
     offset + length magic \<le> length hdr \<and>
     list_all (\<lambda>j. hdr ! (offset + j) AND mask_at msk j = magic ! j AND mask_at msk j)
       [0..<length magic]"
  by (auto simp: binfmt_rule_def list_all_iff)

text \<open>The registry entry of qemu-x86_64, and the ordinary header of \<open>linux/amd64\<close>.\<close>

definition amd64_magic :: "byte list" where
  "amd64_magic = [0x7f, 0x45, 0x4c, 0x46, 2, 1, 1, 0, 0, 0, 0, 0, 0, 0, 0, 0, 2, 0, 0x3e, 0]"

definition amd64_mask :: "byte list" where
  "amd64_mask = [255, 255, 255, 255, 255, 254, 254, 0, 255, 255, 255, 255, 255, 255, 255, 255,
     254, 255, 255, 255]"

definition amd64_header :: "byte list" where
  "amd64_header = [0x7f, 0x45, 0x4c, 0x46, 2, 1, 1, 0, 0, 0, 0, 0, 0, 0, 0, 0, 2, 0, 0x3e, 0, 1, 0, 0, 0,
     0, 0, 0, 0, 0, 0, 0, 0, 0, 0, 0, 0, 0, 0, 0, 0]"

text \<open>
  The entry of qemu-x86_64 masks one bit of the data encoding and version bytes. The
  ordinary header of \<open>linux/amd64\<close> satisfies the binfmt_misc rule for it, but \<open>magicMatch\<close>,
  which masks the magic and not the header, refuses it.
\<close>

theorem magicMatch_masks_magic_only:
  "(\<exists>hs. header (knownELFPlatforms ! 1) = Ret (Inr (amd64_header # hs))) \<and>
   binfmt_rule amd64_header 0 amd64_mask amd64_magic \<and>
   \<not> magicMatch amd64_header 0 amd64_mask amd64_magic"
proof (intro conjI)
  show "\<exists>hs. header (knownELFPlatforms ! 1) = Ret (Inr (amd64_header # hs))"
    by (simp add: elf_eval amd64_header_def)
  show "binfmt_rule amd64_header 0 amd64_mask amd64_magic"
    by (simp add: binfmt_rule_eval mask_at_def amd64_header_def amd64_mask_def amd64_magic_def)
  show "\<not> magicMatch amd64_header 0 amd64_mask amd64_magic"
    by (simp add: magicMatch_def amd64_header_def amd64_mask_def amd64_magic_def)
qed

text \<open>
  An error met before the file \<open>status\<close> is visited is lost: the function returns an empty
  list and no error, as if emulation were disabled. (\<open>WalkDir\<close> visits names in lexical order,
  so the entries of qemu come first.)
\<close>

theorem error_before_status_lost:
  assumes "registry_visits r = vs @ rest" and "\<forall>v\<in>set vs. v_base v \<noteq> ''status''"
    and "walk_visits vs ([], False) = Ret (st, Some e)"
  shows "registeredBinfmtMisc r = Ret ([], None)"
proof -
  have stop: "walk_visits (us @ rest) s = Ret (st, Some e)"
    if "walk_visits us s = Ret (st, Some e)" for us s
    using that
  proof (induction us arbitrary: s)
    case (Cons u us)
    then show ?case by (auto split: outcome.splits option.splits prod.splits)
  qed simp
  have "\<not> snd st" using walk_visits_enabled [OF assms(3,2)] by simp
  with stop [OF assms(3)] assms(1) show ?thesis by (simp add: registeredBinfmtMisc_def)
qed

theorem error_before_status_lost_witness:
  "registeredBinfmtMisc (Inr (FsDir None
     [(''qemu-aarch64'', FsFile (Inr True) (Inr (''magic'', None))),
      (''status'', FsFile (Inr True) (Inr (''enabled'', None)))])) = Ret ([], None)"
proof -
  let ?r = "Inr (FsDir None
     [(''qemu-aarch64'', FsFile (Inr True) (Inr (''magic'', None))),
      (''status'', FsFile (Inr True) (Inr (''enabled'', None)))]) :: error + fs_node"
  have split: "registry_visits ?r = take 2 (registry_visits ?r) @ drop 2 (registry_visits ?r)"
    by simp
  have walk: "walk_visits (take 2 (registry_visits ?r)) ([], False) = Ret (([], False),
      Some (bad_format ''/proc/sys/fs/binfmt_misc/qemu-aarch64'' ''magic''))"
    by (simp add: walk_eval parse_eval numeral_2_eq_2)
  show ?thesis
    by (rule error_before_status_lost [OF split _ walk]) (simp add: walk_eval numeral_2_eq_2)
qed

text \<open>Every call of the walk function returns, as long as it is given a directory entry.\<close>

lemma parse_returns: "\<exists>r. parseBinfmtMisc path contents = Ret r"
proof -
  have "scan_ok (0, [], [])" by (simp add: scan_ok_def)
  from parse_lines_ok [OF this] show ?thesis unfolding parseBinfmtMisc_def by blast
qed

lemma visit_entry_returns:
  assumes "v_info v \<noteq> None"
  shows "\<exists>x. visit_entry v st = Ret x"
proof -
  have "\<exists>x. visit_regular v st = Ret x"
  proof (cases "v_open v")
    case (Inr c)
    obtain r where "parseBinfmtMisc (v_path v) (fst c) = Ret r" using parse_returns by blast
    with Inr show ?thesis
      by (cases r; cases "read_status v c st") (simp_all add: visit_regular_def read_entry_def)
  qed (simp add: visit_regular_def)
  with assms show ?thesis by (auto simp: visit_entry_def split: sum.splits)
qed

lemma walk_visits_returns:
  "\<forall>v\<in>set vs. v_info v \<noteq> None \<Longrightarrow> \<exists>x. walk_visits vs st = Ret x"
proof (induction vs arbitrary: st)
  case (Cons v vs)
  have "v_info v \<noteq> None" using Cons.prems by simp
  then obtain st' err where "visit_entry v st = Ret (st', err)"
    using visit_entry_returns [of v st] by (metis surj_pair)
  moreover have "\<exists>x. walk_visits vs st' = Ret x" using Cons by simp
  ultimately show ?case by (cases err) simp_all
qed simp

lemma walk_node_info: "v \<in> set (walk_node path base n) \<Longrightarrow> v_info v \<noteq> None"
  by (induction path base n rule: walk_node.induct) (auto simp: Let_def split: option.splits)

lemma registered_Ret_iff:
  "(\<exists>reg err. registeredBinfmtMisc r = Ret (reg, err)) \<longleftrightarrow> \<not> (\<exists>e. r = Inl e \<and> is_not_exist e)"
proof (cases r)
  case (Inr n)
  have "\<forall>v\<in>set (walk_node ''/proc/sys/fs/binfmt_misc'' ''binfmt_misc'' n). v_info v \<noteq> None"
    using walk_node_info by blast
  from walk_visits_returns [OF this, of "([], False)"] obtain st' err where
    "walk_visits (walk_node ''/proc/sys/fs/binfmt_misc'' ''binfmt_misc'' n) ([], False) = Ret (st', err)"
    by (metis surj_pair)
  with Inr show ?thesis by (simp add: registeredBinfmtMisc_def WalkDir_def)
qed (auto simp: registeredBinfmtMisc_def WalkDir_def visit_entry_def)

text \<open>
  C40. The detection always comes to an end, with a result or an error, whatever files it finds
  and whatever the system calls return, except when the directory itself does not exist.
\<close>

theorem detection_returns:
  "(\<exists>reg err. registeredBinfmtMisc r = Ret (reg, err)) \<longleftrightarrow> \<not> (\<exists>e. r = Inl e \<and> is_not_exist e)"
  by (rule registered_Ret_iff)

text \<open>
  On a system without the binfmt_misc directory the walk function is called without a
  directory entry and dereferences it: the call panics instead of reporting nothing.
\<close>

theorem missing_directory_panics:
  assumes "is_not_exist e"
  shows "registeredBinfmtMisc (Inl e) = Panic ''invalid memory address or nil pointer dereference''"
  using assms by (simp add: registeredBinfmtMisc_def WalkDir_def visit_entry_def)

theorem missing_directory_panics_witness:
  "registeredBinfmtMisc (Inl (NotExist ''/proc/sys/fs/binfmt_misc'')) =
     Panic ''invalid memory address or nil pointer dereference''"
  by (rule missing_directory_panics) simp

end
