(* ===== verification/Engine_Api.thy ===== *)
theory Engine_Api
  imports Build_Types Binfmt_Misc
begin

text \<open>
  What the builders call outside of the repository: podman's image engine and bindings, the
  docker client, the container configuration and temporary files. Their functions are fields
  of a record, each a function of the outside world \<open>'x\<close> that returns a result and the new
  outside world; the definitions of the builders take the record as an argument. An outside
  call is taken to return, with a result or an error.

  A method of a builder is a computation over the builder's own fields and the outside world.
\<close>

section \<open>Configuration\<close>

type_synonym ('x, 'a) sysc = "'x \<Rightarrow> (error + 'a) \<times> 'x"

type_synonym conn = nat
type_synonym stream = nat

datatype flagset = NewFlagSet string | ExtFlagSet nat

record Destination =
  URI :: string
  Identity :: string
  IsMachine :: bool

record config =
  ServiceDestinations :: "(string \<times> Destination) list"

record StoreOptions =
  GraphRoot :: string
  RunRoot :: string
  GraphDriverName :: string
  GraphDriverOptions :: "string list"

definition zero_StoreOptions :: StoreOptions where
  "zero_StoreOptions = \<lparr>GraphRoot = [], RunRoot = [], GraphDriverName = [], GraphDriverOptions = []\<rparr>"

definition zero_Destination :: Destination where
  "zero_Destination = \<lparr>URI = [], Identity = [], IsMachine = False\<rparr>"

datatype EngineMode = ABIMode | TunnelMode

text \<open>The fields of \<open>entities.PodmanConfig\<close> that the program sets.\<close>

record PodmanConfig =
  pc_FlagSet :: "flagset option"
  pc_EngineMode :: EngineMode
  pc_ContainersConfDefaultsRO :: "config option"
  pc_Runroot :: string
  pc_StorageDriver :: string
  pc_StorageOpts :: "string list"
  pc_URI :: string
  pc_Identity :: string

section \<open>The outside\<close>

record 'x podman_api =
  pa_ReadCustomConfig :: "('x, config) sysc"
  pa_NewImageEngine :: "PodmanConfig \<Rightarrow> ('x, engine) sysc"
  pa_NewConnectionWithIdentity :: "string \<Rightarrow> string \<Rightarrow> bool \<Rightarrow> ('x, conn) sysc"
  pa_NewConnection :: "string \<Rightarrow> ('x, conn) sysc"
  pa_system_Info :: "conn \<Rightarrow> ('x, string \<times> string) sysc"
  pa_Shutdown :: "engine \<Rightarrow> 'x \<Rightarrow> 'x"
  pa_Config :: "engine \<Rightarrow> ('x, unit) sysc"
  pa_Build :: "engine \<Rightarrow> string list \<Rightarrow> podman_BuildOptions \<Rightarrow> ('x, string) sysc"
  pa_Save :: "engine \<Rightarrow> string \<Rightarrow> string \<Rightarrow> string \<Rightarrow> ('x, unit) sysc"
  pa_Exists :: "engine \<Rightarrow> string \<Rightarrow> ('x, bool) sysc"
  pa_Load :: "engine \<Rightarrow> string \<Rightarrow> ('x, unit) sysc"
  pa_Remove :: "engine \<Rightarrow> string list \<Rightarrow> 'x \<Rightarrow> (int \<times> error list) \<times> 'x"
  pa_Prune :: "engine \<Rightarrow> bool \<Rightarrow> string list \<Rightarrow> ('x, (string \<times> error option) list) sysc"
  pa_TempFile :: "('x, string) sysc"
  pa_close :: "string \<Rightarrow> 'x \<Rightarrow> 'x"
  pa_os_Remove :: "string \<Rightarrow> 'x \<Rightarrow> 'x"
  pa_DefaultPlatform :: string
  pa_NormalizePlatform :: "string \<Rightarrow> string \<Rightarrow> string \<Rightarrow> plat"
  pa_linux :: bool
  pa_binfmt_misc :: "'x \<Rightarrow> error + fs_node"

text \<open>The detection the package \<open>emulation\<close> is built with: on Linux, or elsewhere.\<close>

definition detect_emulation :: "'x podman_api \<Rightarrow> 'x \<Rightarrow> (string list \<times> error option) outcome" where
  "detect_emulation A x =
     (if pa_linux A then registeredBinfmtMisc (pa_binfmt_misc A x) else registeredBinfmtMisc_other)"

section \<open>Methods\<close>

text \<open>A call of the outside from a method: it returns, and leaves the fields alone.\<close>

definition sys :: "('x \<Rightarrow> 'a \<times> 'x) \<Rightarrow> ('o \<times> 'x, 'a) io" where
  "sys m = (\<lambda>ox. case m (snd ox) of (a, x) \<Rightarrow> (Ret a, (fst ox, x)))"

definition outside :: "('x \<Rightarrow> 'x) \<Rightarrow> ('o \<times> 'x) \<Rightarrow> ('o \<times> 'x)" where
  "outside f = (\<lambda>ox. (fst ox, f (snd ox)))"

definition self :: "('o \<times> 'x, 'o) io" where
  "self = (\<lambda>ox. (Ret (fst ox), ox))"

definition panic :: "string \<Rightarrow> ('w, 'a) io" where
  "panic s = (\<lambda>w. (Panic s, w))"

definition nil_deref :: string where
  "nil_deref = ''invalid memory address or nil pointer dereference''"

lemma sys_simp [simp, io_simps]: "sys m (l, x) = (case m x of (a, x1) \<Rightarrow> (Ret a, (l, x1)))"
  by (simp add: sys_def)

lemma outside_simp [simp, io_simps]: "outside f (l, x) = (l, f x)"
  by (simp add: outside_def)

lemma self_simp [simp, io_simps]: "self (l, x) = (Ret l, (l, x))"
  by (simp add: self_def)

lemma panic_simp [simp, io_simps]: "panic s w = (Panic s, w)"
  by (simp add: panic_def)

lemma sys_Ret [io_split]: "sys m ox = (Ret a, ox') \<longleftrightarrow> (\<exists>x. m (snd ox) = (a, x) \<and> ox' = (fst ox, x))"
  by (auto simp: sys_def split: prod.splits)

lemma self_Ret [io_split]: "self ox = (Ret a, ox') \<longleftrightarrow> a = fst ox \<and> ox' = ox"
  by (auto simp: self_def)

text \<open>
  A method that only reads the fields: whatever its outcome, the fields are as before. Most
  methods are built so, and the property goes through the combinators.
\<close>

definition keeps :: "('o \<times> 'x, 'a) io \<Rightarrow> bool" where
  "keeps m \<longleftrightarrow> (\<forall>ox. fst (snd (m ox)) = fst ox)"

named_theorems keeps_intros \<open>methods that leave the fields alone\<close>

lemma keepsD: "keeps m \<Longrightarrow> m ox = (r, ox') \<Longrightarrow> fst ox' = fst ox"
  by (metis keeps_def snd_conv)

lemma keeps_ret [keeps_intros]: "keeps (ret a)"
  by (simp add: keeps_def)

lemma keeps_panic [keeps_intros]: "keeps (panic s)"
  by (simp add: keeps_def)

lemma keeps_sys [keeps_intros]: "keeps (sys m)"
  by (simp add: keeps_def sys_def split: prod.splits)

lemma keeps_self [keeps_intros]: "keeps self"
  by (simp add: keeps_def self_def)

lemma keeps_io_bind [keeps_intros]: "keeps m \<Longrightarrow> (\<And>a. keeps (f a)) \<Longrightarrow> keeps (io_bind m f)"
  unfolding keeps_def io_bind_def
  by (auto split: prod.splits outcome.splits) (metis fst_conv snd_conv)+

lemma keeps_case_sum [keeps_intros]:
  "(\<And>a. keeps (f a)) \<Longrightarrow> (\<And>b. keeps (g b)) \<Longrightarrow> keeps (case r of Inl a \<Rightarrow> f a | Inr b \<Rightarrow> g b)"
  by (cases r) auto

lemma keeps_try_bind [keeps_intros]: "keeps m \<Longrightarrow> (\<And>a. keeps (f a)) \<Longrightarrow> keeps (try_bind m f)"
  unfolding try_bind_def by (intro keeps_intros)

lemma keeps_wrap_err [keeps_intros]: "keeps m \<Longrightarrow> keeps (wrap_err g m)"
  unfolding wrap_err_def by (intro keeps_intros)

lemma keeps_defer [keeps_intros]: "keeps m \<Longrightarrow> keeps (defer_io (outside f) m)"
  unfolding keeps_def defer_io_def outside_def
  by (auto split: prod.splits) (metis fst_conv snd_conv)

lemma keeps_if [keeps_intros]: "keeps m \<Longrightarrow> keeps n \<Longrightarrow> keeps (if b then m else n)"
  by simp

lemma keeps_case_option [keeps_intros]:
  "keeps m \<Longrightarrow> (\<And>a. keeps (f a)) \<Longrightarrow> keeps (case v of None \<Rightarrow> m | Some a \<Rightarrow> f a)"
  by (cases v) auto

text \<open>
  A method that never changes an answer once it is known: \<open>f\<close> reads the answer off the fields.
\<close>

definition stable :: "('o \<Rightarrow> 'v option) \<Rightarrow> ('o \<times> 'x, 'a) io \<Rightarrow> bool" where
  "stable f m \<longleftrightarrow> (\<forall>ox v. f (fst ox) = Some v \<longrightarrow> f (fst (snd (m ox))) = Some v)"

named_theorems stable_intros \<open>methods that keep a known answer\<close>

lemma stableD: "stable f m \<Longrightarrow> m (l, x) = (r, (l', x')) \<Longrightarrow> f l = Some v \<Longrightarrow> f l' = Some v"
  by (auto simp: stable_def) (metis fst_conv snd_conv)

lemma stable_keeps [stable_intros]: "keeps m \<Longrightarrow> stable f m"
  by (simp add: keeps_def stable_def)

lemma stable_io_bind [stable_intros]: "stable f m \<Longrightarrow> (\<And>a. stable f (g a)) \<Longrightarrow> stable f (io_bind m g)"
  unfolding stable_def io_bind_def
  by (auto split: prod.splits outcome.splits) (metis fst_conv snd_conv)+

lemma stable_if [stable_intros]: "stable f m \<Longrightarrow> stable f n \<Longrightarrow> stable f (if b then m else n)"
  by simp

section \<open>What podman's two builders share\<close>

text \<open>The archive format of a finished build.\<close>

definition Dockerv2ImageManifest :: string where
  "Dockerv2ImageManifest = ''application/vnd.docker.distribution.manifest.v2+json''"

definition OCIv1ImageManifest :: string where
  "OCIv1ImageManifest = ''application/vnd.oci.image.manifest.v1+json''"

definition save_format :: "BuildOptions \<Rightarrow> string" where
  "save_format options = (if bo_OutputFormat options = Dockerv2ImageManifest
     then ''docker-archive'' else ''oci-archive'')"

text \<open>\<open>istorage.Transport.Name() + ":" + id\<close>.\<close>

definition storage_ref :: "string \<Rightarrow> string" where
  "storage_ref i = ''containers-storage'' @ '':'' @ i"

text \<open>The images a prune report lists as removed.\<close>

definition pruned_ids :: "(string \<times> error option) list \<Rightarrow> string list" where
  "pruned_ids reports = map fst (filter (\<lambda>r. snd r = None \<and> fst r \<noteq> []) reports)"

definition bool_str :: "bool \<Rightarrow> string" where
  "bool_str b = (if b then ''true'' else ''false'')"

end
