(* ===== verification/Podman_Local.thy ===== *)
theory Podman_Local
  imports Engine_Api
begin

text \<open>
  The local builder, \<open>podmanLocal\<close> of \<open>local.go\<close>: its fields, its constructor and its methods.
  \<open>platforms sync.Once\<close> is the field \<open>pml_once\<close>, true once the function given to \<open>Do\<close> has run.
\<close>

section \<open>State\<close>

record podmanLocal =
  pml_flagSet :: flagset
  pml_config :: config
  pml_storeOptions :: StoreOptions
  pml_engine :: engine
  pml_once :: bool
  pml_platformsErr :: "error option"
  pml_os :: string
  pml_arch :: string
  pml_variant :: string
  pml_nativePlatforms :: "string list"
  pml_emulatedPlatforms :: "string list"

definition LocalImageBuilderName :: string where
  "LocalImageBuilderName = ''(local)''"

definition localImageBuilderDriver :: string where
  "localImageBuilderDriver = ''local''"

definition abi_config :: "flagset option \<Rightarrow> config \<Rightarrow> StoreOptions \<Rightarrow> PodmanConfig" where
  "abi_config flags custom storeOptions = \<lparr>
     pc_FlagSet = flags,
     pc_EngineMode = ABIMode,
     pc_ContainersConfDefaultsRO = Some custom,
     pc_Runroot = RunRoot storeOptions,
     pc_StorageDriver = GraphDriverName storeOptions,
     pc_StorageOpts = GraphDriverOptions storeOptions,
     pc_URI = [], pc_Identity = []\<rparr>"

definition copy_StoreOptions :: "StoreOptions \<Rightarrow> StoreOptions" where
  "copy_StoreOptions so = \<lparr>GraphRoot = GraphRoot so, RunRoot = RunRoot so,
     GraphDriverName = GraphDriverName so, GraphDriverOptions = [] @ GraphDriverOptions so\<rparr>"

text \<open>The constructor; the new object is returned as a value (\<open>Image_Builder\<close> allocates it).\<close>

definition NewPodmanLocalImageBuilder ::
    "'x podman_api \<Rightarrow> flagset option \<Rightarrow> StoreOptions option \<Rightarrow> ('o \<times> 'x, podmanLocal) ioe" where
  "NewPodmanLocalImageBuilder A flags0 storeOptions0 =
     (let flags = (case flags0 of None \<Rightarrow> NewFlagSet ''buildfarm'' | Some f \<Rightarrow> f);
          storeOptions = (case storeOptions0 of None \<Rightarrow> zero_StoreOptions | Some s \<Rightarrow> s)
      in try_bind (wrap_err (WrapE ''reading custom config: %w'' []) (sys (pa_ReadCustomConfig A))) (\<lambda>custom.
         try_bind (wrap_err (WrapE ''initializing local image engine: %w'' [])
             (sys (pa_NewImageEngine A (abi_config (Some flags) custom storeOptions)))) (\<lambda>engine.
         ret (Inr \<lparr>
           pml_flagSet = flags,
           pml_config = custom,
           pml_storeOptions = copy_StoreOptions storeOptions,
           pml_engine = engine,
           pml_once = False, pml_platformsErr = None, pml_os = [], pml_arch = [], pml_variant = [],
           pml_nativePlatforms = [], pml_emulatedPlatforms = []\<rparr>))))"

section \<open>Methods\<close>

definition podmanLocal_Name :: "(podmanLocal \<times> 'x, string) io" where
  "podmanLocal_Name = ret LocalImageBuilderName"

definition podmanLocal_Driver :: "(podmanLocal \<times> 'x, string) io" where
  "podmanLocal_Driver = ret localImageBuilderDriver"

definition podmanLocal_Done :: "(podmanLocal \<times> 'x, unit) ioe" where
  "podmanLocal_Done = ret (Inr ())"

definition platform_string :: "plat \<Rightarrow> string" where
  "platform_string p = (case p of (os, arch, variant) \<Rightarrow>
     os @ ''/'' @ arch @ (if variant \<noteq> [] then ''/'' @ variant else []))"

text \<open>The results of \<open>fetchInfo\<close>, with nil slices as empty lists.\<close>

type_synonym fetched = "plat \<times> string list \<times> string list \<times> error option"

definition local_platforms :: "'x podman_api \<Rightarrow> plat \<Rightarrow> (podmanLocal \<times> 'x, fetched) io" where
  "local_platforms A p = (\<lambda>lx. case Registered (detect_emulation A (snd lx)) of
      Ret emulated \<Rightarrow> (Ret (p, [platform_string p], emulated, None), lx)
    | Panic s \<Rightarrow> (Panic s, lx)
    | Blocked \<Rightarrow> (Blocked, lx))"

definition podmanLocal_fetchInfo :: "'x podman_api \<Rightarrow> (podmanLocal \<times> 'x, fetched) io" where
  "podmanLocal_fetchInfo A =
     (case str_splitn (CHR ''/'') 3 (pa_DefaultPlatform A) of
        [os, arch] \<Rightarrow> local_platforms A (pa_NormalizePlatform A os arch [])
      | [os, arch, variant] \<Rightarrow> local_platforms A (pa_NormalizePlatform A os arch variant)
      | _ \<Rightarrow> ret (([], [], []), [], [],
            Some (Errorf ''unparseable default platform %q'' [AStr (pa_DefaultPlatform A)])))"

text \<open>\<open>l.platforms.Do(func() { ... = l.fetchInfo(ctx, options) })\<close>.\<close>

definition local_once :: "'x podman_api \<Rightarrow> (podmanLocal \<times> 'x, unit) io" where
  "local_once A = io_bind self (\<lambda>l.
     if pml_once l then ret ()
     else io_bind (podmanLocal_fetchInfo A) (\<lambda>r. \<lambda>lx. case r of ((os, arch, variant), native, emulated, err) \<Rightarrow>
       (Ret (), (fst lx)\<lparr>pml_once := True, pml_os := os, pml_arch := arch, pml_variant := variant,
          pml_nativePlatforms := native, pml_emulatedPlatforms := emulated, pml_platformsErr := err\<rparr>, snd lx)))"

definition with_err :: "error option \<Rightarrow> 'a \<Rightarrow> error + 'a" where
  "with_err err a = (case err of None \<Rightarrow> Inr a | Some e \<Rightarrow> Inl e)"

definition podmanLocal_Info :: "'x podman_api \<Rightarrow> (podmanLocal \<times> 'x, Info) ioe" where
  "podmanLocal_Info A = io_bind (local_once A) (\<lambda>_. io_bind self (\<lambda>l.
     ret (with_err (pml_platformsErr l) \<lparr>NativePlatforms = [] @ pml_nativePlatforms l,
       EmulatedPlatforms = pml_emulatedPlatforms l\<rparr>)))"

definition podmanLocal_NativePlatforms :: "'x podman_api \<Rightarrow> (podmanLocal \<times> 'x, string list) ioe" where
  "podmanLocal_NativePlatforms A = io_bind (local_once A) (\<lambda>_. io_bind self (\<lambda>l.
     ret (with_err (pml_platformsErr l) ([] @ pml_nativePlatforms l))))"

definition podmanLocal_EmulatedPlatforms :: "'x podman_api \<Rightarrow> (podmanLocal \<times> 'x, string list) ioe" where
  "podmanLocal_EmulatedPlatforms A = io_bind (local_once A) (\<lambda>_. io_bind self (\<lambda>l.
     ret (with_err (pml_platformsErr l) (pml_emulatedPlatforms l))))"

definition podmanLocal_Status :: "'x podman_api \<Rightarrow> (podmanLocal \<times> 'x, unit) ioe" where
  "podmanLocal_Status A = io_bind (local_once A) (\<lambda>_. io_bind self (\<lambda>l. sys (pa_Config A (pml_engine l))))"

definition podmanLocal_Build ::
    "'x podman_api \<Rightarrow> string \<Rightarrow> string list \<Rightarrow> BuildOptions \<Rightarrow> (podmanLocal \<times> 'x, BuildReport) ioe" where
  "podmanLocal_Build A outputReference containerFiles options =
     io_bind (local_once A) (\<lambda>_. io_bind self (\<lambda>l.
       case pml_platformsErr l of
         Some e \<Rightarrow> ret (Inl (WrapE ''determining local platform: %w'' [] e))
       | None \<Rightarrow>
          (let theseOptions = podmanBuildOptionsFromBuildOptions options (pml_os l) (pml_arch l) (pml_variant l)
           in try_bind (wrap_err (WrapE ''building for %v locally: %w'' [APlatforms (pb_Platforms theseOptions)])
                  (sys (pa_Build A (pml_engine l) containerFiles theseOptions))) (\<lambda>i.
              ret (Inr \<lparr>ImageID = i, SaveFormat = save_format options\<rparr>)))))"

definition podmanLocal_PullToFile :: "'x podman_api \<Rightarrow> PullToFileOptions \<Rightarrow> (podmanLocal \<times> 'x, string) ioe" where
  "podmanLocal_PullToFile A options = io_bind self (\<lambda>l.
     try_bind (wrap_err (WrapE ''saving image %q: %w'' [AStr (pf_ImageID options)])
         (sys (pa_Save A (pml_engine l) (pf_ImageID options) (pf_SaveFormat options) (pf_SaveFile options)))) (\<lambda>_.
     ret (Inr (pf_SaveFormat options @ '':'' @ pf_SaveFile options))))"

definition podmanLocal_PullToLocal :: "'x podman_api \<Rightarrow> PullToLocalOptions \<Rightarrow> (podmanLocal \<times> 'x, string) ioe" where
  "podmanLocal_PullToLocal A options = io_bind self (\<lambda>l.
     let destination = (case pl_Destination options of None \<Rightarrow> pml_engine l | Some d \<Rightarrow> d)
     in try_bind (sys (pa_Exists A destination (pl_ImageID options))) (\<lambda>br.
        if br then ret (Inr (storage_ref (pl_ImageID options)))
        else try_bind (sys (pa_TempFile A)) (\<lambda>tempFile.
          defer_io (outside (pa_os_Remove A tempFile)) (defer_io (outside (pa_close A tempFile))
            (try_bind (wrap_err (WrapE ''saving image %q: %w'' [AStr (pl_ImageID options)])
                (sys (pa_Save A (pml_engine l) (pl_ImageID options) (pl_SaveFormat options) tempFile))) (\<lambda>_.
             try_bind (sys (pa_Load A destination tempFile)) (\<lambda>_.
             ret (Inr (storage_ref (pl_ImageID options))))))))))"

text \<open>The switch on the number of errors that \<open>Remove\<close> returned; \<open>ok\<close> is what follows it.\<close>

definition remove_errors :: "(error \<Rightarrow> error) \<Rightarrow> (error \<Rightarrow> error) \<Rightarrow> error list \<Rightarrow> (error + unit) \<Rightarrow> error + unit" where
  "remove_errors many one errs ok =
     (case errs of
        [] \<Rightarrow> ok
      | [e] \<Rightarrow> Inl (one e)
      | _ \<Rightarrow> (case error_or_nil (fold (\<lambda>e acc. multi_append acc e) errs []) of
                Some multi \<Rightarrow> Inl (many multi)
              | None \<Rightarrow> Inr ()))"

definition podmanLocal_RemoveImage :: "'x podman_api \<Rightarrow> RemoveImageOptions \<Rightarrow> (podmanLocal \<times> 'x, unit) ioe" where
  "podmanLocal_RemoveImage A options = io_bind self (\<lambda>l.
     let msg = WrapE ''removing intermediate image %q from local storage: %w'' [AStr (rm_ImageID options)]
     in io_bind (sys (pa_Remove A (pml_engine l) [rm_ImageID options])) (\<lambda>r. case r of (exitCode, errs) \<Rightarrow>
        ret (remove_errors msg msg errs
          (if exitCode \<noteq> 0
           then Inl (Errorf ''removing intermediate image %q from local storage: status %d''
                  [AStr (rm_ImageID options), AInt exitCode])
           else Inr ()))))"

definition podmanLocal_PruneImages :: "'x podman_api \<Rightarrow> PruneImageOptions \<Rightarrow> (podmanLocal \<times> 'x, PruneImageReport) ioe" where
  "podmanLocal_PruneImages A options = io_bind self (\<lambda>l.
     try_bind (wrap_err (WrapE ''removing unused images from local storage: %w'' [])
         (sys (pa_Prune A (pml_engine l) (pr_All options) [''dangling='' @ bool_str (\<not> pr_All options)])))
       (\<lambda>reports. ret (Inr \<lparr>ImageIDs = pruned_ids reports, ImageNames = []\<rparr>)))"

section \<open>Laws\<close>

text \<open>What the platform methods answer once \<open>fetchInfo\<close> has run.\<close>

definition local_settled :: "podmanLocal \<Rightarrow> (error + Info) option" where
  "local_settled l = (if pml_once l
     then Some (with_err (pml_platformsErr l) \<lparr>NativePlatforms = pml_nativePlatforms l,
       EmulatedPlatforms = pml_emulatedPlatforms l\<rparr>)
     else None)"

lemma keeps_local_platforms [keeps_intros]: "keeps (local_platforms A p)"
  by (simp add: keeps_def local_platforms_def split: outcome.splits)

lemma keeps_local_fetchInfo [keeps_intros]: "keeps (podmanLocal_fetchInfo A)"
  by (auto simp: podmanLocal_fetchInfo_def split: list.splits intro: keeps_intros)

lemma local_once_Ret:
  assumes "local_once A (l, x) = (Ret u, (l', x'))"
  shows "pml_once l'" and "pml_once l \<Longrightarrow> l' = l \<and> x' = x"
    and "pml_engine l' = pml_engine l"
proof -
  have "fst lx = l" if "podmanLocal_fetchInfo A (l, x) = (r, lx)" for r lx
    using keepsD [OF keeps_local_fetchInfo that] by simp
  with assms show "pml_once l'" "pml_once l \<Longrightarrow> l' = l \<and> x' = x" "pml_engine l' = pml_engine l"
    by (auto simp: local_once_def io_bind_RetE self_Ret split: if_splits)
qed

lemma local_once_done [simp]: "pml_once l \<Longrightarrow> local_once A (l, x) = (Ret (), (l, x))"
  by (simp add: local_once_def)

lemma podmanLocal_keeps [keeps_intros]:
  "keeps podmanLocal_Name" "keeps podmanLocal_Driver" "keeps podmanLocal_Done"
  "keeps (podmanLocal_PullToFile A pf)" "keeps (podmanLocal_PullToLocal A pl)"
  "keeps (podmanLocal_RemoveImage A rm)" "keeps (podmanLocal_PruneImages A pr)"
  unfolding podmanLocal_Name_def podmanLocal_Driver_def podmanLocal_Done_def
    podmanLocal_PullToFile_def podmanLocal_PullToLocal_def podmanLocal_RemoveImage_def
    podmanLocal_PruneImages_def Let_def prod.case_eq_if
  by (intro keeps_intros)+

lemma stable_local_once [stable_intros]: "stable local_settled (local_once A)"
  by (auto simp: stable_def local_settled_def)

lemma podmanLocal_stable [stable_intros]:
  "stable local_settled (podmanLocal_Info A)" "stable local_settled (podmanLocal_NativePlatforms A)"
  "stable local_settled (podmanLocal_EmulatedPlatforms A)" "stable local_settled (podmanLocal_Status A)"
  unfolding podmanLocal_Info_def podmanLocal_NativePlatforms_def podmanLocal_EmulatedPlatforms_def
    podmanLocal_Status_def
  by (intro stable_intros keeps_intros)+

lemma podmanLocal_Build_once:
  assumes "stable v (local_once A)"
  shows "stable v (podmanLocal_Build A ref files options)"
proof -
  have "keeps (case pml_platformsErr l of
      Some e \<Rightarrow> ret (Inl (WrapE m [] e)) | None \<Rightarrow> f l)" if "\<And>l. keeps (f l)" for l m and f :: "podmanLocal \<Rightarrow> (podmanLocal \<times> 'x, BuildReport) ioe"
    using that by (cases "pml_platformsErr l") (auto intro: keeps_intros)
  then show ?thesis
    unfolding podmanLocal_Build_def Let_def by (intro assms stable_intros keeps_intros)
qed

lemmas podmanLocal_Build_stable [stable_intros] = podmanLocal_Build_once [OF stable_local_once]

lemma podmanLocal_Info_settles:
  assumes "podmanLocal_Info A (l, x) = (Ret r, (l', x'))"
  shows "local_settled l' = Some r"
  using assms
  by (auto simp: podmanLocal_Info_def io_bind_RetE self_Ret local_settled_def dest: local_once_Ret(1))

lemma podmanLocal_NativePlatforms_settles:
  assumes "podmanLocal_NativePlatforms A (l, x) = (Ret r, (l', x'))"
  shows "\<exists>i. local_settled l' = Some i \<and> r = map_sum id NativePlatforms i"
  using assms
  by (auto simp: podmanLocal_NativePlatforms_def io_bind_RetE self_Ret local_settled_def with_err_def
      dest: local_once_Ret(1) split: option.splits)

lemma podmanLocal_EmulatedPlatforms_settles:
  assumes "podmanLocal_EmulatedPlatforms A (l, x) = (Ret r, (l', x'))"
  shows "\<exists>i. local_settled l' = Some i \<and> r = map_sum id EmulatedPlatforms i"
  using assms
  by (auto simp: podmanLocal_EmulatedPlatforms_def io_bind_RetE self_Ret local_settled_def with_err_def
      dest: local_once_Ret(1) split: option.splits)

end
