(* ===== verification/Podman_Remote.thy ===== *)
theory Podman_Remote
  imports Podman_Local
begin

text \<open>
  The builder behind a podman system connection, \<open>podmanRemote\<close> of \<open>remote.go\<close>. \<open>Done\<close> sets the
  connection and the engine to nil; a method that uses either after that panics.
\<close>

section \<open>State\<close>

record podmanRemote =
  pmr_name :: string
  pmr_flagSet :: flagset
  pmr_config :: config
  pmr_uri :: string
  pmr_identity :: string
  pmr_isMachine :: bool
  pmr_connCtx :: "conn option"
  pmr_engine :: "engine option"
  pmr_once :: bool
  pmr_platformsErr :: "error option"
  pmr_os :: string
  pmr_arch :: string
  pmr_variant :: string
  pmr_nativePlatforms :: "string list"
  pmr_emulatedPlatforms :: "string list"

definition tunnel_config :: "flagset option \<Rightarrow> Destination \<Rightarrow> PodmanConfig" where
  "tunnel_config flags dest = \<lparr>
     pc_FlagSet = flags,
     pc_EngineMode = TunnelMode,
     pc_ContainersConfDefaultsRO = None,
     pc_Runroot = [], pc_StorageDriver = [], pc_StorageOpts = [],
     pc_URI = URI dest, pc_Identity = Identity dest\<rparr>"

definition connect :: "'x podman_api \<Rightarrow> string \<Rightarrow> Destination \<Rightarrow> ('o \<times> 'x, conn) ioe" where
  "connect A name dest =
     (if Identity dest \<noteq> []
      then wrap_err (WrapE ''connecting to %q at %q as %q: %w'' [AStr name, AStr (URI dest), AStr (Identity dest)])
             (sys (pa_NewConnectionWithIdentity A (URI dest) (Identity dest) (IsMachine dest)))
      else wrap_err (WrapE ''connecting to %q at %q: %w'' [AStr name, AStr (URI dest)])
             (sys (pa_NewConnection A (URI dest))))"

text \<open>
  The constructor. A name without a destination gets the zero destination: the error made for
  it is overwritten by the next assignment of \<open>err\<close>.
\<close>

definition NewPodmanRemoteImageBuilder ::
    "'x podman_api \<Rightarrow> flagset option \<Rightarrow> string \<Rightarrow> ('o \<times> 'x, podmanRemote) ioe" where
  "NewPodmanRemoteImageBuilder A flags0 name =
     (let flags = (case flags0 of None \<Rightarrow> NewFlagSet ''buildfarm'' | Some f \<Rightarrow> f)
      in try_bind (wrap_err (WrapE ''reading custom config: %w'' []) (sys (pa_ReadCustomConfig A))) (\<lambda>custom.
         let dest = (case map_of (ServiceDestinations custom) name of Some d \<Rightarrow> d | None \<Rightarrow> zero_Destination)
         in try_bind (connect A name dest) (\<lambda>connCtx.
            try_bind (wrap_err (WrapE ''initializing image engine at %q: %w'' [AStr (URI dest)])
                (sys (pa_NewImageEngine A (tunnel_config (Some flags) dest)))) (\<lambda>engine.
            ret (Inr \<lparr>
              pmr_name = name,
              pmr_flagSet = flags,
              pmr_config = custom,
              pmr_uri = URI dest,
              pmr_identity = Identity dest,
              pmr_isMachine = IsMachine dest,
              pmr_connCtx = Some connCtx,
              pmr_engine = Some engine,
              pmr_once = False, pmr_platformsErr = None, pmr_os = [], pmr_arch = [], pmr_variant = [],
              pmr_nativePlatforms = [], pmr_emulatedPlatforms = []\<rparr>)))))"

section \<open>Methods\<close>

definition podmanRemote_Name :: "(podmanRemote \<times> 'x, string) io" where
  "podmanRemote_Name = io_bind self (\<lambda>r. ret (pmr_name r))"

definition podmanRemote_Driver :: "(podmanRemote \<times> 'x, string) io" where
  "podmanRemote_Driver = ret ''podman-remote''"

definition podmanRemote_Done :: "'x podman_api \<Rightarrow> (podmanRemote \<times> 'x, unit) ioe" where
  "podmanRemote_Done A = (\<lambda>(r, x). case (pmr_connCtx r, pmr_engine r) of
      (Some c, Some e) \<Rightarrow> (Ret (Inr ()), (r\<lparr>pmr_connCtx := None, pmr_engine := None\<rparr>, pa_Shutdown A e x))
    | _ \<Rightarrow> (Ret (Inr ()), (r, x)))"

text \<open>A method call on \<open>r.engine\<close>, which panics when it is nil.\<close>

definition on_engine :: "podmanRemote \<Rightarrow> (engine \<Rightarrow> (podmanRemote \<times> 'x, 'a) io) \<Rightarrow> (podmanRemote \<times> 'x, 'a) io" where
  "on_engine r f = (case pmr_engine r of None \<Rightarrow> panic nil_deref | Some e \<Rightarrow> f e)"

definition podmanRemote_fetchInfo ::
    "'x podman_api \<Rightarrow> (podmanRemote \<times> 'x, string \<times> string \<times> string list \<times> error option) io" where
  "podmanRemote_fetchInfo A = io_bind self (\<lambda>r.
     case pmr_connCtx r of
       None \<Rightarrow> panic nil_deref
     | Some c \<Rightarrow> io_bind (sys (pa_system_Info A c)) (\<lambda>i. case i of
           Inl e \<Rightarrow> ret ([], [], [], Some (WrapE ''retrieving host info from %q: %w'' [AStr (pmr_name r)] e))
         | Inr (os, arch) \<Rightarrow> ret (os, arch, [os @ ''/'' @ arch], None)))"

definition remote_once :: "'x podman_api \<Rightarrow> (podmanRemote \<times> 'x, unit) io" where
  "remote_once A = io_bind self (\<lambda>r.
     if pmr_once r then ret ()
     else io_bind (podmanRemote_fetchInfo A) (\<lambda>i. \<lambda>rx. case i of (os, arch, native, err) \<Rightarrow>
       (Ret (), (fst rx)\<lparr>pmr_once := True, pmr_os := os, pmr_arch := arch,
          pmr_nativePlatforms := native, pmr_platformsErr := err\<rparr>, snd rx)))"

definition podmanRemote_Info :: "'x podman_api \<Rightarrow> (podmanRemote \<times> 'x, Info) ioe" where
  "podmanRemote_Info A = io_bind (remote_once A) (\<lambda>_. io_bind self (\<lambda>r.
     ret (with_err (pmr_platformsErr r) \<lparr>NativePlatforms = [] @ pmr_nativePlatforms r, EmulatedPlatforms = []\<rparr>)))"

definition podmanRemote_NativePlatforms :: "'x podman_api \<Rightarrow> (podmanRemote \<times> 'x, string list) ioe" where
  "podmanRemote_NativePlatforms A = io_bind (remote_once A) (\<lambda>_. io_bind self (\<lambda>r.
     ret (with_err (pmr_platformsErr r) ([] @ pmr_nativePlatforms r))))"

definition podmanRemote_EmulatedPlatforms :: "'x podman_api \<Rightarrow> (podmanRemote \<times> 'x, string list) ioe" where
  "podmanRemote_EmulatedPlatforms A = io_bind (remote_once A) (\<lambda>_. io_bind self (\<lambda>r.
     ret (with_err (pmr_platformsErr r) [])))"

definition podmanRemote_Status :: "'x podman_api \<Rightarrow> (podmanRemote \<times> 'x, unit) ioe" where
  "podmanRemote_Status A = io_bind (remote_once A) (\<lambda>_. io_bind self (\<lambda>r.
     on_engine r (\<lambda>e. sys (pa_Config A e))))"

definition podmanRemote_Build ::
    "'x podman_api \<Rightarrow> string \<Rightarrow> string list \<Rightarrow> BuildOptions \<Rightarrow> (podmanRemote \<times> 'x, BuildReport) ioe" where
  "podmanRemote_Build A outputReference containerFiles options = io_bind self (\<lambda>r.
     let theseOptions = podmanBuildOptionsFromBuildOptions options (pmr_os r) (pmr_arch r) (pmr_variant r)
     in on_engine r (\<lambda>e.
        try_bind (wrap_err (WrapE ''building for %v on %q: %w'' [APlatforms (pb_Platforms theseOptions), AStr (pmr_name r)])
            (sys (pa_Build A e containerFiles theseOptions))) (\<lambda>i.
        ret (Inr \<lparr>ImageID = i, SaveFormat = save_format options\<rparr>))))"

definition podmanRemote_PullToFile :: "'x podman_api \<Rightarrow> PullToFileOptions \<Rightarrow> (podmanRemote \<times> 'x, string) ioe" where
  "podmanRemote_PullToFile A options = io_bind self (\<lambda>r. on_engine r (\<lambda>e.
     try_bind (wrap_err (WrapE ''saving image %q: %w'' [AStr (pf_ImageID options)])
         (sys (pa_Save A e (pf_ImageID options) (pf_SaveFormat options) (pf_SaveFile options)))) (\<lambda>_.
     ret (Inr (pf_SaveFormat options @ '':'' @ pf_SaveFile options)))))"

definition podmanRemote_PullToLocal :: "'x podman_api \<Rightarrow> PullToLocalOptions \<Rightarrow> (podmanRemote \<times> 'x, string) ioe" where
  "podmanRemote_PullToLocal A options = io_bind self (\<lambda>r.
     try_bind (sys (pa_TempFile A)) (\<lambda>tempFile.
       defer_io (outside (pa_os_Remove A tempFile)) (defer_io (outside (pa_close A tempFile))
         (on_engine r (\<lambda>e.
           try_bind (wrap_err (WrapE ''saving image %q to temporary file: %w'' [AStr (pl_ImageID options)])
               (sys (pa_Save A e (pl_ImageID options) (pl_SaveFormat options) tempFile))) (\<lambda>_.
           case pl_Destination options of
             None \<Rightarrow> ret (Inl (ErrNew ''internal error: options.Destination not set''))
           | Some d \<Rightarrow>
               try_bind (wrap_err (WrapE ''loading image %q: %w'' [AStr (pl_ImageID options)])
                   (sys (pa_Load A d tempFile))) (\<lambda>_.
               ret (Inr (storage_ref (pl_ImageID options))))))))))"

definition podmanRemote_RemoveImage :: "'x podman_api \<Rightarrow> RemoveImageOptions \<Rightarrow> (podmanRemote \<times> 'x, unit) ioe" where
  "podmanRemote_RemoveImage A options = io_bind self (\<lambda>r. on_engine r (\<lambda>e.
     io_bind (sys (pa_Remove A e [rm_ImageID options])) (\<lambda>res. case res of (exitCode, errs) \<Rightarrow>
       ret (remove_errors
         (WrapE ''removing intermediate image %q from remote %q: %w'' [AStr (rm_ImageID options), AStr (pmr_name r)])
         (WrapE ''removing intermediate image %q from local storage: %w'' [AStr (rm_ImageID options)])
         errs
         (if exitCode \<noteq> 0
          then Inl (Errorf ''removing intermediate image %q from remote %q: status %d''
                 [AStr (rm_ImageID options), AStr (pmr_name r), AInt exitCode])
          else Inr ())))))"

definition podmanRemote_PruneImages :: "'x podman_api \<Rightarrow> PruneImageOptions \<Rightarrow> (podmanRemote \<times> 'x, PruneImageReport) ioe" where
  "podmanRemote_PruneImages A options = io_bind self (\<lambda>r. on_engine r (\<lambda>e.
     try_bind (wrap_err (WrapE ''removing unused images from local storage: %w'' [])
         (sys (pa_Prune A e (pr_All options) [''dangling='' @ bool_str (\<not> pr_All options)])))
       (\<lambda>reports. ret (Inr \<lparr>ImageIDs = pruned_ids reports, ImageNames = []\<rparr>))))"

section \<open>Laws\<close>

definition remote_settled :: "podmanRemote \<Rightarrow> (error + Info) option" where
  "remote_settled r = (if pmr_once r
     then Some (with_err (pmr_platformsErr r) \<lparr>NativePlatforms = pmr_nativePlatforms r, EmulatedPlatforms = []\<rparr>)
     else None)"

lemma keeps_on_engine [keeps_intros]: "(\<And>e. keeps (f e)) \<Longrightarrow> keeps (on_engine r f)"
  unfolding on_engine_def by (intro keeps_intros)

lemma keeps_remote_fetchInfo [keeps_intros]: "keeps (podmanRemote_fetchInfo A)"
  unfolding podmanRemote_fetchInfo_def prod.case_eq_if by (intro keeps_intros)

lemma remote_once_Ret:
  assumes "remote_once A (r, x) = (Ret u, (r', x'))"
  shows "pmr_once r'" and "pmr_engine r' = pmr_engine r" and "pmr_name r' = pmr_name r"
proof -
  have "fst rx = r" if "podmanRemote_fetchInfo A (r, x) = (i, rx)" for i rx
    using keepsD [OF keeps_remote_fetchInfo that] by simp
  with assms show "pmr_once r'" "pmr_engine r' = pmr_engine r" "pmr_name r' = pmr_name r"
    by (auto simp: remote_once_def io_bind_RetE self_Ret split: if_splits)
qed

lemma remote_once_done [simp]: "pmr_once r \<Longrightarrow> remote_once A (r, x) = (Ret (), (r, x))"
  by (simp add: remote_once_def)

lemma podmanRemote_keeps [keeps_intros]:
  "keeps podmanRemote_Name" "keeps podmanRemote_Driver"
  "keeps (podmanRemote_Build A ref files options)"
  "keeps (podmanRemote_PullToFile A pf)" "keeps (podmanRemote_PullToLocal A pl)"
  "keeps (podmanRemote_RemoveImage A rm)" "keeps (podmanRemote_PruneImages A pr)"
  unfolding podmanRemote_Name_def podmanRemote_Driver_def podmanRemote_Build_def
    podmanRemote_PullToFile_def podmanRemote_PullToLocal_def podmanRemote_RemoveImage_def
    podmanRemote_PruneImages_def Let_def prod.case_eq_if
  by (intro keeps_intros)+

lemma stable_remote_once [stable_intros]: "stable remote_settled (remote_once A)"
  by (auto simp: stable_def remote_settled_def)

lemma podmanRemote_stable [stable_intros]:
  "stable remote_settled (podmanRemote_Info A)" "stable remote_settled (podmanRemote_NativePlatforms A)"
  "stable remote_settled (podmanRemote_EmulatedPlatforms A)" "stable remote_settled (podmanRemote_Status A)"
  unfolding podmanRemote_Info_def podmanRemote_NativePlatforms_def podmanRemote_EmulatedPlatforms_def
    podmanRemote_Status_def
  by (intro stable_intros keeps_intros)+

lemma podmanRemote_Done_stable [stable_intros]: "stable remote_settled (podmanRemote_Done A)"
  by (auto simp: stable_def remote_settled_def podmanRemote_Done_def split: option.splits)

lemma podmanRemote_Info_settles:
  assumes "podmanRemote_Info A (r, x) = (Ret i, (r', x'))"
  shows "remote_settled r' = Some i"
  using assms
  by (auto simp: podmanRemote_Info_def io_bind_RetE self_Ret remote_settled_def dest: remote_once_Ret(1))

lemma podmanRemote_NativePlatforms_settles:
  assumes "podmanRemote_NativePlatforms A (r, x) = (Ret v, (r', x'))"
  shows "\<exists>i. remote_settled r' = Some i \<and> v = map_sum id NativePlatforms i"
  using assms
  by (auto simp: podmanRemote_NativePlatforms_def io_bind_RetE self_Ret remote_settled_def with_err_def
      dest: remote_once_Ret(1) split: option.splits)

lemma podmanRemote_EmulatedPlatforms_settles:
  assumes "podmanRemote_EmulatedPlatforms A (r, x) = (Ret v, (r', x'))"
  shows "\<exists>i. remote_settled r' = Some i \<and> v = map_sum id EmulatedPlatforms i"
  using assms
  by (auto simp: podmanRemote_EmulatedPlatforms_def io_bind_RetE self_Ret remote_settled_def with_err_def
      dest: remote_once_Ret(1) split: option.splits)

end
