(* ===== verification/Docker_Engine.thy ===== *)
theory Docker_Engine
  imports Podman_Remote
begin

text \<open>
  The builder behind a docker engine, \<open>dockerEngine\<close> of \<open>docker.go\<close>, with the translation of
  build options to the docker client's, the parsing of labels and of resource limits. The
  docker client, the tar stream of the build context and \<open>units.RAMInBytes\<close> are parameters.
\<close>

section \<open>State and outside\<close>

type_synonym client = nat

record ULimit =
  ul_Name :: string
  ul_Soft :: i64
  ul_Hard :: i64

text \<open>The fields of \<open>docker.BuildImageOptions\<close> that the program sets.\<close>

record BuildImageOptions =
  di_Name :: string
  di_InputStream :: stream
  di_Platform :: string
  di_ContextDir :: string
  di_Dockerfile :: string
  di_RmTmpContainer :: bool
  di_ForceRmTmpContainer :: bool
  di_ExtraHosts :: string
  di_CacheFrom :: "string list"
  di_Labels :: string_map
  di_Memory :: i64
  di_Memswap :: i64
  di_ShmSize :: i64
  di_CPUShares :: i64
  di_CPUQuota :: i64
  di_CPUPeriod :: i64
  di_CPUSetCPUs :: string
  di_CgroupParent :: string
  di_NoCache :: bool
  di_SuppressOutput :: bool
  di_Pull :: bool
  di_BuildArgs :: "(string \<times> string) list"
  di_Ulimits :: "ULimit list"

record 'x docker_api =
  da_ReadCustomConfig :: "('x, config) sysc"
  da_NewTLSClient :: "string \<Rightarrow> string \<Rightarrow> string \<Rightarrow> string \<Rightarrow> ('x, client) sysc"
  da_NewClient :: "string \<Rightarrow> ('x, client) sysc"
  da_Info :: "client \<Rightarrow> ('x, string \<times> string) sysc"
  da_Ping :: "client \<Rightarrow> ('x, unit) sysc"
  da_RAMInBytes :: "string \<Rightarrow> error + i64"
  da_Tar :: "string \<Rightarrow> ('x, stream) sysc"
  da_close_stream :: "stream \<Rightarrow> 'x \<Rightarrow> 'x"
  da_BuildImage :: "client \<Rightarrow> BuildImageOptions \<Rightarrow> ('x, unit) sysc"
  da_Create :: "string \<Rightarrow> ('x, string) sysc"
  da_TempFile :: "('x, string) sysc"
  da_close :: "string \<Rightarrow> 'x \<Rightarrow> 'x"
  da_os_Remove :: "string \<Rightarrow> 'x \<Rightarrow> 'x"
  da_ExportImage :: "client \<Rightarrow> string \<Rightarrow> string \<Rightarrow> ('x, unit) sysc"
  da_Load :: "engine \<Rightarrow> string \<Rightarrow> ('x, unit) sysc"
  da_RemoveImage :: "client \<Rightarrow> string \<Rightarrow> ('x, unit) sysc"
  da_PruneImages :: "client \<Rightarrow> (string \<times> string list) list \<Rightarrow> ('x, string list) sysc"

record dockerEngine =
  dke_name :: string
  dke_flagSet :: flagset
  dke_config :: config
  dke_client :: client
  dke_once :: bool
  dke_platformsErr :: "error option"
  dke_os :: string
  dke_arch :: string
  dke_variant :: string
  dke_nativePlatforms :: "string list"
  dke_emulatedPlatforms :: "string list"

text \<open>The constructor: endpoint and certificates are the empty string, so the plain client is used.\<close>

definition NewDockerImageBuilder ::
    "'x docker_api \<Rightarrow> flagset option \<Rightarrow> string \<Rightarrow> ('o \<times> 'x, dockerEngine) ioe" where
  "NewDockerImageBuilder D flags0 name =
     (let flags = (case flags0 of None \<Rightarrow> NewFlagSet ''buildfarm'' | Some f \<Rightarrow> f);
          endpoint = []; cert = []; key = []; ca = []
      in try_bind (wrap_err (WrapE ''reading custom config: %w'' []) (sys (da_ReadCustomConfig D))) (\<lambda>custom.
         try_bind (if cert \<noteq> [] \<or> key \<noteq> [] \<or> ca \<noteq> []
                   then sys (da_NewTLSClient D endpoint cert key ca)
                   else sys (da_NewClient D endpoint)) (\<lambda>client.
         ret (Inr \<lparr>
           dke_name = name,
           dke_flagSet = flags,
           dke_config = custom,
           dke_client = client,
           dke_once = False, dke_platformsErr = None, dke_os = [], dke_arch = [], dke_variant = [],
           dke_nativePlatforms = [], dke_emulatedPlatforms = []\<rparr>))))"

section \<open>Methods\<close>

definition dockerEngine_Name :: "(dockerEngine \<times> 'x, string) io" where
  "dockerEngine_Name = io_bind self (\<lambda>r. ret (dke_name r))"

definition dockerEngine_Driver :: "(dockerEngine \<times> 'x, string) io" where
  "dockerEngine_Driver = ret ''docker''"

definition dockerEngine_Done :: "(dockerEngine \<times> 'x, unit) ioe" where
  "dockerEngine_Done = ret (Inr ())"

definition dockerEngine_fetchInfo ::
    "'x docker_api \<Rightarrow> (dockerEngine \<times> 'x, string \<times> string \<times> string list \<times> error option) io" where
  "dockerEngine_fetchInfo D = io_bind self (\<lambda>r.
     io_bind (sys (da_Info D (dke_client r))) (\<lambda>i. case i of
       Inl e \<Rightarrow> ret ([], [], [], Some (WrapE ''retrieving host info from %q: %w'' [AStr (dke_name r)] e))
     | Inr (os, arch) \<Rightarrow> ret (os, arch, [os @ ''/'' @ arch], None)))"

definition docker_once :: "'x docker_api \<Rightarrow> (dockerEngine \<times> 'x, unit) io" where
  "docker_once D = io_bind self (\<lambda>r.
     if dke_once r then ret ()
     else io_bind (dockerEngine_fetchInfo D) (\<lambda>i. \<lambda>rx. case i of (os, arch, native, err) \<Rightarrow>
       (Ret (), (fst rx)\<lparr>dke_once := True, dke_os := os, dke_arch := arch,
          dke_nativePlatforms := native, dke_platformsErr := err\<rparr>, snd rx)))"

definition dockerEngine_Info :: "'x docker_api \<Rightarrow> (dockerEngine \<times> 'x, Info) ioe" where
  "dockerEngine_Info D = io_bind (docker_once D) (\<lambda>_. io_bind self (\<lambda>r.
     ret (with_err (dke_platformsErr r) \<lparr>NativePlatforms = [] @ dke_nativePlatforms r, EmulatedPlatforms = []\<rparr>)))"

definition dockerEngine_NativePlatforms :: "'x docker_api \<Rightarrow> (dockerEngine \<times> 'x, string list) ioe" where
  "dockerEngine_NativePlatforms D = io_bind (docker_once D) (\<lambda>_. io_bind self (\<lambda>r.
     ret (with_err (dke_platformsErr r) ([] @ dke_nativePlatforms r))))"

definition dockerEngine_EmulatedPlatforms :: "'x docker_api \<Rightarrow> (dockerEngine \<times> 'x, string list) ioe" where
  "dockerEngine_EmulatedPlatforms D = io_bind (docker_once D) (\<lambda>_. io_bind self (\<lambda>r.
     ret (with_err (dke_platformsErr r) [])))"

definition dockerEngine_Status :: "'x docker_api \<Rightarrow> (dockerEngine \<times> 'x, unit) ioe" where
  "dockerEngine_Status D = io_bind self (\<lambda>r. sys (da_Ping D (dke_client r)))"

subsection \<open>Build\<close>

text \<open>The loop over \<open>options.Labels\<close>.\<close>

fun docker_labels :: "string list \<Rightarrow> string_map \<Rightarrow> error + string_map" where
  "docker_labels [] labelsMap = Inr labelsMap"
| "docker_labels (label # labels) labelsMap =
     (case str_splitn (CHR ''='') 2 label of
        [k, v] \<Rightarrow> docker_labels labels (mput k v labelsMap)
      | [k] \<Rightarrow> docker_labels labels (mput k [] labelsMap)
      | _ \<Rightarrow> Inl (Errorf ''parsing requested label %q'' [AStr label]))"

definition byte_limits :: "string list" where
  "byte_limits = [''core'', ''fsize'', ''memlock'', ''data'', ''rss'', ''stack'']"

definition count_limits :: "string list" where
  "count_limits = [''cpu'', ''locks'', ''msgqueue'', ''nice'', ''nofile'', ''nproc'', ''rtprio'',
     ''rttime'', ''sigpending'']"

text \<open>\<open>strconv.ParseInt(s, 10, 64)\<close>; the text of its error is not modelled.\<close>

definition parse_i64 :: "string \<Rightarrow> error + i64" where
  "parse_i64 s = (case parse_int 64 s of
      None \<Rightarrow> Inl (ExtE ''strconv.ParseInt'')
    | Some n \<Rightarrow> Inr (word_of_int n))"

definition soft_hard :: "(string \<Rightarrow> error + i64) \<Rightarrow> string \<Rightarrow> string \<Rightarrow> arg list \<Rightarrow> arg list \<Rightarrow>
    string \<Rightarrow> string \<Rightarrow> error + i64 \<times> i64" where
  "soft_hard parse fs fh sargs hargs softString hardString =
     (case parse softString of
        Inl e \<Rightarrow> Inl (WrapE fs sargs e)
      | Inr soft \<Rightarrow> (case parse hardString of
            Inl e \<Rightarrow> Inl (WrapE fh hargs e)
          | Inr hard \<Rightarrow> Inr (soft, hard)))"

text \<open>The values of one limit: sizes, numbers, or zero for a name in neither list.\<close>

definition limit_values :: "(string \<Rightarrow> error + i64) \<Rightarrow> string \<Rightarrow> string \<Rightarrow> string \<Rightarrow> error + i64 \<times> i64" where
  "limit_values ram u softString hardString =
     (if u \<in> set byte_limits
      then soft_hard ram ''parsing requested soft %q limit %q: %w'' ''parsing requested hard %q limit %q: %w''
             [AStr u, AStr softString] [AStr u, AStr hardString] softString hardString
      else if u \<in> set count_limits
      then soft_hard parse_i64 ''parsing soft %q limit: %w'' ''parsing hard %q limit: %w''
             [AStr u] [AStr u] softString hardString
      else Inr (0, 0))"

text \<open>The body of the loop over \<open>options.Ulimit\<close>.\<close>

definition docker_ulimit :: "(string \<Rightarrow> error + i64) \<Rightarrow> string \<Rightarrow> error + ULimit" where
  "docker_ulimit ram ulimit =
     (case str_splitn (CHR ''='') 2 ulimit of
        [u, spec] \<Rightarrow>
          (let v = str_splitn (CHR '':'') 2 spec;
               softString = v ! 0;
               hardString = (if length v > 1 then v ! 1 else v ! 0)
           in map_sum id (\<lambda>sh. \<lparr>ul_Name = u, ul_Soft = fst sh, ul_Hard = snd sh\<rparr>)
                (limit_values ram u softString hardString))
      | _ \<Rightarrow> Inl (Errorf ''parsing ulimit %q: expected \"limit=soft[:hard]\"'' [AStr ulimit]))"

fun docker_ulimits :: "(string \<Rightarrow> error + i64) \<Rightarrow> string list \<Rightarrow> error + ULimit list" where
  "docker_ulimits ram [] = Inr []"
| "docker_ulimits ram (u # us) =
     (case docker_ulimit ram u of
        Inl e \<Rightarrow> Inl e
      | Inr l \<Rightarrow> map_sum id (\<lambda>ls. l # ls) (docker_ulimits ram us))"

text \<open>
  \<open>Build\<close>. The variable \<open>report\<close> is never assigned, so \<open>report.ID\<close> dereferences nil after the
  engine has built the image; the deferred \<open>rc.Close()\<close> runs first.
\<close>

definition dockerEngine_Build ::
    "'x docker_api \<Rightarrow> string \<Rightarrow> string list \<Rightarrow> BuildOptions \<Rightarrow> (dockerEngine \<times> 'x, BuildReport) ioe" where
  "dockerEngine_Build D reference containerFiles options = io_bind self (\<lambda>r.
     let dockerfile = (case containerFiles of [] \<Rightarrow> [] | f # _ \<Rightarrow> f)
     in case docker_labels (bo_Labels options) [] of
       Inl e \<Rightarrow> ret (Inl e)
     | Inr labelsMap \<Rightarrow> (case da_RAMInBytes D (bo_ShmSize options) of
       Inl _ \<Rightarrow> ret (Inl (Errorf ''parsing requested shmsize %q'' [AStr (bo_ShmSize options)]))
     | Inr shmSize \<Rightarrow> (case docker_ulimits (da_RAMInBytes D) (bo_Ulimit options) of
       Inl e \<Rightarrow> ret (Inl e)
     | Inr ulimits \<Rightarrow>
         try_bind (wrap_err (WrapE ''archiving %q: %w'' [AStr (bo_ContextDirectory options)])
             (sys (da_Tar D (bo_ContextDirectory options)))) (\<lambda>rc.
         defer_io (outside (da_close_stream D rc))
           (let plat = dke_os r @ ''/'' @ dke_arch r @ (if dke_variant r \<noteq> [] then ''/'' @ dke_variant r else []);
                buildOptions = \<lparr>
                  di_Name = reference, di_InputStream = rc, di_Platform = plat,
                  di_ContextDir = bo_ContextDirectory options, di_Dockerfile = dockerfile,
                  di_RmTmpContainer = bo_RemoveIntermediateContainers options,
                  di_ForceRmTmpContainer = bo_ForceRemoveIntermediateContainers options,
                  di_ExtraHosts = [], di_CacheFrom = [], di_Labels = labelsMap,
                  di_Memory = bo_Memory options, di_Memswap = bo_MemorySwap options,
                  di_ShmSize = shmSize, di_CPUShares = bo_CPUShares options,
                  di_CPUQuota = bo_CPUQuota options, di_CPUPeriod = bo_CPUPeriod options,
                  di_CPUSetCPUs = bo_CPUSetCPUs options, di_CgroupParent = bo_CgroupParent options,
                  di_NoCache = bo_NoCache options, di_SuppressOutput = bo_Quiet options,
                  di_Pull = bo_Pull options,
                  di_BuildArgs = (case bo_Args options of None \<Rightarrow> [] | Some m \<Rightarrow> m),
                  di_Ulimits = ulimits\<rparr>
            in try_bind (wrap_err (WrapE ''building for %v on %q: %w'' [AStr plat, AStr (dke_name r)])
                  (sys (da_BuildImage D (dke_client r) buildOptions))) (\<lambda>_. panic nil_deref))))))"

subsection \<open>Images\<close>

text \<open>\<open>PullToFile\<close>: the file is closed, then removed if the method returns an error.\<close>

definition dockerEngine_PullToFile :: "'x docker_api \<Rightarrow> PullToFileOptions \<Rightarrow> (dockerEngine \<times> 'x, string) ioe" where
  "dockerEngine_PullToFile D options = io_bind self (\<lambda>r.
     try_bind (sys (da_Create D (pf_SaveFile options))) (\<lambda>tempFile.
     io_bind (defer_io (outside (da_close D tempFile))
         (try_bind (wrap_err (WrapE ''saving image %q: %w'' [AStr (pf_ImageID options)])
             (sys (da_ExportImage D (dke_client r) (pf_ImageID options) tempFile))) (\<lambda>_.
          ret (Inr (pf_SaveFormat options @ '':'' @ pf_SaveFile options))))) (\<lambda>res.
     case res of
       Inl e \<Rightarrow> defer_io (outside (da_os_Remove D tempFile)) (ret (Inl e))
     | Inr v \<Rightarrow> ret (Inr v))))"

definition dockerEngine_PullToLocal :: "'x docker_api \<Rightarrow> PullToLocalOptions \<Rightarrow> (dockerEngine \<times> 'x, string) ioe" where
  "dockerEngine_PullToLocal D options = io_bind self (\<lambda>r.
     case pl_Destination options of
       None \<Rightarrow> ret (Inl (ErrNew ''internal error: options.Destination not set''))
     | Some d \<Rightarrow> try_bind (sys (da_TempFile D)) (\<lambda>tempFile.
         defer_io (outside (da_os_Remove D tempFile)) (defer_io (outside (da_close D tempFile))
           (try_bind (wrap_err (WrapE ''saving image %q to temporary file: %w'' [AStr (pl_ImageID options)])
               (sys (da_ExportImage D (dke_client r) (pl_ImageID options) tempFile))) (\<lambda>_.
            try_bind (wrap_err (WrapE ''loading image %q: %w'' [AStr (pl_ImageID options)])
               (sys (da_Load D d tempFile))) (\<lambda>_.
            ret (Inr (storage_ref (pl_ImageID options)))))))))"

definition dockerEngine_RemoveImage :: "'x docker_api \<Rightarrow> RemoveImageOptions \<Rightarrow> (dockerEngine \<times> 'x, unit) ioe" where
  "dockerEngine_RemoveImage D options = io_bind self (\<lambda>r.
     wrap_err (WrapE ''removing intermediate image %q from remote %q: %w'' [AStr (rm_ImageID options), AStr (dke_name r)])
       (sys (da_RemoveImage D (dke_client r) (rm_ImageID options))))"

definition prune_filters :: "bool \<Rightarrow> (string \<times> string list) list" where
  "prune_filters allImages = [(''force'', [''true'']), (''all'', [bool_str allImages]),
     (''dangling'', [bool_str (\<not> allImages)])]"

definition dockerEngine_PruneImages :: "'x docker_api \<Rightarrow> PruneImageOptions \<Rightarrow> (dockerEngine \<times> 'x, PruneImageReport) ioe" where
  "dockerEngine_PruneImages D options = io_bind self (\<lambda>r.
     try_bind (wrap_err (WrapE ''removing unused images from remote %q: %w'' [AStr (dke_name r)])
         (sys (da_PruneImages D (dke_client r) (prune_filters (pr_All options))))) (\<lambda>deleted.
     ret (Inr \<lparr>ImageIDs = filter (\<lambda>d. d \<noteq> []) deleted, ImageNames = []\<rparr>)))"

section \<open>Laws\<close>

definition docker_settled :: "dockerEngine \<Rightarrow> (error + Info) option" where
  "docker_settled r = (if dke_once r
     then Some (with_err (dke_platformsErr r) \<lparr>NativePlatforms = dke_nativePlatforms r, EmulatedPlatforms = []\<rparr>)
     else None)"

lemma keeps_docker_fetchInfo [keeps_intros]: "keeps (dockerEngine_fetchInfo D)"
  unfolding dockerEngine_fetchInfo_def prod.case_eq_if by (intro keeps_intros)

lemma docker_once_Ret:
  assumes "docker_once D (r, x) = (Ret u, (r', x'))"
  shows "dke_once r'" and "dke_name r' = dke_name r"
proof -
  have "fst rx = r" if "dockerEngine_fetchInfo D (r, x) = (i, rx)" for i rx
    using keepsD [OF keeps_docker_fetchInfo that] by simp
  with assms show "dke_once r'" "dke_name r' = dke_name r"
    by (auto simp: docker_once_def io_bind_RetE self_Ret split: if_splits)
qed

lemma docker_once_done [simp]: "dke_once r \<Longrightarrow> docker_once D (r, x) = (Ret (), (r, x))"
  by (simp add: docker_once_def)

lemma dockerEngine_keeps [keeps_intros]:
  "keeps dockerEngine_Name" "keeps dockerEngine_Driver" "keeps dockerEngine_Done"
  "keeps (dockerEngine_Status D)" "keeps (dockerEngine_Build D ref files options)"
  "keeps (dockerEngine_PullToFile D pf)" "keeps (dockerEngine_PullToLocal D pl)"
  "keeps (dockerEngine_RemoveImage D rm)" "keeps (dockerEngine_PruneImages D pr)"
  unfolding dockerEngine_Name_def dockerEngine_Driver_def dockerEngine_Done_def dockerEngine_Status_def
    dockerEngine_Build_def dockerEngine_PullToFile_def dockerEngine_PullToLocal_def
    dockerEngine_RemoveImage_def dockerEngine_PruneImages_def Let_def
  by (intro keeps_intros)+

lemma stable_docker_once [stable_intros]: "stable docker_settled (docker_once D)"
  by (auto simp: stable_def docker_settled_def)

lemma dockerEngine_stable [stable_intros]:
  "stable docker_settled (dockerEngine_Info D)" "stable docker_settled (dockerEngine_NativePlatforms D)"
  "stable docker_settled (dockerEngine_EmulatedPlatforms D)"
  unfolding dockerEngine_Info_def dockerEngine_NativePlatforms_def dockerEngine_EmulatedPlatforms_def
  by (intro stable_intros keeps_intros)+

lemma dockerEngine_Info_settles:
  assumes "dockerEngine_Info D (r, x) = (Ret i, (r', x'))"
  shows "docker_settled r' = Some i"
  using assms
  by (auto simp: dockerEngine_Info_def io_bind_RetE self_Ret docker_settled_def dest: docker_once_Ret(1))

lemma dockerEngine_NativePlatforms_settles:
  assumes "dockerEngine_NativePlatforms D (r, x) = (Ret v, (r', x'))"
  shows "\<exists>i. docker_settled r' = Some i \<and> v = map_sum id NativePlatforms i"
  using assms
  by (auto simp: dockerEngine_NativePlatforms_def io_bind_RetE self_Ret docker_settled_def with_err_def
      dest: docker_once_Ret(1) split: option.splits)

lemma dockerEngine_EmulatedPlatforms_settles:
  assumes "dockerEngine_EmulatedPlatforms D (r, x) = (Ret v, (r', x'))"
  shows "\<exists>i. docker_settled r' = Some i \<and> v = map_sum id EmulatedPlatforms i"
  using assms
  by (auto simp: dockerEngine_EmulatedPlatforms_def io_bind_RetE self_Ret docker_settled_def with_err_def
      dest: docker_once_Ret(1) split: option.splits)

end
