(* ===== verification/Image_Builder.thy ===== *)
theory Image_Builder
  imports Docker_Engine
begin

text \<open>
  The interface \<open>ImageBuilder\<close> of \<open>types.go\<close>: the record of its methods over a type of builders
  and a world; what the farm relies on of an implementation, as a locale; and the three
  implementations of the repository behind one interface: objects in a heap, a builder being
  the address of one, and every method call dispatched on the object at that address.
\<close>

section \<open>The interface\<close>

record ('b, 'w) ImageBuilder =
  ib_Driver :: "'b \<Rightarrow> ('w, string) io"
  ib_Name :: "'b \<Rightarrow> ('w, string) io"
  ib_Status :: "'b \<Rightarrow> ('w, unit) ioe"
  ib_Info :: "'b \<Rightarrow> ('w, Info) ioe"
  ib_NativePlatforms :: "'b \<Rightarrow> ('w, string list) ioe"
  ib_EmulatedPlatforms :: "'b \<Rightarrow> ('w, string list) ioe"
  ib_Build :: "'b \<Rightarrow> string \<Rightarrow> string list \<Rightarrow> BuildOptions \<Rightarrow> ('w, BuildReport) ioe"
  ib_PullToFile :: "'b \<Rightarrow> PullToFileOptions \<Rightarrow> ('w, string) ioe"
  ib_PullToLocal :: "'b \<Rightarrow> PullToLocalOptions \<Rightarrow> ('w, string) ioe"
  ib_RemoveImage :: "'b \<Rightarrow> RemoveImageOptions \<Rightarrow> ('w, unit) ioe"
  ib_PruneImages :: "'b \<Rightarrow> PruneImageOptions \<Rightarrow> ('w, PruneImageReport) ioe"
  ib_Done :: "'b \<Rightarrow> ('w, unit) ioe"

text \<open>
  From one world to a later one, builders that exist go on existing under the same name, and
  an answer of \<open>Info\<close> that is settled stays.
\<close>

definition later :: "('w \<Rightarrow> 'b \<Rightarrow> bool) \<Rightarrow> ('w \<Rightarrow> 'b \<Rightarrow> string) \<Rightarrow> ('w \<Rightarrow> 'b \<Rightarrow> (error + Info) option) \<Rightarrow>
    'w \<Rightarrow> 'w \<Rightarrow> bool" where
  "later valid name settled w w' \<longleftrightarrow> (\<forall>b. valid w b \<longrightarrow> valid w' b \<and> name w' b = name w b \<and>
     (\<forall>v. settled w b = Some v \<longrightarrow> settled w' b = Some v))"

text \<open>
  The contract. \<open>settled w b\<close> is the answer that \<open>b\<close> has cached, if any. The platform methods
  agree with it, and no method of any builder changes it.
\<close>

locale image_builders =
  fixes ops :: "('b, 'w) ImageBuilder"
    and valid :: "'w \<Rightarrow> 'b \<Rightarrow> bool"
    and name :: "'w \<Rightarrow> 'b \<Rightarrow> string"
    and settled :: "'w \<Rightarrow> 'b \<Rightarrow> (error + Info) option"
  assumes Name_eq: "valid w b \<Longrightarrow> ib_Name ops b w = (Ret (name w b), w)"
    and Info_settles: "valid w b \<Longrightarrow> ib_Info ops b w = (Ret r, w') \<Longrightarrow> settled w' b = Some r"
    and Info_cached: "valid w b \<Longrightarrow> settled w b = Some r \<Longrightarrow> ib_Info ops b w = (Ret r, w)"
    and Native_settles: "valid w b \<Longrightarrow> ib_NativePlatforms ops b w = (Ret ps, w') \<Longrightarrow>
      \<exists>i. settled w' b = Some i \<and> ps = map_sum id NativePlatforms i"
    and Emulated_settles: "valid w b \<Longrightarrow> ib_EmulatedPlatforms ops b w = (Ret ps, w') \<Longrightarrow>
      \<exists>i. settled w' b = Some i \<and> ps = map_sum id EmulatedPlatforms i"
    and Status_later: "valid w b \<Longrightarrow> ib_Status ops b w = (o1, w') \<Longrightarrow> later valid name settled w w'"
    and Info_later: "valid w b \<Longrightarrow> ib_Info ops b w = (o2, w') \<Longrightarrow> later valid name settled w w'"
    and Native_later: "valid w b \<Longrightarrow> ib_NativePlatforms ops b w = (o3, w') \<Longrightarrow> later valid name settled w w'"
    and Emulated_later: "valid w b \<Longrightarrow> ib_EmulatedPlatforms ops b w = (o3, w') \<Longrightarrow> later valid name settled w w'"
    and Build_later: "valid w b \<Longrightarrow> ib_Build ops b ref files bo w = (o4, w') \<Longrightarrow> later valid name settled w w'"
    and PullToFile_later: "valid w b \<Longrightarrow> ib_PullToFile ops b pf w = (o5, w') \<Longrightarrow> later valid name settled w w'"
    and PullToLocal_later: "valid w b \<Longrightarrow> ib_PullToLocal ops b pl w = (o5, w') \<Longrightarrow> later valid name settled w w'"
    and RemoveImage_later: "valid w b \<Longrightarrow> ib_RemoveImage ops b rm w = (o1, w') \<Longrightarrow> later valid name settled w w'"
    and PruneImages_later: "valid w b \<Longrightarrow> ib_PruneImages ops b pr w = (o6, w') \<Longrightarrow> later valid name settled w w'"
    and Done_later: "valid w b \<Longrightarrow> ib_Done ops b w = (o1, w') \<Longrightarrow> later valid name settled w w'"
begin

lemma later_refl: "later valid name settled w w"
  by (simp add: later_def)

lemma later_trans:
  "later valid name settled w1 w2 \<Longrightarrow> later valid name settled w2 w3 \<Longrightarrow> later valid name settled w1 w3"
  by (simp add: later_def)

lemma later_valid: "later valid name settled w w' \<Longrightarrow> valid w b \<Longrightarrow> valid w' b"
  by (simp add: later_def)

lemma later_name: "later valid name settled w w' \<Longrightarrow> valid w b \<Longrightarrow> name w' b = name w b"
  by (simp add: later_def)

lemma later_settled:
  "later valid name settled w w' \<Longrightarrow> valid w b \<Longrightarrow> settled w b = Some v \<Longrightarrow> settled w' b = Some v"
  by (simp add: later_def)

end

section \<open>Objects\<close>

datatype builder_object = LocalObj podmanLocal | RemoteObj podmanRemote | DockerObj dockerEngine

type_synonym builder = nat

record 'x farm_world =
  heap :: "builder_object list"
  ext :: 'x

text \<open>A method call through the interface: the method of the object's type runs on its fields.\<close>

definition dispatch :: "(podmanLocal \<times> 'x, 'a) io \<Rightarrow> (podmanRemote \<times> 'x, 'a) io \<Rightarrow> (dockerEngine \<times> 'x, 'a) io \<Rightarrow>
    builder \<Rightarrow> ('x farm_world, 'a) io" where
  "dispatch ml mr md b w =
     (if b < length (heap w) then
        (case heap w ! b of
           LocalObj l \<Rightarrow> (case ml (l, ext w) of (r, l', x') \<Rightarrow>
             (r, w\<lparr>heap := (heap w)[b := LocalObj l'], ext := x'\<rparr>))
         | RemoteObj l \<Rightarrow> (case mr (l, ext w) of (r, l', x') \<Rightarrow>
             (r, w\<lparr>heap := (heap w)[b := RemoteObj l'], ext := x'\<rparr>))
         | DockerObj l \<Rightarrow> (case md (l, ext w) of (r, l', x') \<Rightarrow>
             (r, w\<lparr>heap := (heap w)[b := DockerObj l'], ext := x'\<rparr>)))
      else (Panic nil_deref, w))"

definition builders :: "'x podman_api \<Rightarrow> 'x docker_api \<Rightarrow> (builder, 'x farm_world) ImageBuilder" where
  "builders A D = \<lparr>
     ib_Driver = dispatch podmanLocal_Driver podmanRemote_Driver dockerEngine_Driver,
     ib_Name = dispatch podmanLocal_Name podmanRemote_Name dockerEngine_Name,
     ib_Status = dispatch (podmanLocal_Status A) (podmanRemote_Status A) (dockerEngine_Status D),
     ib_Info = dispatch (podmanLocal_Info A) (podmanRemote_Info A) (dockerEngine_Info D),
     ib_NativePlatforms = dispatch (podmanLocal_NativePlatforms A) (podmanRemote_NativePlatforms A)
       (dockerEngine_NativePlatforms D),
     ib_EmulatedPlatforms = dispatch (podmanLocal_EmulatedPlatforms A) (podmanRemote_EmulatedPlatforms A)
       (dockerEngine_EmulatedPlatforms D),
     ib_Build = (\<lambda>b ref files options. dispatch (podmanLocal_Build A ref files options)
       (podmanRemote_Build A ref files options) (dockerEngine_Build D ref files options) b),
     ib_PullToFile = (\<lambda>b options. dispatch (podmanLocal_PullToFile A options)
       (podmanRemote_PullToFile A options) (dockerEngine_PullToFile D options) b),
     ib_PullToLocal = (\<lambda>b options. dispatch (podmanLocal_PullToLocal A options)
       (podmanRemote_PullToLocal A options) (dockerEngine_PullToLocal D options) b),
     ib_RemoveImage = (\<lambda>b options. dispatch (podmanLocal_RemoveImage A options)
       (podmanRemote_RemoveImage A options) (dockerEngine_RemoveImage D options) b),
     ib_PruneImages = (\<lambda>b options. dispatch (podmanLocal_PruneImages A options)
       (podmanRemote_PruneImages A options) (dockerEngine_PruneImages D options) b),
     ib_Done = dispatch podmanLocal_Done (podmanRemote_Done A) dockerEngine_Done\<rparr>"

text \<open>A constructor call: the new object gets the next address.\<close>

definition alloc :: "('a \<Rightarrow> builder_object) \<Rightarrow> (unit \<times> 'x, 'a) ioe \<Rightarrow> ('x farm_world, builder) ioe" where
  "alloc mk m w = (case m ((), ext w) of
      (Ret (Inr a), _, x) \<Rightarrow> (Ret (Inr (length (heap w))), w\<lparr>heap := heap w @ [mk a], ext := x\<rparr>)
    | (Ret (Inl e), _, x) \<Rightarrow> (Ret (Inl e), w\<lparr>ext := x\<rparr>)
    | (Panic s, _, x) \<Rightarrow> (Panic s, w\<lparr>ext := x\<rparr>)
    | (Blocked, _, x) \<Rightarrow> (Blocked, w\<lparr>ext := x\<rparr>))"

definition object_name :: "builder_object \<Rightarrow> string" where
  "object_name ob = (case ob of
     LocalObj l \<Rightarrow> LocalImageBuilderName | RemoteObj r \<Rightarrow> pmr_name r | DockerObj d \<Rightarrow> dke_name d)"

definition object_settled :: "builder_object \<Rightarrow> (error + Info) option" where
  "object_settled ob = (case ob of
     LocalObj l \<Rightarrow> local_settled l | RemoteObj r \<Rightarrow> remote_settled r | DockerObj d \<Rightarrow> docker_settled d)"

definition is_builder :: "'x farm_world \<Rightarrow> builder \<Rightarrow> bool" where
  "is_builder w b \<longleftrightarrow> b < length (heap w)"

definition builder_name :: "'x farm_world \<Rightarrow> builder \<Rightarrow> string" where
  "builder_name w b = object_name (heap w ! b)"

definition builder_info :: "'x farm_world \<Rightarrow> builder \<Rightarrow> (error + Info) option" where
  "builder_info w b = object_settled (heap w ! b)"

abbreviation later_world :: "'x farm_world \<Rightarrow> 'x farm_world \<Rightarrow> bool" where
  "later_world \<equiv> later is_builder builder_name builder_info"

section \<open>The objects keep the contract\<close>

text \<open>The name of an object never changes; \<open>Some\<close> because the stability rules speak of options.\<close>

definition remote_name :: "podmanRemote \<Rightarrow> string option" where
  "remote_name r = Some (pmr_name r)"

definition docker_name :: "dockerEngine \<Rightarrow> string option" where
  "docker_name r = Some (dke_name r)"

lemma stable_name_once [stable_intros]:
  "stable remote_name (remote_once A)" "stable docker_name (docker_once D)"
  unfolding remote_once_def docker_once_def
  by (intro stable_io_bind stable_if stable_keeps [OF keeps_self] stable_keeps [OF keeps_ret]
        stable_keeps [OF keeps_remote_fetchInfo] stable_keeps [OF keeps_docker_fetchInfo],
      simp add: stable_def remote_name_def docker_name_def split: prod.splits)+

lemma podmanRemote_name_stable [stable_intros]:
  "stable remote_name (podmanRemote_Info A)" "stable remote_name (podmanRemote_NativePlatforms A)"
  "stable remote_name (podmanRemote_EmulatedPlatforms A)" "stable remote_name (podmanRemote_Status A)"
  unfolding podmanRemote_Info_def podmanRemote_NativePlatforms_def podmanRemote_EmulatedPlatforms_def
    podmanRemote_Status_def
  by (intro stable_intros keeps_intros)+

lemma podmanRemote_Done_name [stable_intros]: "stable remote_name (podmanRemote_Done A)"
  by (auto simp: stable_def remote_name_def podmanRemote_Done_def split: option.splits)

lemma dockerEngine_name_stable [stable_intros]:
  "stable docker_name (dockerEngine_Info D)" "stable docker_name (dockerEngine_NativePlatforms D)"
  "stable docker_name (dockerEngine_EmulatedPlatforms D)"
  unfolding dockerEngine_Info_def dockerEngine_NativePlatforms_def dockerEngine_EmulatedPlatforms_def
  by (intro stable_intros keeps_intros)+

text \<open>A call dispatched to stable methods leads to a later world.\<close>

lemma dispatch_later:
  assumes "dispatch ml mr md b w = (r, w')" and "stable local_settled ml"
    and "stable remote_settled mr" "stable remote_name mr"
    and "stable docker_settled md" "stable docker_name md"
  shows "later_world w w'"
proof (cases "b < length (heap w)")
  case True
  have "length (heap w') = length (heap w)" "\<And>c. c \<noteq> b \<Longrightarrow> heap w' ! c = heap w ! c"
    using assms(1) True by (auto simp: dispatch_def split: builder_object.splits prod.splits)
  moreover have "object_name (heap w' ! b) = object_name (heap w ! b) \<and>
      (\<forall>v. object_settled (heap w ! b) = Some v \<longrightarrow> object_settled (heap w' ! b) = Some v)"
    using assms True
    by (cases "heap w ! b")
       (auto simp: dispatch_def object_name_def object_settled_def remote_name_def docker_name_def
        split: prod.splits dest: stableD)
  ultimately show ?thesis
    unfolding later_def is_builder_def builder_name_def builder_info_def by metis
qed (use assms(1) in \<open>simp add: dispatch_def later_def\<close>)

lemma dispatch_settles:
  assumes "dispatch ml mr md b w = (Ret r, w')" and "is_builder w b"
    and "\<And>l x l' x'. ml (l, x) = (Ret r, l', x') \<Longrightarrow> P r (local_settled l')"
    and "\<And>l x l' x'. mr (l, x) = (Ret r, l', x') \<Longrightarrow> P r (remote_settled l')"
    and "\<And>l x l' x'. md (l, x) = (Ret r, l', x') \<Longrightarrow> P r (docker_settled l')"
  shows "P r (builder_info w' b)"
  using assms
  by (auto simp: dispatch_def is_builder_def builder_info_def object_settled_def
      split: builder_object.splits prod.splits)

lemma builders_simps [simp]:
  "ib_Driver (builders A D) = dispatch podmanLocal_Driver podmanRemote_Driver dockerEngine_Driver"
  "ib_Name (builders A D) = dispatch podmanLocal_Name podmanRemote_Name dockerEngine_Name"
  "ib_Status (builders A D) = dispatch (podmanLocal_Status A) (podmanRemote_Status A) (dockerEngine_Status D)"
  "ib_Info (builders A D) = dispatch (podmanLocal_Info A) (podmanRemote_Info A) (dockerEngine_Info D)"
  "ib_NativePlatforms (builders A D) = dispatch (podmanLocal_NativePlatforms A)
     (podmanRemote_NativePlatforms A) (dockerEngine_NativePlatforms D)"
  "ib_EmulatedPlatforms (builders A D) = dispatch (podmanLocal_EmulatedPlatforms A)
     (podmanRemote_EmulatedPlatforms A) (dockerEngine_EmulatedPlatforms D)"
  "ib_Build (builders A D) b ref files bo = dispatch (podmanLocal_Build A ref files bo)
     (podmanRemote_Build A ref files bo) (dockerEngine_Build D ref files bo) b"
  "ib_PullToFile (builders A D) b pf = dispatch (podmanLocal_PullToFile A pf)
     (podmanRemote_PullToFile A pf) (dockerEngine_PullToFile D pf) b"
  "ib_PullToLocal (builders A D) b pl = dispatch (podmanLocal_PullToLocal A pl)
     (podmanRemote_PullToLocal A pl) (dockerEngine_PullToLocal D pl) b"
  "ib_RemoveImage (builders A D) b rm = dispatch (podmanLocal_RemoveImage A rm)
     (podmanRemote_RemoveImage A rm) (dockerEngine_RemoveImage D rm) b"
  "ib_PruneImages (builders A D) b pr = dispatch (podmanLocal_PruneImages A pr)
     (podmanRemote_PruneImages A pr) (dockerEngine_PruneImages D pr) b"
  "ib_Done (builders A D) = dispatch podmanLocal_Done (podmanRemote_Done A) dockerEngine_Done"
  by (simp_all add: builders_def)

lemma world_unchanged: "heap w ! b = ob \<Longrightarrow> w\<lparr>heap := (heap w)[b := ob], ext := ext w\<rparr> = w"
  by (drule sym) simp

lemma Name_builders:
  "is_builder w b \<Longrightarrow> dispatch podmanLocal_Name podmanRemote_Name dockerEngine_Name b w =
     (Ret (builder_name w b), w)"
  by (cases "heap w ! b")
     (simp_all add: dispatch_def is_builder_def builder_name_def object_name_def podmanLocal_Name_def
      podmanRemote_Name_def dockerEngine_Name_def world_unchanged)

lemma Info_builders_cached:
  "is_builder w b \<Longrightarrow> builder_info w b = Some r \<Longrightarrow>
     dispatch (podmanLocal_Info A) (podmanRemote_Info A) (dockerEngine_Info D) b w = (Ret r, w)"
  by (cases "heap w ! b")
     (auto simp: dispatch_def is_builder_def builder_info_def object_settled_def local_settled_def
      remote_settled_def docker_settled_def podmanLocal_Info_def podmanRemote_Info_def
      dockerEngine_Info_def world_unchanged split: if_splits)

interpretation objs: image_builders "builders A D" is_builder builder_name builder_info for A D
proof (unfold_locales, goal_cases)
  case 1
  then show ?case by (simp add: Name_builders)
next
  case 2
  then show ?case
    by (auto elim!: dispatch_settles [where P = "\<lambda>r s. s = Some r"]
        dest: podmanLocal_Info_settles podmanRemote_Info_settles dockerEngine_Info_settles)
next
  case 3
  then show ?case by (simp add: Info_builders_cached)
next
  case 4
  then show ?case
    by (auto elim!: dispatch_settles [where P = "\<lambda>r s. \<exists>i. s = Some i \<and> r = map_sum id NativePlatforms i"]
        dest: podmanLocal_NativePlatforms_settles podmanRemote_NativePlatforms_settles
          dockerEngine_NativePlatforms_settles)
next
  case 5
  then show ?case
    by (auto elim!: dispatch_settles [where P = "\<lambda>r s. \<exists>i. s = Some i \<and> r = map_sum id EmulatedPlatforms i"]
        dest: podmanLocal_EmulatedPlatforms_settles podmanRemote_EmulatedPlatforms_settles
          dockerEngine_EmulatedPlatforms_settles)
qed (simp, erule dispatch_later; intro stable_intros keeps_intros)+

end
