(* ===== verification/Fork_Join.thy ===== *)
theory Fork_Join
  imports Farm_Prelude
begin

text \<open>
  The concurrency pattern of the program: \<open>multierror.Group\<close>
  (\<open>vendor/github.com/hashicorp/go-multierror/group.go\<close>). A loop starts one goroutine per key
  with \<open>Go\<close>; every goroutine makes a call, then, holding a mutex, updates data the goroutines
  share, and returns an error or nil; the group appends the error to its multierror, again
  under a mutex; \<open>Wait\<close> returns when all have returned.

  The state of a group holds the keys the loop still has to visit, the phase of every
  goroutine, the shared data and the world. The steps are: the loop starts the next goroutine
  (\<open>Spawn\<close>), a goroutine's call (\<open>Call\<close>), its critical section (\<open>Commit\<close>), the group's
  \<open>Append\<close> (\<open>Join\<close>). A list of steps is an interleaving; the theorems quantify over all of
  them. A call is one step: interleavings inside a call to an engine are not modelled. A list
  that is not an interleaving of the program, or that ends before \<open>Wait\<close> can return, gives
  \<open>Blocked\<close>; a panic in a goroutine ends the program and gives \<open>Panic\<close>.
\<close>

section \<open>The model\<close>

datatype 'r phase = Spawned | Called 'r | Returned "error option" | is_finished: Finished

datatype 'g event = Spawn | Call 'g | Commit 'g | Join 'g

text \<open>What the loop body does before \<open>Go\<close> (it may end the loop with an error), what the
  goroutine does outside of the mutex and what it does inside.\<close>

record ('k, 'g, 'r, 's, 'w) body =
  spawn :: "'k \<Rightarrow> ('w, 'g) ioe"
  call :: "'g \<Rightarrow> ('w, 'r) io"
  commit :: "'g \<Rightarrow> 'r \<Rightarrow> 's \<Rightarrow> 's \<times> error option"

record ('k, 'g, 'r, 's, 'w) group =
  todo :: "'k list"
  failed :: "error option"
  routines :: "('g \<times> 'r phase) list"
  shared :: 's
  world :: 'w
  group_err :: "error list"

definition group_init :: "'k list \<Rightarrow> 's \<Rightarrow> 'w \<Rightarrow> ('k, 'g, 'r, 's, 'w) group" where
  "group_init ks s w = \<lparr>todo = ks, failed = None, routines = [], shared = s, world = w, group_err = []\<rparr>"

definition join_err :: "error option \<Rightarrow> error list \<Rightarrow> error list" where
  "join_err e errs = (case e of None \<Rightarrow> errs | Some e \<Rightarrow> multi_append errs e)"

fun group_step :: "('k, 'g, 'r, 's, 'w) body \<Rightarrow> 'g event \<Rightarrow> (('k, 'g, 'r, 's, 'w) group, unit) io" where
  "group_step B Spawn g = (case todo g of
      [] \<Rightarrow> (Blocked, g)
    | k # ks \<Rightarrow> (case spawn B k (world g) of
          (Ret (Inr x), w) \<Rightarrow>
            (Ret (), g\<lparr>todo := ks, routines := routines g @ [(x, Spawned)], world := w\<rparr>)
        | (Ret (Inl e), w) \<Rightarrow> (Ret (), g\<lparr>todo := [], failed := Some e, world := w\<rparr>)
        | (Panic s, w) \<Rightarrow> (Panic s, g\<lparr>world := w\<rparr>)
        | (Blocked, w) \<Rightarrow> (Blocked, g\<lparr>world := w\<rparr>)))"
| "group_step B (Call x) g = (case map_of (routines g) x of
      Some Spawned \<Rightarrow> (case call B x (world g) of
          (Ret r, w) \<Rightarrow> (Ret (), g\<lparr>routines := mput x (Called r) (routines g), world := w\<rparr>)
        | (Panic s, w) \<Rightarrow> (Panic s, g\<lparr>world := w\<rparr>)
        | (Blocked, w) \<Rightarrow> (Blocked, g\<lparr>world := w\<rparr>))
    | _ \<Rightarrow> (Blocked, g))"
| "group_step B (Commit x) g = (case map_of (routines g) x of
      Some (Called r) \<Rightarrow> (case commit B x r (shared g) of
          (s, e) \<Rightarrow> (Ret (), g\<lparr>routines := mput x (Returned e) (routines g), shared := s\<rparr>))
    | _ \<Rightarrow> (Blocked, g))"
| "group_step B (Join x) g = (case map_of (routines g) x of
      Some (Returned e) \<Rightarrow>
        (Ret (), g\<lparr>routines := mput x Finished (routines g), group_err := join_err e (group_err g)\<rparr>)
    | _ \<Rightarrow> (Blocked, g))"

primrec group_run :: "('k, 'g, 'r, 's, 'w) body \<Rightarrow> 'g event list \<Rightarrow> (('k, 'g, 'r, 's, 'w) group, unit) io" where
  "group_run B [] = ret ()"
| "group_run B (ev # evs) = io_bind (group_step B ev) (\<lambda>_. group_run B evs)"

definition all_finished :: "('k, 'g, 'r, 's, 'w) group \<Rightarrow> bool" where
  "all_finished g \<longleftrightarrow> todo g = [] \<and> list_all (\<lambda>xp. is_finished (snd xp)) (routines g)"

text \<open>The loop and \<open>Wait\<close>: the error that ended the loop, the goroutines it started, the group's
  errors, the shared data.\<close>

definition fork_join :: "('k, 'g, 'r, 's, 'w) body \<Rightarrow> 'k list \<Rightarrow> 'g event list \<Rightarrow> 's \<Rightarrow>
    ('w, error option \<times> 'g list \<times> error list \<times> 's) io" where
  "fork_join B ks evs s w = (case group_run B evs (group_init ks s w) of
      (Ret _, g) \<Rightarrow> if all_finished g then (Ret (failed g, map fst (routines g), group_err g, shared g), world g)
                   else (Blocked, world g)
    | (Panic m, g) \<Rightarrow> (Panic m, world g)
    | (Blocked, g) \<Rightarrow> (Blocked, world g))"

text \<open>The plain loop \<open>for k := range ks { group.Go(...) }\<close>: starting a goroutine cannot fail.\<close>

definition plain_spawn :: "'k \<Rightarrow> ('w, 'k) ioe" where
  "plain_spawn k = ret (Inr k)"

lemma plain_spawn_simp [simp]: "plain_spawn k w = (Ret (Inr k), w)"
  by (simp add: plain_spawn_def)

section \<open>Reachable states\<close>

inductive reach :: "('k, 'g, 'r, 's, 'w) body \<Rightarrow> ('k, 'g, 'r, 's, 'w) group \<Rightarrow> ('k, 'g, 'r, 's, 'w) group \<Rightarrow> bool"
  for B g0 where
  reach_init: "reach B g0 g0"
| reach_step: "reach B g0 g \<Longrightarrow> group_step B ev g = (Ret (), g') \<Longrightarrow> reach B g0 g'"

inductive_cases reachE: "reach B g0 g"

lemma reach_run:
  assumes "reach B g0 g" and "group_run B evs g = (Ret u, g')"
  shows "reach B g0 g'"
  using assms
proof (induction evs arbitrary: g)
  case (Cons ev evs)
  then obtain u1 g1 where step: "group_step B ev g = (Ret u1, g1)"
    and run: "group_run B evs g1 = (Ret u, g')"
    by (auto simp: io_bind_RetE)
  from Cons.prems(1) step have "reach B g0 g1" by (auto intro: reach_step)
  with run show ?case by (rule Cons.IH [rotated])
qed simp

lemma fork_join_Ret:
  assumes "fork_join B ks evs s w = (Ret (f, R, errs, s'), w')"
  obtains g where "reach B (group_init ks s w) g" "all_finished g"
    "f = failed g" "R = map fst (routines g)" "errs = group_err g" "s' = shared g" "w' = world g"
  using assms reach_run [OF reach_init, of B evs "group_init ks s w"]
  by (auto simp: fork_join_def split: prod.splits outcome.splits if_splits)

text \<open>The four kinds of steps, as inversion rules.\<close>

lemma step_Spawn:
  "group_step B Spawn g = (Ret u, g') \<longleftrightarrow>
     (\<exists>k ks. todo g = k # ks \<and>
       ((\<exists>x w. spawn B k (world g) = (Ret (Inr x), w) \<and>
           g' = g\<lparr>todo := ks, routines := routines g @ [(x, Spawned)], world := w\<rparr>) \<or>
        (\<exists>e w. spawn B k (world g) = (Ret (Inl e), w) \<and>
           g' = g\<lparr>todo := [], failed := Some e, world := w\<rparr>)))"
  by (auto split: list.splits prod.splits outcome.splits sum.splits)

lemma step_Call:
  "group_step B (Call x) g = (Ret u, g') \<longleftrightarrow>
     (map_of (routines g) x = Some Spawned \<and> (\<exists>r w. call B x (world g) = (Ret r, w) \<and>
        g' = g\<lparr>routines := mput x (Called r) (routines g), world := w\<rparr>))"
  by (auto split: option.splits phase.splits prod.splits outcome.splits)

lemma step_Commit:
  "group_step B (Commit x) g = (Ret u, g') \<longleftrightarrow>
     (\<exists>r s e. map_of (routines g) x = Some (Called r) \<and> commit B x r (shared g) = (s, e) \<and>
        g' = g\<lparr>routines := mput x (Returned e) (routines g), shared := s\<rparr>)"
  by (auto split: option.splits phase.splits prod.splits)

lemma step_Join:
  "group_step B (Join x) g = (Ret u, g') \<longleftrightarrow>
     (\<exists>e. map_of (routines g) x = Some (Returned e) \<and>
        g' = g\<lparr>routines := mput x Finished (routines g), group_err := join_err e (group_err g)\<rparr>)"
  by (auto split: option.splits phase.splits)

lemmas step_iffs = step_Spawn step_Call step_Commit step_Join

section \<open>Commits in a sequence\<close>

text \<open>The reference: the critical sections one after the other, with the errors returned.\<close>

definition commit1 :: "('k, 'g, 'r, 's, 'w) body \<Rightarrow> 'g \<times> 'r \<Rightarrow> 's \<times> ('g \<times> error option) list \<Rightarrow>
    's \<times> ('g \<times> error option) list" where
  "commit1 B xr st = (case commit B (fst xr) (snd xr) (fst st) of
      (s, e) \<Rightarrow> (s, snd st @ [(fst xr, e)]))"

definition commits :: "('k, 'g, 'r, 's, 'w) body \<Rightarrow> ('g \<times> 'r) list \<Rightarrow> 's \<Rightarrow> 's \<times> ('g \<times> error option) list" where
  "commits B L s = fold (commit1 B) L (s, [])"

lemma commits_Nil [simp]: "commits B [] s = (s, [])"
  by (simp add: commits_def)

lemma commits_snoc:
  "commits B (L @ [(x, r)]) s = (case commits B L s of (s1, es) \<Rightarrow>
     (case commit B x r s1 of (s2, e) \<Rightarrow> (s2, es @ [(x, e)])))"
  by (simp add: commits_def commit1_def split: prod.splits)

lemma commits_keys [simp]: "map fst (snd (commits B L s)) = map fst L"
proof (induction L rule: rev_induct)
  case (snoc xr L)
  then show ?case
    by (cases xr) (auto simp: commits_snoc split: prod.splits)
qed simp

text \<open>When the error depends on the call's result only, so do the errors of a sequence.\<close>

lemma commits_errors:
  assumes "\<And>x r s. snd (commit B x r s) = err r"
  shows "snd (commits B L s) = map (\<lambda>(x, r). (x, err r)) L"
proof (induction L rule: rev_induct)
  case (snoc xr L)
  then show ?case using assms
    by (cases xr) (auto simp: commits_snoc split: prod.splits, metis snd_conv)
qed simp

lemma commits_keys' [simp]: "fst ` set (snd (commits B L s)) = fst ` set L"
  by (metis commits_keys set_map)

lemma map_of_snoc_fresh:
  "x \<notin> fst ` set es \<Longrightarrow> map_of (es @ [(x, e)]) = (map_of es)(x \<mapsto> e)"
  by (induction es) (auto simp: fun_eq_iff)

lemma map_of_commits_snoc:
  assumes "x \<notin> fst ` set L" and "commit B x r (fst (commits B L s)) = (s', e)"
  shows "map_of (snd (commits B (L @ [(x, r)]) s)) = (map_of (snd (commits B L s)))(x \<mapsto> e)"
proof -
  obtain s1 es where eq: "commits B L s = (s1, es)" by fastforce
  with assms(1) have fresh: "x \<notin> fst ` set es"
    using commits_keys' [of B L s] by simp
  from eq assms(2) show ?thesis
    by (simp add: commits_snoc map_of_snoc_fresh [OF fresh] del: map_of_append)
qed

section \<open>Every interleaving is a sequence of commits\<close>

text \<open>
  What the goroutines of a group need of the world: \<open>Inv\<close> holds at every step, \<open>Kn x r\<close> is
  what is known of the world after goroutine \<open>x\<close>'s call returned \<open>r\<close>, and no later step makes
  it false. \<open>Gen k x\<close> relates a key (of the keys \<open>K\<close>)
  to the goroutine the loop starts for it.
\<close>

locale fork_join_calls =
  fixes B :: "('k, 'g, 'r, 's, 'w) body"
    and K :: "'k set"
    and Inv :: "'w \<Rightarrow> bool"
    and Gen :: "'k \<Rightarrow> 'g \<Rightarrow> bool"
    and Kn :: "'g \<Rightarrow> 'r \<Rightarrow> 'w \<Rightarrow> bool"
  assumes spawn_Inv: "k \<in> K \<Longrightarrow> Inv w \<Longrightarrow> spawn B k w = (Ret v, w') \<Longrightarrow> Inv w'"
    and spawn_Gen: "k \<in> K \<Longrightarrow> Inv w \<Longrightarrow> spawn B k w = (Ret (Inr x), w') \<Longrightarrow> Gen k x"
    and spawn_Kn: "k \<in> K \<Longrightarrow> Inv w \<Longrightarrow> spawn B k w = (Ret v, w') \<Longrightarrow> Kn x r w \<Longrightarrow> Kn x r w'"
    and Gen_inj: "Gen k x \<Longrightarrow> Gen k' x \<Longrightarrow> k = k'"
    and call_Inv: "k \<in> K \<Longrightarrow> Inv w \<Longrightarrow> Gen k x \<Longrightarrow> call B x w = (Ret r, w') \<Longrightarrow> Inv w'"
    and call_Kn: "k \<in> K \<Longrightarrow> Inv w \<Longrightarrow> Gen k x \<Longrightarrow> call B x w = (Ret r, w') \<Longrightarrow> Kn x r w'"
    and call_keeps: "k \<in> K \<Longrightarrow> Inv w \<Longrightarrow> Gen k x \<Longrightarrow> call B x w = (Ret r, w') \<Longrightarrow> Kn y q w \<Longrightarrow> Kn y q w'"
begin

text \<open>The invariant: \<open>L\<close> is the order of the critical sections so far, \<open>J\<close> that of the joins.\<close>

definition inv_started :: "'k list \<Rightarrow> ('k, 'g, 'r, 's, 'w) group \<Rightarrow> bool" where
  "inv_started ks g \<longleftrightarrow> set ks \<subseteq> K \<and>
     (\<exists>started. list_all2 Gen started (map fst (routines g)) \<and> prefix (started @ todo g) ks \<and>
        (failed g = None \<longrightarrow> ks = started @ todo g))"

definition inv_known :: "('g \<times> 'r) list \<Rightarrow> ('k, 'g, 'r, 's, 'w) group \<Rightarrow> bool" where
  "inv_known L g \<longleftrightarrow> Inv (world g) \<and>
     (\<forall>x r. map_of (routines g) x = Some (Called r) \<longrightarrow> Kn x r (world g)) \<and>
     (\<forall>x r. (x, r) \<in> set L \<longrightarrow> Kn x r (world g))"

definition inv_log :: "('g \<times> 'r) list \<Rightarrow> 'g list \<Rightarrow> ('k, 'g, 'r, 's, 'w) group \<Rightarrow> bool" where
  "inv_log L J g \<longleftrightarrow> distinct (map fst L) \<and> distinct J \<and>
     (\<forall>x. x \<in> fst ` set L \<longleftrightarrow>
        (case map_of (routines g) x of Some (Returned e) \<Rightarrow> True | Some Finished \<Rightarrow> True | _ \<Rightarrow> False)) \<and>
     (\<forall>x. x \<in> set J \<longleftrightarrow> map_of (routines g) x = Some Finished)"

definition inv_commit :: "'s \<Rightarrow> ('g \<times> 'r) list \<Rightarrow> 'g list \<Rightarrow> ('k, 'g, 'r, 's, 'w) group \<Rightarrow> bool" where
  "inv_commit s0 L J g \<longleftrightarrow> shared g = fst (commits B L s0) \<and>
     (\<forall>x e. map_of (routines g) x = Some (Returned e) \<longrightarrow> map_of (snd (commits B L s0)) x = Some e) \<and>
     group_err g = fold (\<lambda>x. join_err (the (map_of (snd (commits B L s0)) x))) J []"

definition ginv :: "'k list \<Rightarrow> 's \<Rightarrow> ('g \<times> 'r) list \<Rightarrow> 'g list \<Rightarrow> ('k, 'g, 'r, 's, 'w) group \<Rightarrow> bool" where
  "ginv ks s0 L J g \<longleftrightarrow>
     inv_started ks g \<and> inv_known L g \<and> inv_log L J g \<and> inv_commit s0 L J g"

lemma ginv_init: "Inv w \<Longrightarrow> set ks \<subseteq> K \<Longrightarrow> ginv ks s [] [] (group_init ks s w)"
  by (simp add: ginv_def inv_started_def inv_known_def inv_log_def inv_commit_def group_init_def)

lemma Gen_distinct:
  assumes "list_all2 Gen ks xs" and "distinct ks"
  shows "distinct xs"
  using assms by (metis Gen_inj distinct_conv_nth list_all2_conv_all_nth)

lemma ginv_Spawn_ok:
  assumes inv: "ginv ks s0 L J g" and ks: "distinct ks" and td: "todo g = k # rest"
    and sp: "spawn B k (world g) = (Ret (Inr x), w)"
  shows "ginv ks s0 L J (g\<lparr>todo := rest, routines := routines g @ [(x, Spawned)], world := w\<rparr>)"
proof -
  from inv have Iw: "Inv (world g)" by (simp add: ginv_def inv_known_def)
  obtain started where K: "set ks \<subseteq> K" and st: "list_all2 Gen started (map fst (routines g))"
      "prefix (started @ k # rest) ks" "failed g = None \<longrightarrow> ks = started @ k # rest"
    using inv td by (auto simp: ginv_def inv_started_def)
  then have k: "k \<in> K" by (auto simp: prefix_def)
  note Iw' = spawn_Inv [OF k Iw sp] and Kn' = spawn_Kn [OF k Iw sp] and gen = spawn_Gen [OF k Iw sp]
  have "distinct (started @ k # rest)" using st(2) ks by (auto simp: prefix_def)
  then have fresh: "x \<notin> fst ` set (routines g)"
    using list_all2_memD [OF st(1), of x] gen Gen_inj by auto
  note upd = map_of_snoc_fresh [OF fresh, of Spawned]
  have None: "map_of (routines g) x = None" using fresh by (simp add: map_of_eq_None_iff)
  let ?g = "g\<lparr>todo := rest, routines := routines g @ [(x, Spawned)], world := w\<rparr>"
  have "inv_started ks ?g"
    unfolding inv_started_def using st gen K
    by (intro conjI exI [of _ "started @ [k]"]) (simp_all add: list_all2_appendI)
  moreover have "inv_known L ?g"
    using inv Iw' Kn' by (auto simp: ginv_def inv_known_def upd simp del: map_of_append)
  moreover have "inv_log L J ?g"
    using inv None by (auto simp: ginv_def inv_log_def upd simp del: map_of_append)
  moreover have "inv_commit s0 L J ?g"
    using inv None by (auto simp: ginv_def inv_commit_def upd simp del: map_of_append)
  ultimately show ?thesis by (simp add: ginv_def)
qed

lemma ginv_Spawn_failed:
  assumes inv: "ginv ks s0 L J g" and td: "todo g = k # rest"
    and sp: "spawn B k (world g) = (Ret (Inl e), w)"
  shows "ginv ks s0 L J (g\<lparr>todo := [], failed := Some e, world := w\<rparr>)"
proof -
  from inv have Iw: "Inv (world g)" by (simp add: ginv_def inv_known_def)
  have k: "k \<in> K" using inv td by (auto simp: ginv_def inv_started_def prefix_def)
  note Iw' = spawn_Inv [OF k Iw sp] and Kn' = spawn_Kn [OF k Iw sp]
  let ?g = "g\<lparr>todo := [], failed := Some e, world := w\<rparr>"
  have "inv_started ks ?g"
    using inv by (auto simp: ginv_def inv_started_def prefix_def)
  moreover have "inv_known L ?g" using inv Iw' Kn' by (auto simp: ginv_def inv_known_def)
  moreover have "inv_log L J ?g" "inv_commit s0 L J ?g"
    using inv by (simp_all add: ginv_def inv_log_def inv_commit_def)
  ultimately show ?thesis by (simp add: ginv_def)
qed

lemma ginv_Gen:
  assumes "ginv ks s0 L J g" and "x \<in> set (map fst (routines g))"
  shows "\<exists>k\<in>K. Gen k x"
proof -
  obtain started where "set ks \<subseteq> K" "list_all2 Gen started (map fst (routines g))" "prefix started ks"
    using assms(1) by (auto simp: ginv_def inv_started_def prefix_def)
  with list_all2_memD [OF _ assms(2)] show ?thesis by (fastforce simp: prefix_def)
qed

lemma mput_keys:
  "map_of m x = Some p \<Longrightarrow> map fst (mput x q m) = map fst m"
  by (induction m) (auto split: if_splits)

lemma ginv_Call:
  assumes inv: "ginv ks s0 L J g" and ph: "map_of (routines g) x = Some Spawned"
    and c: "call B x (world g) = (Ret r, w)"
  shows "ginv ks s0 L J (g\<lparr>routines := mput x (Called r) (routines g), world := w\<rparr>)"
proof -
  from inv have Iw: "Inv (world g)" by (simp add: ginv_def inv_known_def)
  have "x \<in> set (map fst (routines g))" using ph by (force dest: map_of_SomeD)
  then obtain k where k: "k \<in> K" and gen: "Gen k x" using ginv_Gen [OF inv] by blast
  note facts = call_Inv [OF k Iw gen c] call_Kn [OF k Iw gen c] call_keeps [OF k Iw gen c]
  let ?g = "g\<lparr>routines := mput x (Called r) (routines g), world := w\<rparr>"
  have "inv_started ks ?g" using inv by (simp add: ginv_def inv_started_def mput_keys [OF ph])
  moreover have "inv_known L ?g" using inv facts by (auto simp: ginv_def inv_known_def)
  moreover have "inv_log L J ?g" using inv ph by (auto simp: ginv_def inv_log_def)
  moreover have "inv_commit s0 L J ?g" using inv by (simp add: ginv_def inv_commit_def)
  ultimately show ?thesis by (simp add: ginv_def)
qed

lemma ginv_Commit:
  assumes inv: "ginv ks s0 L J g" and ph: "map_of (routines g) x = Some (Called r)"
    and c: "commit B x r (shared g) = (s, e)"
  shows "ginv ks s0 (L @ [(x, r)]) J (g\<lparr>routines := mput x (Returned e) (routines g), shared := s\<rparr>)"
proof -
  have notin: "x \<notin> fst ` set L" "x \<notin> set J"
    using inv ph by (simp_all add: ginv_def inv_log_def)
  have c': "commit B x r (fst (commits B L s0)) = (s, e)"
    using inv c by (simp add: ginv_def inv_commit_def)
  note upd = map_of_commits_snoc [OF notin(1) c']
  have fst_c: "fst (commits B (L @ [(x, r)]) s0) = s"
    using c' by (auto simp: commits_snoc split: prod.splits)
  let ?g = "g\<lparr>routines := mput x (Returned e) (routines g), shared := s\<rparr>"
  have "inv_started ks ?g" using inv by (simp add: ginv_def inv_started_def mput_keys [OF ph])
  moreover have "inv_known (L @ [(x, r)]) ?g"
    using inv ph by (auto simp: ginv_def inv_known_def)
  moreover have "inv_log (L @ [(x, r)]) J ?g"
    using inv notin by (auto simp: ginv_def inv_log_def)
  moreover have "inv_commit s0 (L @ [(x, r)]) J ?g"
  proof -
    have "fold (\<lambda>y. join_err (the (((map_of (snd (commits B L s0)))(x \<mapsto> e)) y))) J [] =
        fold (\<lambda>y. join_err (the (map_of (snd (commits B L s0)) y))) J []"
      using notin(2) by (intro List.fold_cong) auto
    with inv show ?thesis
      unfolding inv_commit_def upd fst_c by (simp add: ginv_def inv_commit_def)
  qed
  ultimately show ?thesis by (simp add: ginv_def)
qed

lemma ginv_Join:
  assumes inv: "ginv ks s0 L J g" and ph: "map_of (routines g) x = Some (Returned e)"
  shows "ginv ks s0 L (J @ [x])
    (g\<lparr>routines := mput x Finished (routines g), group_err := join_err e (group_err g)\<rparr>)"
proof -
  have e: "map_of (snd (commits B L s0)) x = Some e"
    using inv ph by (simp add: ginv_def inv_commit_def)
  have notin: "x \<notin> set J" using inv ph by (simp add: ginv_def inv_log_def)
  let ?g = "g\<lparr>routines := mput x Finished (routines g), group_err := join_err e (group_err g)\<rparr>"
  have "inv_started ks ?g" using inv by (simp add: ginv_def inv_started_def mput_keys [OF ph])
  moreover have "inv_known L ?g" using inv by (simp add: ginv_def inv_known_def)
  moreover have "inv_log L (J @ [x]) ?g"
    using inv ph notin by (auto simp: ginv_def inv_log_def)
  moreover have "inv_commit s0 L (J @ [x]) ?g"
    using inv e by (simp add: ginv_def inv_commit_def)
  ultimately show ?thesis by (simp add: ginv_def)
qed

lemma ginv_step:
  assumes inv: "ginv ks s L J g" and ks: "distinct ks" and step: "group_step B ev g = (Ret u, g')"
  shows "\<exists>L J. ginv ks s L J g'"
proof (cases ev)
  case Spawn
  with assms show ?thesis
    unfolding Spawn step_Spawn by (blast intro: ginv_Spawn_ok ginv_Spawn_failed)
next
  case (Call x)
  with inv step show ?thesis unfolding Call step_Call by (blast intro: ginv_Call)
next
  case (Commit x)
  with inv step show ?thesis unfolding Commit step_Commit by (blast intro: ginv_Commit)
next
  case (Join x)
  with inv step show ?thesis unfolding Join step_Join by (blast intro: ginv_Join)
qed

lemma reach_ginv:
  assumes "reach B (group_init ks s w) g" and "Inv w" and "distinct ks" and "set ks \<subseteq> K"
  shows "\<exists>L J. ginv ks s L J g"
  using assms(1)
proof induction
  case reach_init
  show ?case using ginv_init [OF assms(2,4)] by blast
next
  case (reach_step g ev g')
  then show ?case using ginv_step [OF _ assms(3)] by blast
qed

lemma finished_log:
  assumes "ginv ks s0 L J g" and "all_finished g"
  shows "set (map fst L) = set (map fst (routines g))" and "set J = set (map fst (routines g))"
proof -
  have fin: "map_of (routines g) x = Some p \<Longrightarrow> p = Finished" for x p
    using assms(2) map_of_SomeD [of "routines g" x p]
    by (force simp: all_finished_def list_all_iff is_finished_def)
  have dom: "x \<in> fst ` set (routines g) \<longleftrightarrow> map_of (routines g) x = Some Finished" for x
  proof -
    have "x \<in> fst ` set (routines g) \<longleftrightarrow> map_of (routines g) x \<noteq> None"
      by (simp add: map_of_eq_None_iff)
    then show ?thesis using fin by auto
  qed
  have J: "x \<in> set J \<longleftrightarrow> map_of (routines g) x = Some Finished" for x
    using assms(1) by (simp add: ginv_def inv_log_def)
  have L: "x \<in> fst ` set L \<longleftrightarrow> map_of (routines g) x = Some Finished" for x
    using assms(1) fin [of x] by (auto simp: ginv_def inv_log_def split: option.splits phase.splits)
  show "set (map fst L) = set (map fst (routines g))" "set J = set (map fst (routines g))"
    unfolding set_map set_eq_iff using dom J L by blast+
qed

text \<open>
  Whatever the interleaving, the shared data are those of the critical sections run one after
  the other, each once, in some order, on results the calls returned; the group's multierror
  holds the errors the critical sections returned, in some order.
\<close>

lemma fork_join_serial:
  assumes run: "fork_join B ks evs s w = (Ret (f, R, errs, s'), w')"
    and "Inv w" and "distinct ks" and "set ks \<subseteq> K"
  obtains started L J where
    "Inv w'" "list_all2 Gen started R" "prefix started ks" "f = None \<Longrightarrow> started = ks"
    "mset (map fst L) = mset R" "mset J = mset R" "distinct R"
    "\<And>x r. (x, r) \<in> set L \<Longrightarrow> Kn x r w'"
    "s' = fst (commits B L s)"
    "errs = fold (\<lambda>x. join_err (the (map_of (snd (commits B L s)) x))) J []"
proof -
  obtain g where g: "reach B (group_init ks s w) g" "all_finished g"
      "f = failed g" "R = map fst (routines g)" "errs = group_err g" "s' = shared g" "w' = world g"
    using fork_join_Ret [OF run] by blast
  obtain L J where inv: "ginv ks s L J g" using reach_ginv [OF g(1) assms(2-4)] by blast
  obtain started where st: "list_all2 Gen started (map fst (routines g))" "prefix started ks"
      "f = None \<Longrightarrow> started = ks"
    using inv g(2,3) by (auto simp: ginv_def inv_started_def all_finished_def)
  have dR: "distinct (map fst (routines g))"
    using Gen_distinct [OF st(1)] st(2) assms(3) by (auto simp: prefix_def)
  have dLJ: "distinct (map fst L)" "distinct J" using inv by (simp_all add: ginv_def inv_log_def)
  have "mset (map fst L) = mset (map fst (routines g))" "mset J = mset (map fst (routines g))"
    using finished_log [OF inv g(2)] dR dLJ by (simp_all only: set_eq_iff_mset_eq_distinct)
  with st dR inv g(3-7) show thesis
    by (intro that [of started L J])
       (auto simp: ginv_def inv_known_def inv_commit_def)
qed

end

text \<open>
  When starting a goroutine and its call always return, \<open>Wait\<close> returns: every interleaving
  that has not come to its end can go on, and no interleaving is longer than four steps per key.
\<close>

primrec phase_left :: "'r phase \<Rightarrow> nat" where
  "phase_left Spawned = 3"
| "phase_left (Called _) = 2"
| "phase_left (Returned _) = 1"
| "phase_left Finished = 0"

definition steps_left :: "('k, 'g, 'r, 's, 'w) group \<Rightarrow> nat" where
  "steps_left g = 4 * length (todo g) + sum_list (map (\<lambda>xp. phase_left (snd xp)) (routines g))"

lemma steps_left_mput:
  "map_of m x = Some p \<Longrightarrow> phase_left q < phase_left p \<Longrightarrow>
     sum_list (map (\<lambda>xp. phase_left (snd xp)) (mput x q m)) < sum_list (map (\<lambda>xp. phase_left (snd xp)) m)"
  by (induction m) (auto split: if_splits)

lemma step_decreases:
  assumes "group_step B ev g = (Ret u, g')"
  shows "steps_left g' < steps_left g"
proof (cases ev)
  case Spawn
  then show ?thesis using assms unfolding Spawn step_Spawn by (auto simp: steps_left_def)
next
  case (Call x)
  from assms obtain r w where "map_of (routines g) x = Some Spawned"
    and g': "g' = g\<lparr>routines := mput x (Called r) (routines g), world := w\<rparr>"
    unfolding Call step_Call by blast
  from steps_left_mput [OF this(1), of "Called r"] show ?thesis by (simp add: steps_left_def g')
next
  case (Commit x)
  from assms obtain r s e where "map_of (routines g) x = Some (Called r)"
    and g': "g' = g\<lparr>routines := mput x (Returned e) (routines g), shared := s\<rparr>"
    unfolding Commit step_Commit by blast
  from steps_left_mput [OF this(1), of "Returned e"] show ?thesis by (simp add: steps_left_def g')
next
  case (Join x)
  from assms obtain e where "map_of (routines g) x = Some (Returned e)"
    and g': "g' = g\<lparr>routines := mput x Finished (routines g), group_err := join_err e (group_err g)\<rparr>"
    unfolding Join step_Join by blast
  from steps_left_mput [OF this(1), of Finished] show ?thesis by (simp add: steps_left_def g')
qed

lemma run_length:
  "group_run B evs g = (Ret u, g') \<Longrightarrow> length evs + steps_left g' \<le> steps_left g"
proof (induction evs arbitrary: g)
  case (Cons ev evs)
  then obtain u1 g1 where "group_step B ev g = (Ret u1, g1)" "group_run B evs g1 = (Ret u, g')"
    by (auto simp: io_bind_RetE)
  with Cons.IH step_decreases show ?case by fastforce
qed simp

lemma group_run_append:
  "group_run B evs g = (Ret u, g1) \<Longrightarrow> group_run B (evs @ evs') g = group_run B evs' g1"
  by (induction evs arbitrary: g) (auto simp: io_bind_def split: prod.splits outcome.splits)

lemma fork_join_length:
  "fork_join B ks evs s w = (Ret r, w') \<Longrightarrow> length evs \<le> 4 * length ks"
  using run_length [of B evs "group_init ks s w"]
  by (auto simp: fork_join_def steps_left_def group_init_def split: prod.splits outcome.splits if_splits)

locale fork_join_total = fork_join_calls +
  assumes spawn_returns: "k \<in> K \<Longrightarrow> Inv w \<Longrightarrow> \<exists>v w'. spawn B k w = (Ret v, w')"
    and call_returns: "k \<in> K \<Longrightarrow> Inv w \<Longrightarrow> Gen k x \<Longrightarrow> \<exists>r w'. call B x w = (Ret r, w')"
begin

lemma progress:
  assumes inv: "ginv ks s0 L J g" and ks: "distinct ks" and nf: "\<not> all_finished g"
  shows "\<exists>ev g'. group_step B ev g = (Ret (), g')"
proof (cases "todo g")
  case (Cons k ks')
  obtain v w' where "spawn B k (world g) = (Ret v, w')"
    using spawn_returns [of k] inv Cons
    by (fastforce simp: ginv_def inv_known_def inv_started_def prefix_def)
  with Cons have "\<exists>g'. group_step B Spawn g = (Ret (), g')"
    by (cases v) (simp_all add: step_Spawn)
  then show ?thesis by blast
next
  case Nil
  then obtain x p where xp: "(x, p) \<in> set (routines g)" "\<not> is_finished p"
    using nf by (auto simp: all_finished_def list_all_iff)
  then have mem: "x \<in> set (map fst (routines g))" by force
  obtain started where st: "list_all2 Gen started (map fst (routines g))" "prefix started ks"
    using inv Nil by (auto simp: ginv_def inv_started_def)
  then have "distinct (map fst (routines g))"
    using Gen_distinct [OF st(1)] ks by (auto simp: prefix_def)
  with xp have q: "map_of (routines g) x = Some p" by simp
  obtain k where gen: "k \<in> K" "Gen k x" using ginv_Gen [OF inv mem] by blast
  obtain r w' where c: "call B x (world g) = (Ret r, w')"
    using call_returns gen inv unfolding ginv_def inv_known_def by blast
  show ?thesis
  proof (cases p)
    case Spawned
    with q c show ?thesis by (intro exI [of _ "Call x"]) (simp add: step_Call)
  next
    case (Called r)
    with q show ?thesis by (intro exI [of _ "Commit x"]) (simp split: prod.splits)
  next
    case (Returned e)
    with q show ?thesis by (intro exI [of _ "Join x"]) simp
  qed (use xp(2) in simp)
qed

lemma completes_from:
  assumes "reach B (group_init ks s w) g" and "Inv w" and "distinct ks" and "set ks \<subseteq> K"
  shows "\<exists>evs g'. group_run B evs g = (Ret (), g') \<and> all_finished g'"
  using assms(1)
proof (induction "steps_left g" arbitrary: g rule: less_induct)
  case less
  obtain L J where inv: "ginv ks s L J g" using reach_ginv [OF less.prems assms(2-4)] by blast
  show ?case
  proof (cases "all_finished g")
    case True
    then show ?thesis by (intro exI [of _ "[]"]) simp
  next
    case False
    then obtain ev g1 where ev: "group_step B ev g = (Ret (), g1)"
      using progress [OF inv assms(3)] by blast
    from less.hyps [OF step_decreases [OF ev]] less.prems ev
    obtain evs g' where "group_run B evs g1 = (Ret (), g')" "all_finished g'"
      by (blast intro: reach_step)
    with ev show ?thesis by (intro exI [of _ "ev # evs"]) simp
  qed
qed

text \<open>An interleaving that has begun can be brought to its end.\<close>

lemma fork_join_extends:
  assumes "Inv w" and "distinct ks" and "set ks \<subseteq> K"
    and run: "group_run B evs (group_init ks s w) = (Ret u, g)"
  shows "\<exists>evs' r w'. fork_join B ks (evs @ evs') s w = (Ret r, w')"
proof -
  obtain evs' g' where "group_run B evs' g = (Ret (), g')" and fin: "all_finished g'"
    using completes_from [OF reach_run [OF reach_init run] assms(1-3)] by blast
  with run have "group_run B (evs @ evs') (group_init ks s w) = (Ret (), g')"
    by (simp add: group_run_append)
  with fin show ?thesis by (intro exI [of _ evs']) (simp add: fork_join_def)
qed

lemma fork_join_completes:
  assumes "Inv w" and "distinct ks" and "set ks \<subseteq> K"
  shows "\<exists>evs r w'. fork_join B ks evs s w = (Ret r, w')"
proof -
  have "group_run B [] (group_init ks s w) = (Ret (), group_init ks s w)" by simp
  from fork_join_extends [OF assms this] show ?thesis by blast
qed

lemma step_no_panic:
  assumes inv: "ginv ks s0 L J g"
  shows "fst (group_step B ev g) \<noteq> Panic m"
proof (cases ev)
  case Spawn
  have "\<exists>v w'. spawn B k (world g) = (Ret v, w')" if "todo g = k # rest" for k rest
    using inv spawn_returns [of k] that
    by (fastforce simp: ginv_def inv_known_def inv_started_def prefix_def)
  then show ?thesis using Spawn
    by (fastforce split: list.splits prod.splits outcome.splits sum.splits)
next
  case (Call x)
  have "\<exists>r w'. call B x (world g) = (Ret r, w')" if ph: "map_of (routines g) x = Some Spawned"
  proof -
    have "x \<in> set (map fst (routines g))" using ph by (force dest: map_of_SomeD)
    then obtain k where "k \<in> K" "Gen k x" using ginv_Gen [OF inv] by blast
    then show ?thesis using inv call_returns unfolding ginv_def inv_known_def by blast
  qed
  then show ?thesis using Call by (auto split: option.splits phase.splits prod.splits outcome.splits)
qed (auto split: option.splits phase.splits prod.splits)

lemma run_no_panic:
  "ginv ks s0 L J g \<Longrightarrow> distinct ks \<Longrightarrow> fst (group_run B evs g) \<noteq> Panic m"
proof (induction evs arbitrary: g L J)
  case (Cons ev evs)
  obtain v g1 where st: "group_step B ev g = (v, g1)" by fastforce
  show ?case
  proof (cases v)
    case (Ret u)
    then obtain L' J' where "ginv ks s0 L' J' g1" using ginv_step [OF Cons.prems] st by blast
    from Cons.IH [OF this Cons.prems(2)] st Ret show ?thesis by simp
  qed (use st step_no_panic [OF Cons.prems(1), of ev m] in auto)
qed simp

text \<open>So \<open>Wait\<close> returns on exactly the complete interleavings, and nothing panics.\<close>

lemma fork_join_no_panic:
  "Inv w \<Longrightarrow> distinct ks \<Longrightarrow> set ks \<subseteq> K \<Longrightarrow> fst (fork_join B ks evs s w) \<noteq> Panic m"
  using run_no_panic [OF ginv_init, of w ks evs s m]
  by (auto simp: fork_join_def split: prod.splits outcome.splits)

end

text \<open>The errors of a group: none at all exactly when no critical section returned one.\<close>

lemma join_err_Nil [simp]: "join_err e errs = [] \<longleftrightarrow> e = None \<and> errs = []"
  by (auto simp: join_err_def split: option.splits)

lemma fold_join_err_Nil:
  "fold (\<lambda>x. join_err (the (m x))) J acc = [] \<longleftrightarrow> acc = [] \<and> (\<forall>x\<in>set J. the (m x) = None)"
  by (induction J arbitrary: acc) auto

lemma joins_Nil:
  assumes "mset (map fst L) = mset R" and "mset J = mset R" and "distinct R"
  shows "fold (\<lambda>x. join_err (the (map_of (snd (commits B L s)) x))) J [] = [] \<longleftrightarrow>
    (\<forall>e\<in>snd ` set (snd (commits B L s)). e = None)"
proof -
  have "set J = fst ` set (snd (commits B L s))"
    using assms(1,2) by (metis commits_keys' mset_eq_setD list.set_map)
  moreover have dist: "distinct (map fst (snd (commits B L s)))"
    using assms(1,3) by (metis commits_keys mset_eq_imp_distinct_iff)
  moreover have "the (map_of (snd (commits B L s)) (fst xe)) = snd xe"
    if "xe \<in> set (snd (commits B L s))" for xe
    using map_of_is_SomeI [OF dist, of "fst xe" "snd xe"] that by simp
  ultimately show ?thesis by (simp add: fold_join_err_Nil del: commits_keys' commits_keys)
qed

section \<open>Plain groups\<close>

text \<open>The case of all groups but one: the loop only starts goroutines, one for each key.\<close>

locale plain_group =
  fixes B :: "('k, 'k, 'r, 's, 'w) body"
    and K :: "'k set"
    and Inv :: "'w \<Rightarrow> bool"
    and Kn :: "'k \<Rightarrow> 'r \<Rightarrow> 'w \<Rightarrow> bool"
  assumes plain: "spawn B = plain_spawn"
    and plain_Inv: "k \<in> K \<Longrightarrow> Inv w \<Longrightarrow> call B k w = (Ret r, w') \<Longrightarrow> Inv w'"
    and plain_Kn: "k \<in> K \<Longrightarrow> Inv w \<Longrightarrow> call B k w = (Ret r, w') \<Longrightarrow> Kn k r w'"
    and plain_keeps: "k \<in> K \<Longrightarrow> Inv w \<Longrightarrow> call B k w = (Ret r, w') \<Longrightarrow> Kn y q w \<Longrightarrow> Kn y q w'"

sublocale plain_group \<subseteq> calls: fork_join_calls B K Inv "\<lambda>k x. x = k" Kn
  by unfold_locales (auto simp: plain dest: plain_Inv plain_Kn plain_keeps)

lemma plain_not_failed:
  assumes "reach B (group_init ks s w) g" and "spawn B = plain_spawn"
  shows "failed g = None"
  using assms(1)
proof induction
  case reach_init
  then show ?case by (simp add: group_init_def)
next
  case (reach_step g ev g')
  with assms(2) show ?case by (cases ev) (auto simp only: step_iffs, auto)
qed

context plain_group
begin

lemma serial:
  assumes run: "fork_join B ks evs s w = (Ret (f, R, errs, s'), w')"
    and "Inv w" and "distinct ks" and "set ks \<subseteq> K"
  obtains L where "f = None" "R = ks" "Inv w'" "mset (map fst L) = mset ks"
    "\<And>x r. (x, r) \<in> set L \<Longrightarrow> Kn x r w'" "s' = fst (commits B L s)"
    "errs = [] \<longleftrightarrow> (\<forall>e\<in>snd ` set (snd (commits B L s)). e = None)"
proof -
  have f: "f = None"
    using fork_join_Ret [OF run] plain_not_failed [OF _ plain] by metis
  obtain started L J where L: "Inv w'" "list_all2 (\<lambda>k x. x = k) started R" "f = None \<Longrightarrow> started = ks"
    "mset (map fst L) = mset R" "mset J = mset R" "distinct R" "\<And>x r. (x, r) \<in> set L \<Longrightarrow> Kn x r w'"
    "s' = fst (commits B L s)"
    "errs = fold (\<lambda>x. join_err (the (map_of (snd (commits B L s)) x))) J []"
    using calls.fork_join_serial [OF run assms(2-4)] by metis
  have R: "R = ks" using L(2,3) f by (simp add: list_all2_conv_all_nth nth_equalityI)
  have "errs = [] \<longleftrightarrow> (\<forall>e\<in>snd ` set (snd (commits B L s)). e = None)"
    unfolding L(9) by (rule joins_Nil [OF L(4-6)])
  with f R L show thesis by (intro that [of L]) simp_all
qed

end

section \<open>The errors of a group\<close>

text \<open>What \<open>Append\<close> makes of an error: the errors a multierror lists, or the error.\<close>

fun listed :: "error option \<Rightarrow> error list" where
  "listed None = []"
| "listed (Some (MultiE e es)) = e # es"
| "listed (Some e) = [e]"

lemma join_err_listed: "join_err e errs = errs @ listed e"
  by (cases e rule: listed.cases) (simp_all add: join_err_def)

lemma fold_join_listed:
  "mset (fold (\<lambda>x. join_err (h x)) J errs) = mset errs + (\<Sum>x\<in>#mset J. mset (listed (h x)))"
  by (induction J arbitrary: errs) (simp_all add: join_err_listed)

text \<open>Whatever the interleaving, the errors of a group are those of the answers of its calls.\<close>


context plain_group
begin

lemma answers:
  assumes run: "fork_join B ks evs s w = (Ret (f, R, errs, s'), w')"
    and "Inv w" and "distinct ks" and "set ks \<subseteq> K" and err: "\<And>x r s. snd (commit B x r s) = err r"
  obtains L ans where "Inv w'" "mset (map fst L) = mset ks"
    "\<And>x r. (x, r) \<in> set L \<longleftrightarrow> x \<in> set ks \<and> r = ans x" "\<And>x. x \<in> set ks \<Longrightarrow> Kn x (ans x) w'"
    "s' = fst (commits B L s)" "mset errs = (\<Sum>x\<in>#mset ks. mset (listed (err (ans x))))"
    "errs = [] \<longleftrightarrow> (\<forall>x\<in>set ks. err (ans x) = None)"
proof -
  have "f = None" using fork_join_Ret [OF run] plain_not_failed [OF _ plain] by metis
  obtain started L J where inv: "Inv w'" and L: "list_all2 (\<lambda>k x. x = k) started R" "f = None \<Longrightarrow> started = ks"
    "mset (map fst L) = mset R" "mset J = mset R" "distinct R" "\<And>x r. (x, r) \<in> set L \<Longrightarrow> Kn x r w'"
    "s' = fst (commits B L s)"
    "errs = fold (\<lambda>x. join_err (the (map_of (snd (commits B L s)) x))) J []"
    using calls.fork_join_serial [OF run assms(2-4)] by metis
  have R: "R = ks" using L(1,2) \<open>f = None\<close> by (simp add: list_all2_conv_all_nth nth_equalityI)
  have dist: "distinct (map fst L)" and keys: "fst ` set L = set ks"
    using L(3,5) R by (metis mset_eq_imp_distinct_iff, metis list.set_map mset_eq_setD)
  let ?ans = "\<lambda>x. the (map_of L x)"
  have mem: "(x, r) \<in> set L \<longleftrightarrow> x \<in> set ks \<and> r = ?ans x" for x r
  proof -
    have "(x, r) \<in> set L \<longleftrightarrow> map_of L x = Some r" using map_of_eq_Some_iff [OF dist] by metis
    moreover have "x \<in> set ks \<longleftrightarrow> map_of L x \<noteq> None" using keys by (simp add: map_of_eq_None_iff)
    ultimately show ?thesis by force
  qed
  have eq: "the (map_of (snd (commits B L s)) x) = err (?ans x)" if "x \<in> set ks" for x
  proof -
    have "map_of L x \<noteq> None" using that by (simp add: map_of_eq_None_iff keys)
    then obtain r where "map_of L x = Some r" by auto
    moreover have "snd (commits B L s) = map (\<lambda>(x, r). (x, err r)) L" by (rule commits_errors [OF err])
    ultimately show ?thesis by (simp add: map_of_map)
  qed
  have "errs = [] \<longleftrightarrow> (\<forall>x\<in>set ks. err (?ans x) = None)"
    unfolding L(8) fold_join_err_Nil mset_eq_setD [OF L(4)] R using eq by simp
  moreover have "mset errs = (\<Sum>x\<in>#mset ks. mset (listed (err (?ans x))))"
    unfolding L(8) fold_join_listed L(4) R
    by (simp, rule arg_cong [where f = sum_mset], rule image_mset_cong) (simp add: eq)
  ultimately show thesis using L(3,6,7) mem inv unfolding R by (intro that [of L ?ans]) simp_all
qed

end

end
