(* ===== verification/Farm.thy ===== *)
theory Farm
  imports Image_Builder Fork_Join
begin

text \<open>
  The farm of \<open>buildfarm.go\<close>: its construction from the configured connections, the operations
  that visit its members (\<open>PruneImages\<close>, \<open>Done\<close>, \<open>Status\<close>), the platforms it can build for, and
  the scheduling of platforms to builders. \<open>Farm_Build\<close> has the builds themselves.

  The member map is an association list; \<open>forEach\<close> visits it in the list's order. Operations
  that start one goroutine per member take the interleaving as an argument.
\<close>

section \<open>State\<close>

record 'b Farm =
  farm_name :: string
  farm_flagSet :: flagset
  farm_storeOptions :: "StoreOptions option"
  farm_builders :: "(string \<times> 'b) list"

record Schedule =
  platformBuilders :: "(string \<times> string) list"

definition CreateFarm :: "string \<Rightarrow> ('w, 'b Farm) ioe" where
  "CreateFarm nm = ret (Inl (ErrNew ''not implemented''))"

definition UpdateFarm :: "string list \<Rightarrow> string list \<Rightarrow> ('w, 'b Farm) ioe" where
  "UpdateFarm add remove = ret (Inl (ErrNew ''not implemented''))"

section \<open>Construction\<close>

text \<open>\<open>util.StringInSlice\<close>.\<close>

primrec StringInSlice :: "string \<Rightarrow> string list \<Rightarrow> bool" where
  "StringInSlice s [] = False"
| "StringInSlice s (t # ts) = (if s = t then True else StringInSlice s ts)"

text \<open>The parameter \<open>builders\<close>: \<open>None\<close> is the address of \<open>allBuilders\<close>.\<close>

definition wantBuilder :: "string list option \<Rightarrow> string \<Rightarrow> bool" where
  "wantBuilder sel nm = (case sel of None \<Rightarrow> True | Some l \<Rightarrow> StringInSlice nm l)"

datatype node = RemoteNode string | LocalNode

definition farm_nodes :: "string list option \<Rightarrow> StoreOptions option \<Rightarrow> config \<Rightarrow> node list" where
  "farm_nodes sel storeOptions custom =
     map RemoteNode (filter (wantBuilder sel) (map fst (ServiceDestinations custom))) @
     (if storeOptions \<noteq> None \<and> wantBuilder sel LocalImageBuilderName then [LocalNode] else [])"

definition node_call :: "'x podman_api \<Rightarrow> flagset \<Rightarrow> StoreOptions option \<Rightarrow> node \<Rightarrow> ('x farm_world, builder) ioe" where
  "node_call A flags storeOptions n = (case n of
      RemoteNode dest \<Rightarrow> alloc RemoteObj (NewPodmanRemoteImageBuilder A (Some flags) dest)
    | LocalNode \<Rightarrow> alloc LocalObj (NewPodmanLocalImageBuilder A (Some flags) storeOptions))"

definition node_key :: "node \<Rightarrow> string" where
  "node_key n = (case n of RemoteNode dest \<Rightarrow> dest | LocalNode \<Rightarrow> [])"

definition new_farm_body :: "'x podman_api \<Rightarrow> flagset \<Rightarrow> StoreOptions option \<Rightarrow>
    (node, node, error + builder, (string \<times> builder) list, 'x farm_world) body" where
  "new_farm_body A flags storeOptions = \<lparr>
     spawn = plain_spawn,
     call = node_call A flags storeOptions,
     commit = (\<lambda>n r m. case r of Inl e \<Rightarrow> (m, Some e) | Inr ib \<Rightarrow> (mput (node_key n) ib m, None))\<rparr>"

definition ext_io :: "('x \<Rightarrow> 'a \<times> 'x) \<Rightarrow> ('x farm_world, 'a) io" where
  "ext_io m w = (case m (ext w) of (a, x) \<Rightarrow> (Ret a, w\<lparr>ext := x\<rparr>))"

definition newFarmWithBuilders :: "'x podman_api \<Rightarrow> string list option \<Rightarrow> StoreOptions option \<Rightarrow> flagset option \<Rightarrow>
    node event list \<Rightarrow> ('x farm_world, builder Farm) ioe" where
  "newFarmWithBuilders A sel storeOptions flags0 evs =
     try_bind (wrap_err (WrapE ''reading custom config: %w'' []) (ext_io (pa_ReadCustomConfig A))) (\<lambda>custom.
     let flags = (case flags0 of None \<Rightarrow> NewFlagSet ''buildfarm'' | Some f \<Rightarrow> f)
     in io_bind (fork_join (new_farm_body A flags storeOptions) (farm_nodes sel storeOptions custom) evs [])
       (\<lambda>(_, _, errs, bs).
        case error_or_nil errs of
          Some err \<Rightarrow> ret (Inl err)
        | None \<Rightarrow>
            if length bs > 0
            then ret (Inr \<lparr>farm_name = [], farm_flagSet = flags, farm_storeOptions = storeOptions, farm_builders = bs\<rparr>)
            else ret (Inl (ErrNew ''no builders configured''))))"

definition NewDefaultFarm :: "'x podman_api \<Rightarrow> StoreOptions option \<Rightarrow> flagset option \<Rightarrow>
    node event list \<Rightarrow> ('x farm_world, builder Farm) ioe" where
  "NewDefaultFarm A storeOptions flags evs = newFarmWithBuilders A None storeOptions flags evs"

definition NewFarm :: "'x podman_api \<Rightarrow> string \<Rightarrow> StoreOptions option \<Rightarrow> flagset option \<Rightarrow>
    node event list \<Rightarrow> ('x farm_world, builder Farm) ioe" where
  "NewFarm A nm storeOptions flags evs =
     (if nm = [] then NewDefaultFarm A storeOptions flags evs
      else ret (Inl (ErrNew ''not implemented'')))"

definition NewAdHocFarm :: "'x podman_api \<Rightarrow> string list \<Rightarrow> StoreOptions option \<Rightarrow> flagset option \<Rightarrow>
    node event list \<Rightarrow> ('x farm_world, builder Farm) ioe" where
  "NewAdHocFarm A destinations storeOptions flags evs = newFarmWithBuilders A (Some destinations) storeOptions flags evs"

section \<open>Visiting every member\<close>

text \<open>\<open>forEach\<close>; \<open>s\<close> is what the function it is given closes over.\<close>

fun forEach_loop :: "('b, 'w) ImageBuilder \<Rightarrow> (string \<Rightarrow> 'b \<Rightarrow> 's \<Rightarrow> ('w, (bool \<times> error option) \<times> 's) io) \<Rightarrow>
    (string \<times> 'b) list \<Rightarrow> error list \<Rightarrow> 's \<Rightarrow> ('w, error list \<times> 's) io" where
  "forEach_loop ops fn [] merr s = ret (merr, s)"
| "forEach_loop ops fn ((nm, builder) # rest) merr s =
     io_bind (fn nm builder s) (\<lambda>((stop, err), s').
     io_bind (case err of
          None \<Rightarrow> ret merr
        | Some e \<Rightarrow> io_bind (ib_Name ops builder) (\<lambda>bn. ret (multi_append merr (WrapE ''%s: %w'' [AStr bn] e)))) (\<lambda>merr'.
     if stop then ret (merr', s') else forEach_loop ops fn rest merr' s'))"

definition forEach :: "('b, 'w) ImageBuilder \<Rightarrow> 'b Farm \<Rightarrow>
    (string \<Rightarrow> 'b \<Rightarrow> 's \<Rightarrow> ('w, (bool \<times> error option) \<times> 's) io) \<Rightarrow> 's \<Rightarrow> ('w, error option \<times> 's) io" where
  "forEach ops f fn s = io_bind (forEach_loop ops fn (farm_builders f) [] s) (\<lambda>(merr, s'). ret (error_or_nil merr, s'))"

definition prune_member :: "('b, 'w) ImageBuilder \<Rightarrow> PruneImageOptions \<Rightarrow> string \<Rightarrow> 'b \<Rightarrow>
    (string \<times> PruneImageReport) list \<Rightarrow> ('w, (bool \<times> error option) \<times> (string \<times> PruneImageReport) list) io" where
  "prune_member ops options nm ib report =
     io_bind (ib_PruneImages ops ib options) (\<lambda>r. case r of
        Inl e \<Rightarrow> ret ((False, Some e), report)
      | Inr pr \<Rightarrow> ret ((False, None), mput nm \<lparr>ImageIDs = [] @ ImageIDs pr, ImageNames = []\<rparr> report))"

text \<open>The report and the error are both returned.\<close>

definition Farm_PruneImages :: "('b, 'w) ImageBuilder \<Rightarrow> 'b Farm \<Rightarrow> PruneImageOptions \<Rightarrow>
    ('w, error option \<times> (string \<times> PruneImageReport) list) io" where
  "Farm_PruneImages ops f options = forEach ops f (prune_member ops options) []"

definition done_member :: "('b, 'w) ImageBuilder \<Rightarrow> string \<Rightarrow> 'b \<Rightarrow> unit \<Rightarrow> ('w, (bool \<times> error option) \<times> unit) io" where
  "done_member ops nm ib s =
     io_bind (ib_Done ops ib) (\<lambda>r. ret ((False, (case r of Inl e \<Rightarrow> Some e | Inr _ \<Rightarrow> None)), s))"

definition Farm_Done :: "('b, 'w) ImageBuilder \<Rightarrow> 'b Farm \<Rightarrow> ('w, error option) io" where
  "Farm_Done ops f = io_bind (forEach ops f (done_member ops) ()) (\<lambda>(err, _). ret err)"

definition status_body :: "('b, 'w) ImageBuilder \<Rightarrow>
    (string \<times> 'b, string \<times> 'b, string \<times> error option, (string \<times> error option) list, 'w) body" where
  "status_body ops = \<lparr>
     spawn = plain_spawn,
     call = (\<lambda>(_, builder). io_bind (ib_Status ops builder) (\<lambda>r.
       io_bind (ib_Name ops builder) (\<lambda>nm. ret (nm, (case r of Inl e \<Rightarrow> Some e | Inr _ \<Rightarrow> None))))),
     commit = (\<lambda>_ r status. case r of (nm, err) \<Rightarrow> (mput nm err status, err))\<rparr>"

definition Farm_Status :: "('b, 'w) ImageBuilder \<Rightarrow> 'b Farm \<Rightarrow> (string \<times> 'b) event list \<Rightarrow>
    ('w, (string \<times> error option) list \<times> error option) io" where
  "Farm_Status ops f evs =
     io_bind (fork_join (status_body ops) (farm_builders f) evs []) (\<lambda>(_, _, errs, status).
       ret (status, error_or_nil errs))"

section \<open>Platforms\<close>

definition platforms_body :: "('b \<Rightarrow> ('w, string list) ioe) \<Rightarrow>
    (string \<times> 'b, string \<times> 'b, error + string list, (string \<times> unit) list, 'w) body" where
  "platforms_body query = \<lparr>
     spawn = plain_spawn,
     call = (\<lambda>(_, builder). query builder),
     commit = (\<lambda>_ r m. case r of
         Inl e \<Rightarrow> (m, Some e)
       | Inr platforms \<Rightarrow> (fold (\<lambda>p acc. mput p () acc) platforms m, None))\<rparr>"

definition collect_platforms :: "('b \<Rightarrow> ('w, string list) ioe) \<Rightarrow> 'b Farm \<Rightarrow> (string \<times> 'b) event list \<Rightarrow>
    ('w, string list) ioe" where
  "collect_platforms query f evs =
     io_bind (fork_join (platforms_body query) (farm_builders f) evs []) (\<lambda>(_, _, errs, m).
       case error_or_nil errs of
         Some err \<Rightarrow> ret (Inl err)
       | None \<Rightarrow> ret (Inr (sort (mkeys m))))"

definition Farm_NativePlatforms :: "('b, 'w) ImageBuilder \<Rightarrow> 'b Farm \<Rightarrow> (string \<times> 'b) event list \<Rightarrow>
    ('w, string list) ioe" where
  "Farm_NativePlatforms ops f evs = collect_platforms (ib_NativePlatforms ops) f evs"

definition Farm_EmulatedPlatforms :: "('b, 'w) ImageBuilder \<Rightarrow> 'b Farm \<Rightarrow> (string \<times> 'b) event list \<Rightarrow>
    ('w, string list) ioe" where
  "Farm_EmulatedPlatforms ops f evs = collect_platforms (ib_EmulatedPlatforms ops) f evs"

section \<open>Schedule\<close>

text \<open>The maps \<open>native\<close> and \<open>emulated\<close> that the goroutines fill; the first builder of a platform
  stays.\<close>

type_synonym capabilities = "(string \<times> string) list \<times> (string \<times> string) list"

definition note_info :: "string \<Rightarrow> Info \<Rightarrow> capabilities \<Rightarrow> capabilities" where
  "note_info nm info ne =
     (fold (\<lambda>n m. mput_new n nm m) (NativePlatforms info) (fst ne),
      fold (\<lambda>e m. mput_new e nm m) (EmulatedPlatforms info) (snd ne))"

definition schedule_body :: "('b, 'w) ImageBuilder \<Rightarrow>
    (string \<times> 'b, string \<times> 'b, error + Info, capabilities, 'w) body" where
  "schedule_body ops = \<lparr>
     spawn = plain_spawn,
     call = (\<lambda>(_, builder). ib_Info ops builder),
     commit = (\<lambda>(nm, _) r ne. case r of Inl e \<Rightarrow> (ne, Some e) | Inr info \<Rightarrow> (note_info nm info ne, None))\<rparr>"

fun assign_platforms :: "capabilities \<Rightarrow> string list \<Rightarrow> (string \<times> string) list \<Rightarrow> error + (string \<times> string) list" where
  "assign_platforms ne [] pb = Inr pb"
| "assign_platforms ne (p # ps) pb =
     (case map_of (fst ne) p of
        Some builder \<Rightarrow> assign_platforms ne ps (mput p builder pb)
      | None \<Rightarrow> (case map_of (snd ne) p of
          Some builder \<Rightarrow> assign_platforms ne ps (mput p builder pb)
        | None \<Rightarrow> Inl (Errorf ''no builder capable of building for platform %q available'' [AStr p])))"

text \<open>The platforms to schedule; \<open>evs\<close> is the interleaving of \<open>NativePlatforms\<close>, if it is called.\<close>

definition target_platforms :: "('b, 'w) ImageBuilder \<Rightarrow> 'b Farm \<Rightarrow> string list \<Rightarrow> (string \<times> 'b) event list \<Rightarrow>
    ('w, string list) ioe" where
  "target_platforms ops f platforms evs =
     (if length platforms = 0
      then wrap_err (WrapE ''reading list of available native platforms: %w'' []) (Farm_NativePlatforms ops f evs)
      else ret (Inr platforms))"

text \<open>After \<open>Wait\<close>: the errors of the group, or the assignment of the targets.\<close>

definition finish_schedule :: "error list \<Rightarrow> capabilities \<Rightarrow> string list \<Rightarrow> error + Schedule" where
  "finish_schedule errs ne targets = (case error_or_nil errs of
      Some err \<Rightarrow> Inl err
    | None \<Rightarrow> (case assign_platforms ne targets [] of
        Inl err \<Rightarrow> Inl err
      | Inr pb \<Rightarrow> Inr \<lparr>platformBuilders = pb\<rparr>))"

definition Farm_Schedule :: "('b, 'w) ImageBuilder \<Rightarrow> 'b Farm \<Rightarrow> string list \<Rightarrow>
    (string \<times> 'b) event list \<Rightarrow> (string \<times> 'b) event list \<Rightarrow> ('w, Schedule) ioe" where
  "Farm_Schedule ops f platforms evs_native evs_info =
     try_bind (target_platforms ops f platforms evs_native) (\<lambda>targets.
     io_bind (fork_join (schedule_body ops) (farm_builders f) evs_info ([], [])) (\<lambda>(_, _, errs, ne).
       ret (finish_schedule errs ne targets)))"

section \<open>Laws of the queries\<close>

text \<open>The members of a farm exist and have different keys.\<close>

definition members_ok :: "('w \<Rightarrow> 'b \<Rightarrow> bool) \<Rightarrow> 'b Farm \<Rightarrow> 'w \<Rightarrow> bool" where
  "members_ok valid f w \<longleftrightarrow> wf_map (farm_builders f) \<and> (\<forall>k\<in>set (farm_builders f). valid w (snd k))"

lemma wf_map_distinct: "wf_map m \<Longrightarrow> distinct m"
  by (simp add: distinct_map)

lemma map_of_fold_mput_unit: "map_of (fold (\<lambda>p acc. mput p () acc) ps m) p =
    (if p \<in> set ps then Some () else map_of m p)"
  by (induction ps arbitrary: m) auto

lemma mkeys_fold_mput_unit: "set (mkeys (fold (\<lambda>p acc. mput p () acc) ps m)) = set ps \<union> set (mkeys m)"
  by (induction ps arbitrary: m) auto

lemma wf_map_fold_mput: "wf_map m \<Longrightarrow> wf_map (fold (\<lambda>p acc. mput p () acc) ps m)"
  by (induction ps arbitrary: m) auto

text \<open>The invariant of a group with one goroutine per member, started in the world \<open>w0\<close>.\<close>

definition tracked :: "('w \<Rightarrow> 'b \<Rightarrow> bool) \<Rightarrow> ('w \<Rightarrow> 'b \<Rightarrow> string) \<Rightarrow> ('w \<Rightarrow> 'b \<Rightarrow> (error + Info) option) \<Rightarrow>
    ('k \<times> 'b) list \<Rightarrow> 'w \<Rightarrow> 'w \<Rightarrow> bool" where
  "tracked valid name settled bs w0 w \<longleftrightarrow>
     (\<forall>k\<in>set bs. valid w (snd k)) \<and> later valid name settled w0 w"

text \<open>
  When the calls of such a group lead to later worlds, what a call returned stays known if
  later worlds keep it.
\<close>

context image_builders
begin

lemma member_group:
  assumes "spawn B = plain_spawn"
    and step: "\<And>k w r w'. k \<in> set bs \<Longrightarrow> valid w (snd k) \<Longrightarrow> call B k w = (Ret r, w') \<Longrightarrow>
      later valid name settled w w' \<and> Q k r w'"
    and keep: "\<And>w w' k r. later valid name settled w w' \<Longrightarrow> valid w (snd k) \<Longrightarrow> Q k r w \<Longrightarrow> Q k r w'"
  shows "plain_group B (set bs) (tracked valid name settled bs w0) (\<lambda>k r w. valid w (snd k) \<and> Q k r w)"
proof (unfold_locales, goal_cases)
  case 1
  then show ?case by (rule assms(1))
next
  case (2 k w r w')
  then show ?case using step [of k w r w'] later_valid later_trans unfolding tracked_def by blast
next
  case (3 k w r w')
  then show ?case using step [of k w r w'] later_valid unfolding tracked_def by blast
next
  case (4 k w r w' y q)
  then show ?case using step [of k w r w'] later_valid keep unfolding tracked_def by blast
qed

lemma tracked_init: "members_ok valid f w \<Longrightarrow> tracked valid name settled (farm_builders f) w w"
  by (simp add: tracked_def members_ok_def later_refl)

lemma tracked_ok:
  "tracked valid name settled (farm_builders f) w0 w \<Longrightarrow> members_ok valid f w0 \<Longrightarrow>
     members_ok valid f w \<and> later valid name settled w0 w"
  by (simp add: tracked_def members_ok_def)

end

sublocale image_builders \<subseteq> nat: plain_group "platforms_body (ib_NativePlatforms ops)" "set bs"
    "tracked valid name settled bs w0"
    "\<lambda>k r w. valid w (snd k) \<and> (\<exists>i. settled w (snd k) = Some i \<and> r = map_sum id NativePlatforms i)" for bs w0
  by (rule member_group)
     (auto simp: platforms_body_def dest: Native_later Native_settles later_settled)

sublocale image_builders \<subseteq> emu: plain_group "platforms_body (ib_EmulatedPlatforms ops)" "set bs"
    "tracked valid name settled bs w0"
    "\<lambda>k r w. valid w (snd k) \<and> (\<exists>i. settled w (snd k) = Some i \<and> r = map_sum id EmulatedPlatforms i)" for bs w0
  by (rule member_group)
     (auto simp: platforms_body_def dest: Emulated_later Emulated_settles later_settled)

sublocale image_builders \<subseteq> sched: plain_group "schedule_body ops" "set bs"
    "tracked valid name settled bs w0"
    "\<lambda>k r w. valid w (snd k) \<and> settled w (snd k) = Some r" for bs w0
  by (rule member_group)
     (auto simp: schedule_body_def dest: Info_later Info_settles later_settled)

sublocale image_builders \<subseteq> stat: plain_group "status_body ops" "set bs"
    "tracked valid name settled bs w0"
    "\<lambda>k r w. valid w (snd k) \<and> fst r = name w (snd k)" for bs w0
proof (rule member_group)
  fix k :: "string \<times> 'b" and w r w'
  assume "valid w (snd k)" and "call (status_body ops) k w = (Ret r, w')"
  then obtain v w1 nm where s: "ib_Status ops (snd k) w = (Ret v, w1)"
    and n: "ib_Name ops (snd k) w1 = (Ret nm, w')" and r: "fst r = nm"
    by (cases k) (auto simp: status_body_def io_bind_RetE)
  have lt: "later valid name settled w w1" using Status_later [OF \<open>valid w (snd k)\<close> s] .
  then have "valid w1 (snd k)" using \<open>valid w (snd k)\<close> later_valid by blast
  from Name_eq [OF this] n r lt show "later valid name settled w w' \<and> fst r = name w' (snd k)" by simp
qed (simp_all add: status_body_def later_name)

section \<open>The platforms of the farm\<close>

lemma platforms_commit [simp]:
  "commit (platforms_body q) k (Inl e) m = (m, Some e)"
  "commit (platforms_body q) k (Inr ps) m = (fold (\<lambda>p acc. mput p () acc) ps m, None)"
  by (simp_all add: platforms_body_def)

lemma platforms_commits:
  "set (mkeys (fst (commits (platforms_body q) L []))) = {p. \<exists>k ps. (k, Inr ps) \<in> set L \<and> p \<in> set ps}
     \<and> wf_map (fst (commits (platforms_body q) L []))"
proof (induction L rule: rev_induct)
  case (snoc x L)
  obtain k r where x: "x = (k, r)" by fastforce
  obtain m es where c: "commits (platforms_body q) L [] = (m, es)" by fastforce
  show ?case
  proof (cases r)
    case (Inl e)
    with snoc x c show ?thesis by (auto simp: commits_snoc)
  next
    case (Inr ps)
    have "set (mkeys (fold (\<lambda>p acc. mput p () acc) ps m)) =
        set ps \<union> {p. \<exists>k ps. (k, Inr ps) \<in> set L \<and> p \<in> set ps}"
      using snoc c unfolding mkeys_fold_mput_unit by simp
    moreover have "wf_map (fold (\<lambda>p acc. mput p () acc) ps m)"
      using snoc c by (simp add: wf_map_fold_mput)
    ultimately show ?thesis
      unfolding x Inr commits_snoc c by (simp del: set_map split_paired_Ex) blast
  qed
qed simp

lemma platforms_errors:
  "snd (commits (platforms_body q) L m) = map (\<lambda>(k, r). (k, case r of Inl e \<Rightarrow> Some e | Inr _ \<Rightarrow> None)) L"
  by (rule commits_errors) (auto split: sum.splits)

lemma log_covers:
  assumes "mset (map fst L) = mset bs" and "k \<in> set bs"
  shows "\<exists>r. (k, r) \<in> set L"
proof -
  have "k \<in> fst ` set L" using assms by (metis list.set_map set_mset_mset)
  then show ?thesis by force
qed

lemma log_member:
  assumes "mset (map fst L) = mset bs" and "(k, r) \<in> set L"
  shows "k \<in> set bs"
  using assms by (metis fst_conv image_eqI list.set_map set_mset_mset)

lemma failed_answer: "Inl e = map_sum id proj i \<Longrightarrow> \<exists>e'. i = Inl e'"
  by (cases i) auto

text \<open>What is known after a query: every member answered, and the platforms are theirs.\<close>

definition all_answered :: "('w \<Rightarrow> 'b \<Rightarrow> (error + Info) option) \<Rightarrow> 'b Farm \<Rightarrow> 'w \<Rightarrow> bool" where
  "all_answered settled f w \<longleftrightarrow> (\<forall>k\<in>set (farm_builders f). \<exists>i. settled w (snd k) = Some (Inr i))"

definition some_failed :: "('w \<Rightarrow> 'b \<Rightarrow> (error + Info) option) \<Rightarrow> 'b Farm \<Rightarrow> 'w \<Rightarrow> bool" where
  "some_failed settled f w \<longleftrightarrow> (\<exists>k\<in>set (farm_builders f). \<exists>e. settled w (snd k) = Some (Inl e))"

definition offered :: "(Info \<Rightarrow> string list) \<Rightarrow> ('w \<Rightarrow> 'b \<Rightarrow> (error + Info) option) \<Rightarrow> 'b Farm \<Rightarrow> 'w \<Rightarrow> string set" where
  "offered proj settled f w =
     {p. \<exists>k\<in>set (farm_builders f). \<exists>i. settled w (snd k) = Some (Inr i) \<and> p \<in> set (proj i)}"

context image_builders
begin

lemma collect_Ret:
  assumes run: "collect_platforms q f evs w = (Ret r, w')" and ok: "members_ok valid f w"
    and grp: "plain_group (platforms_body q) (set (farm_builders f)) (tracked valid name settled (farm_builders f) w)
      (\<lambda>k r w. valid w (snd k) \<and> (\<exists>i. settled w (snd k) = Some i \<and> r = map_sum id proj i))"
  shows "members_ok valid f w' \<and> later valid name settled w w' \<and> (case r of
      Inr ps \<Rightarrow> sorted ps \<and> distinct ps \<and> all_answered settled f w' \<and> set ps = offered proj settled f w'
    | Inl e \<Rightarrow> some_failed settled f w')"
proof -
  let ?B = "platforms_body q"
  obtain x R errs m where fj: "fork_join ?B (farm_builders f) evs [] w = (Ret (x, R, errs, m), w')"
    and r: "r = (case error_or_nil errs of Some e \<Rightarrow> Inl e | None \<Rightarrow> Inr (sort (mkeys m)))"
    using run unfolding collect_platforms_def io_bind_RetE by (fastforce split: option.splits)
  have d: "distinct (farm_builders f)" using ok by (simp add: members_ok_def wf_map_distinct)
  have err: "snd (commit ?B k r m) = (case r of Inl e \<Rightarrow> Some e | Inr _ \<Rightarrow> None)" for k r m
    by (cases r) (simp_all add: platforms_body_def)
  obtain L ans where L: "tracked valid name settled (farm_builders f) w w'"
      "\<And>k r. (k, r) \<in> set L \<longleftrightarrow> k \<in> set (farm_builders f) \<and> r = ans k" "m = fst (commits ?B L [])"
    and said: "\<And>k. k \<in> set (farm_builders f) \<Longrightarrow> valid w' (snd k) \<and> (\<exists>i. settled w' (snd k) = Some i \<and> ans k = map_sum id proj i)"
    and errs: "errs = [] \<longleftrightarrow> (\<forall>k\<in>set (farm_builders f). (case ans k of Inl e \<Rightarrow> Some e | Inr _ \<Rightarrow> None) = None)"
    by (rule plain_group.answers [OF grp fj tracked_init [OF ok] d subset_refl err]) (rule that)
  note ok' = tracked_ok [OF L(1) ok]
  show ?thesis
  proof (cases "errs = []")
    case True
    have all: "\<exists>i. settled w' (snd k) = Some (Inr i) \<and> ans k = Inr (proj i)" if k: "k \<in> set (farm_builders f)" for k
    proof -
      obtain i where "settled w' (snd k) = Some i" "ans k = map_sum id proj i" using said [OF k] by blast
      then show ?thesis using errs True k by (cases i) auto
    qed
    have "set (mkeys m) = {p. \<exists>k ps. (k, Inr ps) \<in> set L \<and> p \<in> set ps}"
      using platforms_commits [of q L] by (simp add: L(3))
    also have "\<dots> = offered proj settled f w'"
      unfolding L(2) offered_def using all by (auto, metis sum.inject(2)) (metis option.inject sum.inject(2))
    finally have "set (mkeys m) = offered proj settled f w'" .
    moreover have "all_answered settled f w'" using all unfolding all_answered_def by blast
    ultimately show ?thesis using True ok' platforms_commits [of q L] by (simp add: r L(3))
  next
    case False
    then obtain k e where "k \<in> set (farm_builders f)" "ans k = Inl e" using errs by (metis sum.case_eq_if sum.collapse(1))
    with said have "some_failed settled f w'" unfolding some_failed_def by (metis failed_answer)
    with False ok' show ?thesis by (auto simp: r neq_Nil_conv)
  qed
qed

lemmas NativePlatforms_Ret =
  collect_Ret [OF _ _ nat.plain_group_axioms, folded Farm_NativePlatforms_def]

lemmas EmulatedPlatforms_Ret =
  collect_Ret [OF _ _ emu.plain_group_axioms, folded Farm_EmulatedPlatforms_def]

end

section \<open>What a schedule has to satisfy\<close>

text \<open>
  The specification: every target platform, and no other, is assigned the name of a member
  that can build for it natively, or that can build for it with emulation when no member can
  natively.
\<close>

definition schedule_spec :: "(string \<times> 'b) list \<Rightarrow> ('b \<Rightarrow> Info) \<Rightarrow> string set \<Rightarrow> (string \<rightharpoonup> string) \<Rightarrow> bool" where
  "schedule_spec bs info targets pb \<longleftrightarrow> dom pb = targets \<and>
     (\<forall>p nm. pb p = Some nm \<longrightarrow> (\<exists>b. map_of bs nm = Some b \<and>
        (p \<in> set (NativePlatforms (info b)) \<or>
         p \<in> set (EmulatedPlatforms (info b)) \<and> (\<forall>c\<in>snd ` set bs. p \<notin> set (NativePlatforms (info c))))))"

definition can_build :: "(string \<times> 'b) list \<Rightarrow> ('b \<Rightarrow> Info) \<Rightarrow> string \<Rightarrow> bool" where
  "can_build bs info p \<longleftrightarrow>
     (\<exists>b\<in>snd ` set bs. p \<in> set (NativePlatforms (info b)) \<or> p \<in> set (EmulatedPlatforms (info b)))"

lemma schedule_spec_can_build:
  assumes "schedule_spec bs info targets pb" and "pb p = Some nm"
  shows "can_build bs info p"
proof -
  obtain b where "map_of bs nm = Some b"
    and "p \<in> set (NativePlatforms (info b)) \<or> p \<in> set (EmulatedPlatforms (info b))"
    using assms unfolding schedule_spec_def by blast
  moreover from this(1) have "b \<in> snd ` set bs" by (force dest: map_of_SomeD)
  ultimately show ?thesis by (auto simp: can_build_def)
qed

definition answer :: "('w \<Rightarrow> 'b \<Rightarrow> (error + Info) option) \<Rightarrow> 'w \<Rightarrow> 'b \<Rightarrow> Info" where
  "answer settled w b = (case settled w b of
     Some (Inr i) \<Rightarrow> i | _ \<Rightarrow> \<lparr>NativePlatforms = [], EmulatedPlatforms = []\<rparr>)"

text \<open>The targets of a schedule: the platforms asked for, or all native platforms.\<close>

definition schedule_targets :: "('w \<Rightarrow> 'b \<Rightarrow> (error + Info) option) \<Rightarrow> 'b Farm \<Rightarrow> string list \<Rightarrow> 'w \<Rightarrow> string set" where
  "schedule_targets settled f ps w = (if ps = [] then offered NativePlatforms settled f w else set ps)"

lemma offered_answer:
  assumes "all_answered settled f w"
  shows "offered proj settled f w = {p. \<exists>b\<in>snd ` set (farm_builders f). p \<in> set (proj (answer settled w b))}"
proof -
  have "settled w (snd k) = Some (Inr (answer settled w (snd k)))" if "k \<in> set (farm_builders f)" for k
    using assms that by (fastforce simp: all_answered_def answer_def)
  then show ?thesis unfolding offered_def by auto
qed

lemma map_of_fold_mput_new:
  "map_of (fold (\<lambda>n m. mput_new n nm m) ps m) p =
     (case map_of m p of Some b \<Rightarrow> Some b | None \<Rightarrow> if p \<in> set ps then Some nm else None)"
  by (induction ps arbitrary: m) (auto simp: map_of_mput_new split: option.splits)

lemma note_info_lookup:
  "map_of (fst (note_info nm info ne)) p = (case map_of (fst ne) p of
     Some b \<Rightarrow> Some b | None \<Rightarrow> if p \<in> set (NativePlatforms info) then Some nm else None)"
  "map_of (snd (note_info nm info ne)) p = (case map_of (snd ne) p of
     Some b \<Rightarrow> Some b | None \<Rightarrow> if p \<in> set (EmulatedPlatforms info) then Some nm else None)"
  by (simp_all add: note_info_def map_of_fold_mput_new)

lemma schedule_commit [simp]:
  "commit (schedule_body ops) k (Inl e) ne = (ne, Some e)"
  "commit (schedule_body ops) k (Inr info) ne = (note_info (fst k) info ne, None)"
  by (simp_all add: schedule_body_def split: prod.splits)

lemma schedule_errors:
  "snd (commits (schedule_body ops) L m) = map (\<lambda>(k, r). (k, case r of Inl e \<Rightarrow> Some e | Inr _ \<Rightarrow> None)) L"
  by (rule commits_errors) (auto split: sum.splits)

text \<open>A platform is in a map exactly when a member that answered offers it, under its name.\<close>

definition noted :: "(Info \<Rightarrow> string list) \<Rightarrow> ((string \<times> 'b) \<times> (error + Info)) list \<Rightarrow> (string \<rightharpoonup> string) \<Rightarrow> bool" where
  "noted proj L m \<longleftrightarrow> (\<forall>p.
     (\<forall>nm. m p = Some nm \<longrightarrow> (\<exists>b i. ((nm, b), Inr i) \<in> set L \<and> p \<in> set (proj i))) \<and>
     (\<forall>k i. (k, Inr i) \<in> set L \<and> p \<in> set (proj i) \<longrightarrow> m p \<noteq> None))"

lemma noted_snoc:
  assumes "noted proj L m"
    and "\<And>p. m' p = (case m p of Some b \<Rightarrow> Some b | None \<Rightarrow> if p \<in> set (proj i) then Some (fst k) else None)"
  shows "noted proj (L @ [(k, Inr i)]) m'"
  using assms unfolding noted_def
  by (auto split: option.splits if_splits) (metis option.distinct(1) prod.collapse)+

lemma schedule_commits:
  "noted NativePlatforms L (map_of (fst (fst (commits (schedule_body ops) L ([], []))))) \<and>
   noted EmulatedPlatforms L (map_of (snd (fst (commits (schedule_body ops) L ([], [])))))"
proof (induction L rule: rev_induct)
  case Nil
  then show ?case by (simp add: noted_def)
next
  case (snoc x L)
  obtain k r where x: "x = (k, r)" by fastforce
  obtain ne es where c: "commits (schedule_body ops) L ([], []) = (ne, es)" by fastforce
  show ?case
  proof (cases r)
    case (Inl e)
    with snoc x c show ?thesis by (auto simp: commits_snoc noted_def)
  next
    case (Inr i)
    have "noted NativePlatforms (L @ [(k, Inr i)]) (map_of (fst (note_info (fst k) i ne)))"
      "noted EmulatedPlatforms (L @ [(k, Inr i)]) (map_of (snd (note_info (fst k) i ne)))"
      using snoc c by (auto intro!: noted_snoc simp: note_info_lookup)
    then show ?thesis by (simp add: x Inr commits_snoc c)
  qed
qed

text \<open>The assignment loop: native first, then emulated, else the error of the first platform
  that nobody offers.\<close>

definition pick :: "capabilities \<Rightarrow> string \<Rightarrow> string option" where
  "pick ne p = (case map_of (fst ne) p of Some b \<Rightarrow> Some b | None \<Rightarrow> map_of (snd ne) p)"

lemma assign_platforms_pick:
  "assign_platforms ne (p # ps) pb = (case pick ne p of
      Some builder \<Rightarrow> assign_platforms ne ps (mput p builder pb)
    | None \<Rightarrow> Inl (Errorf ''no builder capable of building for platform %q available'' [AStr p]))"
  by (simp add: pick_def split: option.splits)

lemma assign_platforms_Inr:
  "assign_platforms ne ps pb = Inr pb' \<Longrightarrow>
     (\<forall>p\<in>set ps. pick ne p \<noteq> None) \<and>
     (\<forall>p. map_of pb' p = (if p \<in> set ps then pick ne p else map_of pb p)) \<and> (wf_map pb \<longrightarrow> wf_map pb')"
proof (induction ps arbitrary: pb)
  case (Cons p ps)
  then show ?case
    unfolding assign_platforms_pick by (cases "pick ne p") (force split: if_splits)+
qed simp

lemma assign_platforms_Inl:
  "assign_platforms ne ps pb = Inl e \<Longrightarrow> \<exists>p\<in>set ps. pick ne p = None \<and>
     e = Errorf ''no builder capable of building for platform %q available'' [AStr p]"
proof (induction ps arbitrary: pb)
  case (Cons p ps)
  then show ?case
    unfolding assign_platforms_pick by (cases "pick ne p") auto
qed simp

context image_builders
begin

text \<open>The group of \<open>Schedule\<close>: everything it learned, as the specification needs it.\<close>

lemma schedule_group:
  assumes fj: "fork_join (schedule_body ops) (farm_builders f) evs ([], []) w = (Ret (x, R, errs, ne), w')"
    and ok: "members_ok valid f w"
  shows "members_ok valid f w' \<and> later valid name settled w w'" and "errs \<noteq> [] \<Longrightarrow> some_failed settled f w'"
    and "errs = [] \<Longrightarrow> all_answered settled f w'"
    and "errs = [] \<Longrightarrow> \<exists>L. noted NativePlatforms L (map_of (fst ne)) \<and> noted EmulatedPlatforms L (map_of (snd ne)) \<and>
      (\<forall>k r. (k, r) \<in> set L \<longleftrightarrow> k \<in> set (farm_builders f) \<and> settled w' (snd k) = Some r)"
proof -
  let ?B = "schedule_body ops"
  have d: "distinct (farm_builders f)" using ok by (simp add: members_ok_def wf_map_distinct)
  obtain L where L: "tracked valid name settled (farm_builders f) w w'"
      "mset (map fst L) = mset (farm_builders f)"
      "\<And>k r. (k, r) \<in> set L \<Longrightarrow> valid w' (snd k) \<and> settled w' (snd k) = Some r"
      "ne = fst (commits ?B L ([], []))"
      "errs = [] \<longleftrightarrow> (\<forall>e\<in>snd ` set (snd (commits ?B L ([], []))). e = None)"
    using sched.serial [OF fj tracked_init [OF ok] d subset_refl] by metis
  have mem: "(k, r) \<in> set L \<longleftrightarrow> k \<in> set (farm_builders f) \<and> settled w' (snd k) = Some r" for k r
    using log_covers [OF L(2), of k] log_member [OF L(2), of k] L(3) by (metis option.inject)
  have err: "errs = [] \<longleftrightarrow> (\<forall>k r. (k, r) \<in> set L \<longrightarrow> (\<exists>i. r = Inr i))"
    using L(5) by (fastforce simp: schedule_errors split: sum.splits)
  show "members_ok valid f w' \<and> later valid name settled w w'" by (rule tracked_ok [OF L(1) ok])
  show "some_failed settled f w'" if "errs \<noteq> []"
    using err that mem unfolding some_failed_def by (metis sum.exhaust)
  show "all_answered settled f w'" if "errs = []"
    using err that mem log_covers [OF L(2)] unfolding all_answered_def by blast
  show "\<exists>L. noted NativePlatforms L (map_of (fst ne)) \<and> noted EmulatedPlatforms L (map_of (snd ne)) \<and>
      (\<forall>k r. (k, r) \<in> set L \<longleftrightarrow> k \<in> set (farm_builders f) \<and> settled w' (snd k) = Some r)"
    using schedule_commits [of L ops] mem L(4) by blast
qed

lemma noted_answers:
  assumes bs: "wf_map (farm_builders f)" and all: "all_answered settled f w" and N: "noted proj L m"
    and mem: "\<And>k r. (k, r) \<in> set L \<longleftrightarrow> k \<in> set (farm_builders f) \<and> settled w (snd k) = Some r"
  shows "m p = Some nm \<Longrightarrow> \<exists>b. map_of (farm_builders f) nm = Some b \<and> p \<in> set (proj (answer settled w b))"
    and "m p = None \<longleftrightarrow> (\<forall>c\<in>snd ` set (farm_builders f). p \<notin> set (proj (answer settled w c)))"
proof -
  have known: "(k, Inr (answer settled w (snd k))) \<in> set L" if k: "k \<in> set (farm_builders f)" for k
  proof -
    obtain i where "settled w (snd k) = Some (Inr i)" using all k by (auto simp: all_answered_def)
    with k show ?thesis by (simp add: mem answer_def)
  qed
  have origin: "map_of (farm_builders f) nm = Some b \<and> i = answer settled w b"
    if "((nm, b), Inr i) \<in> set L" for nm b i
    using that bs by (simp add: mem answer_def)
  show Some: "\<exists>b. map_of (farm_builders f) nm = Some b \<and> p \<in> set (proj (answer settled w b))"
    if "m p = Some nm" for nm
    using N that origin unfolding noted_def by blast
  show "m p = None \<longleftrightarrow> (\<forall>c\<in>snd ` set (farm_builders f). p \<notin> set (proj (answer settled w c)))"
  proof
    assume "m p = None"
    then show "\<forall>c\<in>snd ` set (farm_builders f). p \<notin> set (proj (answer settled w c))"
      using N known unfolding noted_def by blast
  next
    assume none: "\<forall>c\<in>snd ` set (farm_builders f). p \<notin> set (proj (answer settled w c))"
    show "m p = None"
    proof (cases "m p")
      case (Some nm)
      from Some [THEN \<open>\<And>nm. m p = Some nm \<Longrightarrow> _ nm\<close>] none show ?thesis
        by (force dest: map_of_SomeD)
    qed
  qed
qed

lemma pick_sound:
  assumes bs: "wf_map (farm_builders f)" and all: "all_answered settled f w"
    and N: "noted NativePlatforms L (map_of (fst ne))" and E: "noted EmulatedPlatforms L (map_of (snd ne))"
    and mem: "\<And>k r. (k, r) \<in> set L \<longleftrightarrow> k \<in> set (farm_builders f) \<and> settled w (snd k) = Some r"
  shows "pick ne p = Some nm \<Longrightarrow> \<exists>b. map_of (farm_builders f) nm = Some b \<and>
      (p \<in> set (NativePlatforms (answer settled w b)) \<or> p \<in> set (EmulatedPlatforms (answer settled w b)) \<and>
       (\<forall>c\<in>snd ` set (farm_builders f). p \<notin> set (NativePlatforms (answer settled w c))))"
    and "pick ne p = None \<longleftrightarrow> \<not> can_build (farm_builders f) (answer settled w) p"
proof -
  note native = noted_answers [OF bs all N mem] and emul = noted_answers [OF bs all E mem]
  show "\<exists>b. map_of (farm_builders f) nm = Some b \<and>
      (p \<in> set (NativePlatforms (answer settled w b)) \<or> p \<in> set (EmulatedPlatforms (answer settled w b)) \<and>
       (\<forall>c\<in>snd ` set (farm_builders f). p \<notin> set (NativePlatforms (answer settled w c))))"
    if "pick ne p = Some nm"
  proof (cases "map_of (fst ne) p")
    case None
    with that emul(1) [of p nm] native(2) [of p] show ?thesis by (simp add: pick_def) blast
  next
    case (Some nm')
    with that native(1) [of p nm] show ?thesis by (simp add: pick_def) blast
  qed
  have "pick ne p = None \<longleftrightarrow> map_of (fst ne) p = None \<and> map_of (snd ne) p = None"
    by (simp add: pick_def split: option.splits)
  then show "pick ne p = None \<longleftrightarrow> \<not> can_build (farm_builders f) (answer settled w) p"
    unfolding native(2) emul(2) can_build_def by blast
qed

lemma target_platforms_Ret:
  assumes "target_platforms ops f ps evs w = (Ret r, w')" and "members_ok valid f w"
  shows "members_ok valid f w' \<and> later valid name settled w w' \<and> (case r of
      Inr qs \<Rightarrow> set qs = schedule_targets settled f ps w' \<and> (ps = [] \<longrightarrow> all_answered settled f w' \<and> sorted qs)
    | Inl e \<Rightarrow> some_failed settled f w')"
proof (cases "ps = []")
  case True
  with assms obtain r0 where run: "Farm_NativePlatforms ops f evs w = (Ret r0, w')"
    and r: "r = map_sum (WrapE ''reading list of available native platforms: %w'' []) id r0"
    by (auto simp: target_platforms_def wrap_err_def io_bind_RetE id_def)
  from NativePlatforms_Ret [OF run assms(2)] True show ?thesis
    by (cases r0) (auto simp: r schedule_targets_def)
qed (use assms in \<open>auto simp: target_platforms_def schedule_targets_def later_refl\<close>)

lemma targets_later:
  assumes "ps = [] \<longrightarrow> all_answered settled f w" and "members_ok valid f w" and "later valid name settled w w'"
  shows "schedule_targets settled f ps w' = schedule_targets settled f ps w"
proof (cases "ps = []")
  case True
  have "settled w' (snd k) = settled w (snd k)" if k: "k \<in> set (farm_builders f)" for k
  proof -
    obtain i where "settled w (snd k) = Some (Inr i)" using assms(1) True k by (auto simp: all_answered_def)
    then show ?thesis using later_settled [OF assms(3)] assms(2) k by (auto simp: members_ok_def)
  qed
  then show ?thesis by (auto simp: schedule_targets_def offered_def)
qed (simp add: schedule_targets_def)

text \<open>The steps of a run of \<open>Schedule\<close> that returns.\<close>

lemma Schedule_steps:
  assumes run: "Farm_Schedule ops f ps evs1 evs2 w = (Ret r, w')"
  obtains (no_targets) e where "target_platforms ops f ps evs1 w = (Ret (Inl e), w')" "r = Inl e"
  | (grouped) qs w1 x R errs ne where "target_platforms ops f ps evs1 w = (Ret (Inr qs), w1)"
      "fork_join (schedule_body ops) (farm_builders f) evs2 ([], []) w1 = (Ret (x, R, errs, ne), w')"
      "r = finish_schedule errs ne qs"
proof -
  obtain t w1 where t: "target_platforms ops f ps evs1 w = (Ret t, w1)"
    using run by (auto simp: Farm_Schedule_def try_bind_def io_bind_RetE)
  show thesis
  proof (cases t)
    case (Inl e)
    with run t show thesis by (intro no_targets) (auto simp: Farm_Schedule_def)
  next
    case (Inr qs)
    with run t obtain x R errs ne where
        "fork_join (schedule_body ops) (farm_builders f) evs2 ([], []) w1 = (Ret (x, R, errs, ne), w')"
        "r = finish_schedule errs ne qs"
      by (auto simp: Farm_Schedule_def io_bind_RetE)
    from grouped [OF t [unfolded Inr] this] show thesis .
  qed
qed

text \<open>A schedule that is returned satisfies the specification.\<close>

lemma Schedule_Inr:
  assumes run: "Farm_Schedule ops f ps evs1 evs2 w = (Ret (Inr s), w')" and ok: "members_ok valid f w"
  shows "all_answered settled f w' \<and> members_ok valid f w' \<and> wf_map (platformBuilders s) \<and>
    schedule_spec (farm_builders f) (answer settled w') (schedule_targets settled f ps w')
      (map_of (platformBuilders s))"
  using run
proof (cases rule: Schedule_steps)
  case (grouped qs w1 x R errs ne)
  have t: "members_ok valid f w1" "set qs = schedule_targets settled f ps w1" "ps = [] \<longrightarrow> all_answered settled f w1"
    using target_platforms_Ret [OF grouped(1) ok] by simp_all
  have noerr: "errs = []" and pb: "assign_platforms ne qs [] = Inr (platformBuilders s)"
    using grouped(3) by (auto simp: finish_schedule_def split: option.splits sum.splits)
  note g = schedule_group [OF grouped(2) t(1)]
  from g(1) have ok': "members_ok valid f w'" and lt: "later valid name settled w1 w'" by simp_all
  have all: "all_answered settled f w'" using g(3) noerr .
  obtain L where L: "noted NativePlatforms L (map_of (fst ne))" "noted EmulatedPlatforms L (map_of (snd ne))"
    "\<And>k r. (k, r) \<in> set L \<longleftrightarrow> k \<in> set (farm_builders f) \<and> settled w' (snd k) = Some r"
    using g(4) noerr by metis
  have wf: "wf_map (farm_builders f)" using ok by (simp add: members_ok_def)
  note picked = pick_sound [OF wf all L]
  have "schedule_targets settled f ps w' = set qs" using targets_later [OF t(3,1) lt] t(2) by simp
  with assign_platforms_Inr [OF pb] picked(1)
  have "schedule_spec (farm_builders f) (answer settled w') (schedule_targets settled f ps w')
      (map_of (platformBuilders s))"
    unfolding schedule_spec_def by (auto simp: domIff split: if_splits)
  with all ok' assign_platforms_Inr [OF pb] show ?thesis by simp
qed simp

text \<open>An error means that a member did not answer, or that nobody can build for a target.\<close>

lemma Schedule_Inl:
  assumes run: "Farm_Schedule ops f ps evs1 evs2 w = (Ret (Inl e), w')" and ok: "members_ok valid f w"
  shows "some_failed settled f w' \<or> (all_answered settled f w' \<and>
    (\<exists>p\<in>schedule_targets settled f ps w'. \<not> can_build (farm_builders f) (answer settled w') p \<and>
      e = Errorf ''no builder capable of building for platform %q available'' [AStr p]))"
  using run
proof (cases rule: Schedule_steps)
  case (no_targets e')
  then show ?thesis using target_platforms_Ret [OF no_targets(1) ok] by simp
next
  case (grouped qs w1 x R errs ne)
  have t: "members_ok valid f w1" "set qs = schedule_targets settled f ps w1" "ps = [] \<longrightarrow> all_answered settled f w1"
    using target_platforms_Ret [OF grouped(1) ok] by simp_all
  note g = schedule_group [OF grouped(2) t(1)]
  from g(1) have lt: "later valid name settled w1 w'" by simp
  show ?thesis
  proof (cases "errs = []")
    case True
    obtain L where L: "noted NativePlatforms L (map_of (fst ne))" "noted EmulatedPlatforms L (map_of (snd ne))"
      "\<And>k r. (k, r) \<in> set L \<longleftrightarrow> k \<in> set (farm_builders f) \<and> settled w' (snd k) = Some r"
      using g(4) True by metis
    have wf: "wf_map (farm_builders f)" using ok by (simp add: members_ok_def)
    note picked = pick_sound(2) [OF wf g(3) [OF True] L]
    have "assign_platforms ne qs [] = Inl e"
      using grouped(3) True by (auto simp: finish_schedule_def split: sum.splits)
    from assign_platforms_Inl [OF this] picked g(3) [OF True] targets_later [OF t(3,1) lt] t(2)
    show ?thesis by auto
  qed (use g(2) in simp)
qed

lemma Schedule_later:
  assumes run: "Farm_Schedule ops f ps evs1 evs2 w = (Ret r, w')" and ok: "members_ok valid f w"
  shows "members_ok valid f w' \<and> later valid name settled w w'"
  using run
proof (cases rule: Schedule_steps)
  case (no_targets e)
  then show ?thesis using target_platforms_Ret [OF no_targets(1) ok] by simp
next
  case (grouped qs w1 x R errs ne)
  have "members_ok valid f w1" "later valid name settled w w1"
    using target_platforms_Ret [OF grouped(1) ok] by simp_all
  then show ?thesis using schedule_group(1) [OF grouped(2)] later_trans by blast
qed

text \<open>Once all members have answered, the verdict is a function of the world.\<close>

lemma answers_kept:
  assumes "all_answered settled f w" and "members_ok valid f w" and "later valid name settled w w'"
    and "b \<in> snd ` set (farm_builders f)"
  shows "settled w' b = settled w b"
proof -
  obtain k where k: "k \<in> set (farm_builders f)" "b = snd k" using assms(4) by blast
  then obtain i where "settled w b = Some (Inr i)" using assms(1) by (auto simp: all_answered_def)
  then show ?thesis using later_settled [OF assms(3)] assms(2) k by (auto simp: members_ok_def)
qed

lemma Schedule_verdict:
  assumes all: "all_answered settled f w" and ok: "members_ok valid f w"
    and run: "Farm_Schedule ops f ps evs1 evs2 w = (Ret r, w')"
  shows "case r of
      Inr s \<Rightarrow> dom (map_of (platformBuilders s)) = schedule_targets settled f ps w \<and>
        (\<forall>p\<in>schedule_targets settled f ps w. can_build (farm_builders f) (answer settled w) p)
    | Inl e \<Rightarrow> \<exists>p\<in>schedule_targets settled f ps w. \<not> can_build (farm_builders f) (answer settled w) p"
proof -
  from Schedule_later [OF run ok] have lt: "later valid name settled w w'" by simp
  note kept = answers_kept [OF all ok lt]
  have targets: "schedule_targets settled f ps w' = schedule_targets settled f ps w"
    using targets_later [OF _ ok lt] all by blast
  have can: "can_build (farm_builders f) (answer settled w') p = can_build (farm_builders f) (answer settled w) p" for p
    using kept by (auto simp: can_build_def answer_def)
  show ?thesis
  proof (cases r)
    case (Inr s)
    then have "schedule_spec (farm_builders f) (answer settled w') (schedule_targets settled f ps w)
        (map_of (platformBuilders s))"
      using Schedule_Inr [OF run [unfolded Inr] ok] targets by simp
    then have dom: "dom (map_of (platformBuilders s)) = schedule_targets settled f ps w"
      and each: "\<And>p nm. map_of (platformBuilders s) p = Some nm \<Longrightarrow> can_build (farm_builders f) (answer settled w') p"
      by (simp add: schedule_spec_def, rule schedule_spec_can_build)
    from dom each can show ?thesis using Inr by auto
  next
    case (Inl e)
    moreover have "\<not> some_failed settled f w'"
      using all kept by (fastforce simp: some_failed_def all_answered_def)
    ultimately show ?thesis using Schedule_Inl [OF run [unfolded Inl] ok] targets can by auto
  qed
qed

end

end
