(* ===== verification/List_Builders.thy ===== *)
theory List_Builders
  imports Image_Builder Fork_Join
begin

text \<open>
  The two builders of manifest lists: \<open>listFiles\<close> (\<open>files.go\<close>), which writes a \<open>dir:\<close> directory,
  and \<open>listLocal\<close> (\<open>local.go\<close>), which writes to local storage. Both pull the images of the map
  they are given from the image builders in parallel, remove the originals if asked to, and
  put the images into a list.

  The functions of containers/img, libimage and the file system they call are the record
  \<open>list_api\<close>; they are functions of the same world as the image builders'. A manifest list, a
  runtime and a signature policy are handles. The interleavings of the goroutines and the
  order in which a map is visited are arguments.
\<close>

section \<open>The outside\<close>

type_synonym handle = nat

record 'w list_api =
  la_DefaultPolicy :: "('w, handle) sysc"
  la_NewPolicyContext :: "handle \<Rightarrow> ('w, handle) sysc"
  la_TempDir :: "('w, string) sysc"
  la_RemoveAll :: "string \<Rightarrow> 'w \<Rightarrow> 'w"
  la_ParseImageName :: "string \<Rightarrow> error + string"
  la_MkdirAll :: "string \<Rightarrow> ('w, unit) sysc"
  la_TempFile :: "string \<Rightarrow> string \<Rightarrow> ('w, string) sysc"
  la_close :: "string \<Rightarrow> 'w \<Rightarrow> 'w"
  la_manifests_Create :: "'w \<Rightarrow> handle \<times> 'w"
  la_manifests_Add :: "handle \<Rightarrow> string \<Rightarrow> ('w, unit) sysc"
  la_Serialize :: "handle \<Rightarrow> string \<Rightarrow> ('w, string) sysc"
  la_WriteFile :: "string \<Rightarrow> string \<Rightarrow> ('w, unit) sysc"
  la_copy_Image :: "handle \<Rightarrow> string \<Rightarrow> string \<Rightarrow> string list \<Rightarrow> string \<Rightarrow> ('w, unit) sysc"
  la_ReadCustomConfig :: "('w, config) sysc"
  la_NewImageEngine :: "PodmanConfig \<Rightarrow> ('w, engine) sysc"
  la_Shutdown :: "engine \<Rightarrow> 'w \<Rightarrow> 'w"
  la_RuntimeFromStoreOptions :: "StoreOptions \<Rightarrow> ('w, handle) sysc"
  la_runtime_Shutdown :: "handle \<Rightarrow> 'w \<Rightarrow> 'w"
  la_LookupManifestList :: "handle \<Rightarrow> string \<Rightarrow> ('w, handle) sysc"
  la_CreateManifestList :: "handle \<Rightarrow> string \<Rightarrow> ('w, handle) sysc"
  la_Inspect :: "handle \<Rightarrow> ('w, string list) sysc"
  la_RemoveInstance :: "handle \<Rightarrow> string \<Rightarrow> ('w, unit) sysc"
  la_list_Add :: "handle \<Rightarrow> string \<Rightarrow> ('w, unit) sysc"

definition osc :: "('w \<Rightarrow> 'a \<times> 'w) \<Rightarrow> ('w, 'a) io" where
  "osc m = (\<lambda>w. case m w of (a, w') \<Rightarrow> (Ret a, w'))"

lemma osc_Ret [io_split]: "osc m w = (Ret a, w') \<longleftrightarrow> m w = (a, w')"
  by (auto simp: osc_def split: prod.splits)

lemma osc_simp [simp, io_simps]: "m w = (a, w') \<Longrightarrow> osc m w = (Ret a, w')"
  by (simp add: osc_def)

type_synonym 'b images = "(BuildReport \<times> 'b) list"

text \<open>A sequential loop that stops at the first error.\<close>

primrec for_each_err :: "('a \<Rightarrow> ('w, unit) ioe) \<Rightarrow> 'a list \<Rightarrow> ('w, unit) ioe" where
  "for_each_err f [] = ret (Inr ())"
| "for_each_err f (a # as) = try_bind (f a) (\<lambda>_. for_each_err f as)"

text \<open>The group that removes the images from their builders.\<close>

definition rm_body :: "('b, 'w) ImageBuilder \<Rightarrow> (BuildReport \<times> 'b, BuildReport \<times> 'b, error + unit, unit, 'w) body" where
  "rm_body ops = \<lparr>
     spawn = plain_spawn,
     call = (\<lambda>(img, engine). ib_RemoveImage ops engine \<lparr>rm_ImageID = ImageID img\<rparr>),
     commit = (\<lambda>_ r s. (s, (case r of Inl e \<Rightarrow> Some e | Inr _ \<Rightarrow> None)))\<rparr>"

definition remove_images :: "('b, 'w) ImageBuilder \<Rightarrow> (BuildReport \<times> 'b) event list \<Rightarrow> 'b images \<Rightarrow> ('w, unit) ioe" where
  "remove_images ops evs images =
     io_bind (fork_join (rm_body ops) images evs ()) (\<lambda>(_, _, errs, _).
       case error_or_nil errs of
         Some err \<Rightarrow> ret (Inl (WrapE ''removing intermediate images: %w'' [] err))
       | None \<Rightarrow> ret (Inr ()))"

section \<open>files.go\<close>

record listFiles =
  lf_directory :: string
  lf_options :: ListBuilderOptions

definition NewFileListBuilder :: "string \<Rightarrow> ListBuilderOptions \<Rightarrow> error + listFiles" where
  "NewFileListBuilder directory options = Inr \<lparr>lf_directory = directory, lf_options = options\<rparr>"

definition MediaTypeImageIndex :: string where
  "MediaTypeImageIndex = ''application/vnd.oci.image.index.v1+json''"

definition MediaTypeImageManifest :: string where
  "MediaTypeImageManifest = ''application/vnd.oci.image.manifest.v1+json''"

definition DockerV2ListMediaType :: string where
  "DockerV2ListMediaType = ''application/vnd.docker.distribution.manifest.list.v2+json''"

definition DockerV2Schema2MediaType :: string where
  "DockerV2Schema2MediaType = ''application/vnd.docker.distribution.manifest.v2+json''"

text \<open>What the goroutines share: \<open>refs\<close>, \<open>listFormat\<close> and \<open>imageFormat\<close>.\<close>

record file_pulls =
  fp_refs :: "(BuildReport \<times> string) list"
  fp_listFormat :: string
  fp_imageFormat :: string

definition pull_file_spawn :: "'w list_api \<Rightarrow> string \<Rightarrow> BuildReport \<times> 'b \<Rightarrow> ('w, (BuildReport \<times> 'b) \<times> string) ioe" where
  "pull_file_spawn L tempDir ie =
     try_bind (osc (la_TempFile L tempDir ''archive-*.tar'')) (\<lambda>tempFile. ret (Inr (ie, tempFile)))"

definition pull_file_call :: "('b, 'w) ImageBuilder \<Rightarrow> 'w list_api \<Rightarrow> (BuildReport \<times> 'b) \<times> string \<Rightarrow> ('w, string) ioe" where
  "pull_file_call ops L g = (case g of ((img, engine), tempFile) \<Rightarrow>
     wrap_err (WrapE ''pulling image %q to temporary directory: %w'' [AReport (ImageID img) (SaveFormat img)])
       (try_bind (ib_PullToFile ops engine \<lparr>pf_ImageID = ImageID img, pf_SaveFormat = SaveFormat img,
            pf_SaveFile = tempFile\<rparr>) (\<lambda>reference. ret (la_ParseImageName L reference))))"

text \<open>The formats are assigned outside of the mutex, before the pull; every assignment stores the
  same values, and they are read after \<open>Wait\<close> has returned.\<close>

definition pull_file_commit :: "(BuildReport \<times> 'b) \<times> string \<Rightarrow> error + string \<Rightarrow> file_pulls \<Rightarrow> file_pulls \<times> error option" where
  "pull_file_commit g r s = (case g of ((img, engine), tempFile) \<Rightarrow>
     let s1 = (if SaveFormat img = DockerV2Schema2MediaType
               then s\<lparr>fp_listFormat := DockerV2ListMediaType, fp_imageFormat := DockerV2Schema2MediaType\<rparr>
               else s)
     in case r of
          Inl e \<Rightarrow> (s1, Some e)
        | Inr ref \<Rightarrow> (s1\<lparr>fp_refs := mput img ref (fp_refs s1)\<rparr>, None))"

definition pull_file_body :: "('b, 'w) ImageBuilder \<Rightarrow> 'w list_api \<Rightarrow> string \<Rightarrow>
    (BuildReport \<times> 'b, (BuildReport \<times> 'b) \<times> string, error + string, file_pulls, 'w) body" where
  "pull_file_body ops L tempDir = \<lparr>spawn = pull_file_spawn L tempDir, call = pull_file_call ops L,
     commit = pull_file_commit\<rparr>"

text \<open>From the pulled images to the finished directory; \<open>order\<close> is the order of \<open>range refs\<close>.\<close>

definition files_assemble :: "'w list_api \<Rightarrow> listFiles \<Rightarrow> ((BuildReport \<times> string) list \<Rightarrow> (BuildReport \<times> string) list) \<Rightarrow>
    handle \<Rightarrow> string \<Rightarrow> string \<Rightarrow> string \<Rightarrow> handle \<Rightarrow> file_pulls \<Rightarrow> ('w, string) ioe" where
  "files_assemble L m order policyContext tempDir tempRef output lst s =
     (let refs = order (fp_refs s) in
      try_bind (for_each_err (\<lambda>(img, ref).
          wrap_err (WrapE ''adding image %q to list: %w'' [AStr (ImageID img)]) (osc (la_manifests_Add L lst ref))) refs) (\<lambda>_.
      try_bind (wrap_err (WrapE ''serializing manifest list: %w'' []) (osc (la_Serialize L lst (fp_listFormat s)))) (\<lambda>listBytes.
      try_bind (wrap_err (WrapE ''writing temporary manifest list: %w'' [])
          (osc (la_WriteFile L (tempDir @ ''/manifest.json'') listBytes))) (\<lambda>_.
      try_bind (wrap_err (WrapE ''copying images to dir:%q: %w'' [AStr (lf_directory m)])
          (osc (la_copy_Image L policyContext output tempRef (map snd refs) (fp_imageFormat s)))) (\<lambda>_.
      try_bind (if lo_IIDFile (lf_options m) \<noteq> []
                then osc (la_WriteFile L (lo_IIDFile (lf_options m)) ''sha256:'')
                else ret (Inr ())) (\<lambda>_.
      ret (Inr (''dir:'' @ lf_directory m))))))))"

definition listFiles_Build :: "('b, 'w) ImageBuilder \<Rightarrow> 'w list_api \<Rightarrow> listFiles \<Rightarrow>
    ((BuildReport \<times> 'b) \<times> string) event list \<Rightarrow> (BuildReport \<times> 'b) event list \<Rightarrow>
    ((BuildReport \<times> string) list \<Rightarrow> (BuildReport \<times> string) list) \<Rightarrow> 'b images \<Rightarrow> ('w, string) ioe" where
  "listFiles_Build ops L m evs_pull evs_rm order images =
     try_bind (osc (la_DefaultPolicy L)) (\<lambda>defaultPolicy.
     try_bind (osc (la_NewPolicyContext L defaultPolicy)) (\<lambda>policyContext.
     try_bind (osc (la_TempDir L)) (\<lambda>tempDir.
     defer_io (la_RemoveAll L tempDir)
       (let nm = ''dir:'' @ tempDir in
        case la_ParseImageName L nm of
          Inl e \<Rightarrow> ret (Inl (WrapE ''parsing temporary image ref %q: %w'' [AStr nm] e))
        | Inr tempRef \<Rightarrow>
            try_bind (osc (la_MkdirAll L (lf_directory m))) (\<lambda>_.
            case la_ParseImageName L (''dir:'' @ lf_directory m) of
              Inl e \<Rightarrow> ret (Inl (WrapE ''parsing output directory ref %q: %w'' [AStr (''dir:'' @ lf_directory m)] e))
            | Inr output \<Rightarrow>
                io_bind (osc (la_manifests_Create L)) (\<lambda>lst.
                io_bind (fork_join (pull_file_body ops L tempDir) images evs_pull
                    \<lparr>fp_refs = [], fp_listFormat = MediaTypeImageIndex, fp_imageFormat = MediaTypeImageManifest\<rparr>)
                  (\<lambda>(failure, started, errs, s).
                defer_io (fold (\<lambda>g. la_close L (snd g)) (rev started))
                  (case failure of
                     Some e \<Rightarrow> ret (Inl e)
                   | None \<Rightarrow> (case error_or_nil errs of
                       Some err \<Rightarrow> ret (Inl (WrapE ''building: %w'' [] err))
                     | None \<Rightarrow>
                         try_bind (if lo_RemoveIntermediateImages (lf_options m)
                                   then remove_images ops evs_rm images else ret (Inr ())) (\<lambda>_.
                         files_assemble L m order policyContext tempDir tempRef output lst s))))))))))"

section \<open>local.go\<close>

record listLocal =
  ll_listName :: string
  ll_flagSet :: "flagset option"
  ll_config :: config
  ll_storeOptions :: StoreOptions
  ll_options :: ListBuilderOptions

definition NewPodmanLocalListBuilder :: "'w list_api \<Rightarrow> string \<Rightarrow> flagset option \<Rightarrow> StoreOptions option \<Rightarrow>
    ListBuilderOptions \<Rightarrow> ('w, listLocal) ioe" where
  "NewPodmanLocalListBuilder L listName flags storeOptions0 options =
     (let storeOptions = (case storeOptions0 of None \<Rightarrow> zero_StoreOptions | Some s \<Rightarrow> s)
      in if lo_IIDFile options \<noteq> []
         then ret (Inl (Errorf ''local filesystem doesn't use image IDs, --iidfile not supported'' []))
         else try_bind (wrap_err (WrapE ''reading custom config: %w'' []) (osc (la_ReadCustomConfig L))) (\<lambda>custom.
           ret (Inr \<lparr>ll_listName = listName, ll_flagSet = flags, ll_config = custom,
             ll_storeOptions = copy_StoreOptions storeOptions, ll_options = options\<rparr>)))"

definition pull_local_body :: "('b, 'w) ImageBuilder \<Rightarrow> engine \<Rightarrow>
    (BuildReport \<times> 'b, BuildReport \<times> 'b, error + string, (string \<times> 'b) list, 'w) body" where
  "pull_local_body ops localEngine = \<lparr>
     spawn = plain_spawn,
     call = (\<lambda>(img, engine).
       wrap_err (WrapE ''pulling image %q to local storage: %w'' [AReport (ImageID img) (SaveFormat img)])
         (ib_PullToLocal ops engine \<lparr>pl_ImageID = ImageID img, pl_SaveFormat = SaveFormat img,
            pl_Destination = Some localEngine\<rparr>)),
     commit = (\<lambda>(img, engine) r refs. case r of Inl e \<Rightarrow> (refs, Some e) | Inr ref \<Rightarrow> (mput ref engine refs, None))\<rparr>"

text \<open>The images to remove: those whose builder is not the local one.\<close>

fun rm_targets :: "('b, 'w) ImageBuilder \<Rightarrow> 'b images \<Rightarrow> ('w, 'b images) io" where
  "rm_targets ops [] = ret []"
| "rm_targets ops ((img, engine) # images) =
     io_bind (ib_Name ops engine) (\<lambda>nm.
     io_bind (rm_targets ops images) (\<lambda>rest.
     ret (if nm = LocalImageBuilderName then rest else (img, engine) # rest)))"

text \<open>Clear the list, in case it existed, and add the pulled images.\<close>

definition local_assemble :: "'w list_api \<Rightarrow> listLocal \<Rightarrow> ((string \<times> 'b) list \<Rightarrow> (string \<times> 'b) list) \<Rightarrow>
    handle \<Rightarrow> (string \<times> 'b) list \<Rightarrow> ('w, string) ioe" where
  "local_assemble L l order lst refs =
     try_bind (wrap_err (WrapE ''inspecting list %q: %w'' [AStr (ll_listName l)]) (osc (la_Inspect L lst))) (\<lambda>instances.
     try_bind (for_each_err (\<lambda>digest.
         wrap_err (WrapE ''removing instance %q from list %q: %w'' [AStr digest, AStr (ll_listName l)])
           (osc (la_RemoveInstance L lst digest))) instances) (\<lambda>_.
     try_bind (for_each_err (\<lambda>ref.
         wrap_err (WrapE ''adding image %q to list: %w'' [AStr ref]) (osc (la_list_Add L lst ref)))
         (map fst (order refs))) (\<lambda>_.
     ret (Inr (ll_listName l)))))"

definition find_list :: "'w list_api \<Rightarrow> handle \<Rightarrow> string \<Rightarrow> ('w, handle) ioe" where
  "find_list L rt nm =
     wrap_err (WrapE ''creating manifest list %q: %w'' [AStr nm])
       (io_bind (osc (la_LookupManifestList L rt nm)) (\<lambda>r. case r of
          Inl _ \<Rightarrow> osc (la_CreateManifestList L rt nm)
        | Inr lst \<Rightarrow> ret (Inr lst)))"

definition listLocal_Build :: "('b, 'w) ImageBuilder \<Rightarrow> 'w list_api \<Rightarrow> listLocal \<Rightarrow>
    (BuildReport \<times> 'b) event list \<Rightarrow> (BuildReport \<times> 'b) event list \<Rightarrow>
    ((string \<times> 'b) list \<Rightarrow> (string \<times> 'b) list) \<Rightarrow> 'b images \<Rightarrow> ('w, string) ioe" where
  "listLocal_Build ops L l evs_pull evs_rm order images =
     try_bind (wrap_err (WrapE ''initializing local image engine: %w'' [])
         (osc (la_NewImageEngine L (abi_config (ll_flagSet l) (ll_config l) (ll_storeOptions l))))) (\<lambda>localEngine.
     defer_io (la_Shutdown L localEngine)
       (try_bind (wrap_err (WrapE ''initializing local manifest list storage: %w'' [])
           (osc (la_RuntimeFromStoreOptions L (ll_storeOptions l)))) (\<lambda>localRuntime.
        defer_io (la_runtime_Shutdown L localRuntime)
          (try_bind (find_list L localRuntime (ll_listName l)) (\<lambda>lst.
           io_bind (fork_join (pull_local_body ops localEngine) images evs_pull []) (\<lambda>(_, _, errs, refs).
           case error_or_nil errs of
             Some err \<Rightarrow> ret (Inl (WrapE ''building: %w'' [] err))
           | None \<Rightarrow>
               try_bind (if lo_RemoveIntermediateImages (ll_options l)
                         then io_bind (rm_targets ops images) (\<lambda>targets. remove_images ops evs_rm targets)
                         else ret (Inr ())) (\<lambda>_.
               local_assemble L l order lst refs)))))))"

end
