(* ===== verification/Farm_Build.thy ===== *)
theory Farm_Build
  imports Farm List_Builders
begin

text \<open>
  \<open>(*Farm).Build\<close> of \<open>buildfarm.go\<close>: one job per builder of the schedule, the builds in
  parallel, the reports collected, and the manifest list built from them. \<open>sync.Map\<close> is an
  association list: a store is one step, and the order of \<open>Range\<close> is an argument. The two
  goroutines per build that copy output lines are modelled by what they write.
\<close>

section \<open>Jobs\<close>

record 'b job =
  job_platform :: string
  job_os :: string
  job_arch :: string
  job_variant :: string
  job_builder :: 'b

definition split_platform :: "string \<Rightarrow> plat" where
  "split_platform pf = (let p = str_split (CHR ''/'') pf in
     (if length p > 0 \<and> p ! 0 \<noteq> [] then p ! 0 else [],
      if length p > 1 then p ! 1 else [],
      if length p > 2 then p ! 2 else []))"

definition make_job :: "(string \<Rightarrow> string \<Rightarrow> string \<Rightarrow> plat) \<Rightarrow> string \<Rightarrow> 'b \<Rightarrow> 'b job" where
  "make_job norm pf builder = (case split_platform pf of (rawOS, rawArch, rawVariant) \<Rightarrow>
     case norm rawOS rawArch rawVariant of (os, arch, variant) \<Rightarrow>
       \<lparr>job_platform = pf, job_os = os, job_arch = arch, job_variant = variant, job_builder = builder\<rparr>)"

text \<open>The loop over the schedule; the key of a job is the builder's name.\<close>

fun build_jobs :: "(string \<Rightarrow> string \<Rightarrow> string \<Rightarrow> plat) \<Rightarrow> (string \<times> 'b) list \<Rightarrow> (string \<times> string) list \<Rightarrow>
    (string \<times> 'b job) list \<Rightarrow> error + (string \<times> 'b job) list" where
  "build_jobs norm bs [] jobs = Inr jobs"
| "build_jobs norm bs ((pf, builderName) # rest) jobs =
     (case map_of bs builderName of
        None \<Rightarrow> Inl (Errorf ''unknown builder %q'' [AStr builderName])
      | Some builder \<Rightarrow> build_jobs norm bs rest (mput builderName (make_job norm pf builder) jobs))"

section \<open>Options\<close>

definition output_format :: "string \<Rightarrow> error + string" where
  "output_format fmt =
     (if fmt = [] \<or> fmt = OCIv1ImageManifest then Inr OCIv1ImageManifest
      else if fmt = Dockerv2ImageManifest then Inr fmt
      else Inl (Errorf ''unknown output format %q requested'' [AStr fmt]))"

definition list_builder_options :: "BuildOptions \<Rightarrow> ListBuilderOptions" where
  "list_builder_options options = \<lparr>
     lo_ForceRemoveIntermediateContainers = bo_ForceRemoveIntermediateContainers options,
     lo_RemoveIntermediateContainers = bo_RemoveIntermediateContainers options,
     lo_RemoveIntermediateImages = bo_RemoveIntermediateImages options,
     lo_PruneImagesOnSuccess = bo_PruneImagesOnSuccess options,
     lo_IIDFile = bo_IIDFile options\<rparr>"

definition job_options :: "BuildOptions \<Rightarrow> string \<Rightarrow> 'b job \<Rightarrow> BuildOptions" where
  "job_options options pf j = options\<lparr>bo_IIDFile := [],
     bo_Platforms := [(job_os j, job_arch j, job_variant j)],
     bo_Out := PipeOut pf, bo_Err := PipeErr pf\<rparr>"

section \<open>The output of a build\<close>

text \<open>
  The goroutine that reads a build's output: \<open>ReadString\<close> returns the text up to and including
  the next newline; without one it returns an error, which ends the loop.
\<close>

definition log_line :: "string \<Rightarrow> string \<Rightarrow> string \<Rightarrow> string" where
  "log_line pf builder line = ''['' @ pf @ ''@'' @ builder @ ''] '' @ line @ [CHR 0x0A]"

function relay_output :: "string \<Rightarrow> string \<Rightarrow> string \<Rightarrow> string" where
  "relay_output pf builder s = (case str_cut (CHR 0x0A) s of
      (line, None) \<Rightarrow> []
    | (line, Some rest) \<Rightarrow> log_line pf builder line @ relay_output pf builder rest)"
  by pat_completeness auto

termination
proof (relation "measure (\<lambda>(_, _, s). length s)", goal_cases)
  case (2 pf builder s line y rest)
  then have "str_cut (CHR 0x0A) s = (line, Some rest)" by simp
  then have "length rest < length s" by (simp add: str_cut_Some)
  then show ?case by simp
qed simp

declare relay_output.simps [simp del]

section \<open>The list builder\<close>

datatype list_builder = FilesList listFiles | LocalList listLocal

definition choose_list_builder :: "'w list_api \<Rightarrow> 'b Farm \<Rightarrow> string \<Rightarrow> BuildOptions \<Rightarrow> ('w, list_builder) ioe" where
  "choose_list_builder L f reference options =
     (if has_prefix reference ''dir:'' \<or> farm_storeOptions f = None
      then ret (map_sum id FilesList
             (NewFileListBuilder (trim_prefix reference ''dir:'') (list_builder_options options)))
      else try_bind (NewPodmanLocalListBuilder L reference (Some (farm_flagSet f)) (farm_storeOptions f)
             (list_builder_options options)) (\<lambda>l. ret (Inr (LocalList l))))"

text \<open>What the run time chooses: the interleavings of the groups and the orders of the maps.\<close>

record 'b choices =
  ch_builds :: "(string \<times> string) event list"
  ch_results :: "(string \<times> BuildReport \<times> 'b) list \<Rightarrow> (string \<times> BuildReport \<times> 'b) list"
  ch_pull_files :: "((BuildReport \<times> 'b) \<times> string) event list"
  ch_pull_local :: "(BuildReport \<times> 'b) event list"
  ch_rm :: "(BuildReport \<times> 'b) event list"
  ch_file_refs :: "(BuildReport \<times> string) list \<Rightarrow> (BuildReport \<times> string) list"
  ch_local_refs :: "(string \<times> 'b) list \<Rightarrow> (string \<times> 'b) list"

definition ListBuilder_Build :: "('b, 'w) ImageBuilder \<Rightarrow> 'w list_api \<Rightarrow> 'b choices \<Rightarrow> list_builder \<Rightarrow> 'b images \<Rightarrow>
    ('w, string) ioe" where
  "ListBuilder_Build ops L ch lb images = (case lb of
      FilesList m \<Rightarrow> listFiles_Build ops L m (ch_pull_files ch) (ch_rm ch) (ch_file_refs ch) images
    | LocalList l \<Rightarrow> listLocal_Build ops L l (ch_pull_local ch) (ch_rm ch) (ch_local_refs ch) images)"

section \<open>Build\<close>

definition build_call :: "('b, 'w) ImageBuilder \<Rightarrow> (string \<times> 'b job) list \<Rightarrow> string list \<Rightarrow> BuildOptions \<Rightarrow>
    string \<times> string \<Rightarrow> ('w, BuildReport \<times> 'b) ioe" where
  "build_call ops jobs containerFiles options pb = (case pb of (pf, builder) \<Rightarrow>
     (case map_of jobs builder of
        None \<Rightarrow> ret (Inl (Errorf ''unknown connection for %q (shouldn't happen)'' [AStr builder]))
      | Some j \<Rightarrow>
          try_bind (wrap_err (WrapE ''building for %q on %q: %w'' [AStr (job_platform j), AStr builder])
              (ib_Build ops (job_builder j) [] containerFiles (job_options options pf j))) (\<lambda>report.
          ret (Inr (report, job_builder j)))))"

definition build_body :: "('b, 'w) ImageBuilder \<Rightarrow> (string \<times> 'b job) list \<Rightarrow> string list \<Rightarrow> BuildOptions \<Rightarrow>
    (string \<times> string, string \<times> string, error + BuildReport \<times> 'b, (string \<times> BuildReport \<times> 'b) list, 'w) body" where
  "build_body ops jobs containerFiles options = \<lparr>
     spawn = plain_spawn,
     call = build_call ops jobs containerFiles options,
     commit = (\<lambda>(pf, _) r results. case r of
         Inl e \<Rightarrow> (results, Some e)
       | Inr result \<Rightarrow> (mput pf result results, None))\<rparr>"

definition per_arch_builds :: "(string \<times> BuildReport \<times> 'b) list \<Rightarrow> 'b images" where
  "per_arch_builds results = fold (\<lambda>(_, report, builder) m. mput report builder m) results []"

definition run_builds :: "('b, 'w) ImageBuilder \<Rightarrow> 'w list_api \<Rightarrow> 'b choices \<Rightarrow> (string \<times> 'b job) list \<Rightarrow>
    (string \<times> string) list \<Rightarrow> string list \<Rightarrow> BuildOptions \<Rightarrow> list_builder \<Rightarrow> ('w, unit) ioe" where
  "run_builds ops L ch jobs pbs containerFiles options lb =
     io_bind (fork_join (build_body ops jobs containerFiles options) pbs (ch_builds ch) []) (\<lambda>(_, _, errs, results).
       case error_or_nil errs of
         Some err \<Rightarrow> ret (Inl (WrapE ''building: %w'' [] err))
       | None \<Rightarrow>
           try_bind (ListBuilder_Build ops L ch lb (per_arch_builds (ch_results ch results))) (\<lambda>location.
           ret (Inr ())))"

definition Farm_Build :: "('b, 'w) ImageBuilder \<Rightarrow> 'w list_api \<Rightarrow> (string \<Rightarrow> string \<Rightarrow> string \<Rightarrow> plat) \<Rightarrow> 'b Farm \<Rightarrow>
    'b choices \<Rightarrow> string \<Rightarrow> Schedule \<Rightarrow> string list \<Rightarrow> BuildOptions \<Rightarrow> ('w, unit) ioe" where
  "Farm_Build ops L norm f ch reference schedule containerFiles options0 =
     (case output_format (bo_OutputFormat options0) of
        Inl e \<Rightarrow> ret (Inl e)
      | Inr fmt \<Rightarrow>
          (let options = options0\<lparr>bo_OutputFormat := fmt\<rparr> in
           case build_jobs norm (farm_builders f) (platformBuilders schedule) [] of
             Inl e \<Rightarrow> ret (Inl e)
           | Inr jobs \<Rightarrow>
               try_bind (wrap_err (WrapE ''preparing to build list: %w'' [])
                   (choose_list_builder L f reference options)) (\<lambda>lb.
               run_builds ops L ch jobs (platformBuilders schedule) containerFiles options lb)))"

section \<open>Laws\<close>

text \<open>The job of a builder is the one of the last platform that the loop saw with it.\<close>

definition last_platform :: "(string \<times> string) list \<Rightarrow> string \<Rightarrow> string option" where
  "last_platform pbs bn = (case filter (\<lambda>pb. snd pb = bn) pbs of [] \<Rightarrow> None | ms \<Rightarrow> Some (fst (last ms)))"

lemma last_platform_Nil [simp]: "last_platform [] bn = None"
  by (simp add: last_platform_def)

lemma last_platform_Cons:
  "last_platform ((pf, b) # pbs) bn = (case last_platform pbs bn of
     Some q \<Rightarrow> Some q | None \<Rightarrow> if b = bn then Some pf else None)"
  by (auto simp: last_platform_def split: list.splits)

lemma build_jobs_lookup:
  assumes "build_jobs norm bs pbs jobs0 = Inr jobs"
  shows "map_of jobs bn = (case last_platform pbs bn of
      Some q \<Rightarrow> Some (make_job norm q (the (map_of bs bn))) | None \<Rightarrow> map_of jobs0 bn)"
    and "(pf, bn) \<in> set pbs \<Longrightarrow> map_of bs bn \<noteq> None"
  using assms
proof (induction norm bs pbs jobs0 arbitrary: bn pf rule: build_jobs.induct)
  case (2 norm bs p b rest jobs0)
  {
    case 1
    then show ?case using 2(1) by (auto simp: last_platform_Cons split: option.splits)
  next
    case 2
    then show ?case using "2.IH"(2) by (auto split: option.splits)
  }
qed simp_all

lemma last_platform_mem:
  assumes "(pf, bn) \<in> set pbs"
  shows "\<exists>q. last_platform pbs bn = Some q \<and> (q, bn) \<in> set pbs"
proof -
  let ?ms = "filter (\<lambda>pb. snd pb = bn) pbs"
  have "(pf, bn) \<in> set ?ms" using assms by simp
  then have ne: "?ms \<noteq> []" by (metis empty_iff empty_set)
  then have "last ?ms \<in> set ?ms" by (rule last_in_set)
  then have "last ?ms \<in> set pbs" "snd (last ?ms) = bn" by simp_all
  then have "(fst (last ?ms), bn) \<in> set pbs" by (metis prod.collapse)
  with ne show ?thesis by (auto simp: last_platform_def split: list.splits)
qed

text \<open>When no builder is used twice, the job of a builder is the one of its platform.\<close>

lemma last_platform_inj:
  assumes "(pf, bn) \<in> set pbs" and "distinct (map snd pbs)"
  shows "last_platform pbs bn = Some pf"
  using last_platform_mem [OF assms(1)] assms
  by (metis distinct_map inj_onD prod.inject snd_conv)

lemma build_commit [simp]:
  "commit (build_body ops jobs files options) k (Inl e) m = (m, Some e)"
  "commit (build_body ops jobs files options) k (Inr r) m = (mput (fst k) r m, None)"
  by (simp_all add: build_body_def split: prod.splits)

lemma build_errors:
  "snd (commits (build_body ops jobs files options) L m) =
     map (\<lambda>(k, r). (k, case r of Inl e \<Rightarrow> Some e | Inr _ \<Rightarrow> None)) L"
  by (rule commits_errors) (auto split: sum.splits)

text \<open>A call of the group: what is known of it afterwards is that it was made.\<close>

interpretation build: plain_group "build_body ops jobs files options" UNIV "\<lambda>_. True"
    "\<lambda>k r _. \<exists>w1 w2. build_call ops jobs files options k w1 = (Ret r, w2)"
  for ops jobs files options
  by unfold_locales (auto simp: build_body_def)

lemma build_results:
  assumes "wf_map pbs" and "mset (map fst L) = mset pbs" and "\<And>k r. (k, r) \<in> set L \<Longrightarrow> \<exists>v. r = Inr v"
  shows "map_of (fst (commits (build_body ops jobs files options) L [])) pf = Some v \<longleftrightarrow>
    (\<exists>bn. ((pf, bn), Inr v) \<in> set L)"
proof -
  have "map_of (fst (commits (build_body ops jobs files options) L [])) pf = Some v \<longleftrightarrow>
      (\<exists>bn. ((pf, bn), Inr v) \<in> set L)" if "distinct (map (\<lambda>x. fst (fst x)) L)" "\<And>k r. (k, r) \<in> set L \<Longrightarrow> \<exists>v. r = Inr v" for L
    using that
  proof (induction L rule: rev_induct)
    case (snoc x L)
    obtain q bn u where x: "x = ((q, bn), Inr u)" using snoc.prems(2) by (cases x) fastforce
    obtain m es where c: "commits (build_body ops jobs files options) L [] = (m, es)" by fastforce
    have "distinct (map (\<lambda>x. fst (fst x)) L)" "q \<notin> (\<lambda>x. fst (fst x)) ` set L"
      using snoc.prems(1) by (simp_all add: x)
    moreover have "\<exists>v. r = Inr v" if "(k, r) \<in> set L" for k r
      using snoc.prems(2) [of k r] that by simp
    ultimately have "map_of m pf = Some v \<longleftrightarrow> (\<exists>bn. ((pf, bn), Inr v) \<in> set L)"
      and "((q, b), r) \<notin> set L" for b r
      using snoc.IH c by (simp_all del: split_paired_Ex) force
    then show ?case by (auto simp: x commits_snoc c)
  qed simp
  moreover have "distinct (map (\<lambda>x. fst (fst x)) L)"
  proof -
    have "mset (map fst (map fst L)) = mset (map fst pbs)" using assms(2) by (metis mset_map)
    then have "distinct (map fst (map fst L))" using assms(1) by (metis mset_eq_imp_distinct_iff)
    then show ?thesis by (simp add: comp_def)
  qed
  ultimately show ?thesis using assms(3) by blast
qed

lemma build_call_Inr:
  "build_call ops jobs files options (pf, bn) w = (Ret (Inr (report, b)), w') \<longleftrightarrow>
     (\<exists>j. map_of jobs bn = Some j \<and> b = job_builder j \<and>
        ib_Build ops b [] files (job_options options pf j) w = (Ret (Inr report), w'))"
  by (auto simp: build_call_def try_bind_Inr wrap_err_Inr split: option.splits)

lemma build_call_error:
  assumes "build_call ops jobs files options k w = (Ret (Inl e), w')"
  shows "listed (Some e) = [e]"
  using assms by (cases k)
    (auto simp: build_call_def try_bind_Inl wrap_err_Inl split: option.splits)

text \<open>The errors among the answers of the builds.\<close>

definition failures :: "(string \<times> string \<Rightarrow> error + 'a) \<Rightarrow> (string \<times> string) list \<Rightarrow> error list" where
  "failures ans pbs = concat (map (\<lambda>pb. case ans pb of Inl e \<Rightarrow> [e] | Inr _ \<Rightarrow> []) pbs)"

lemma failures_sum:
  "mset (failures ans pbs) = (\<Sum>pb\<in>#mset pbs. mset (case ans pb of Inl e \<Rightarrow> [e] | Inr _ \<Rightarrow> []))"
  by (induction pbs) (simp_all add: failures_def)

lemma failures_Nil: "failures ans pbs = [] \<longleftrightarrow> (\<forall>pb\<in>set pbs. \<exists>v. ans pb = Inr v)"
proof -
  have "(case r of Inl e \<Rightarrow> [e] | Inr _ \<Rightarrow> []) = [] \<longleftrightarrow> (\<exists>v. r = Inr v)" for r :: "error + 'a"
    by (cases r) simp_all
  then show ?thesis by (simp add: failures_def)
qed

lemma build_results_wf: "wf_map (fst (commits (build_body ops jobs files options) G []))"
proof (induction G rule: rev_induct)
  case (snoc y G)
  then show ?case by (cases y rule: prod.exhaust, cases "snd y") (auto simp: commits_snoc split: prod.splits)
qed simp

text \<open>
  The group of the builds, whatever the interleaving: each build was called once and gave one answer,
  its errors are those of the answers, and without an error the results are the answers.
\<close>

lemma build_group_answers:
  assumes run: "fork_join (build_body ops jobs files options) pbs evs [] w = (Ret (x, R, errs, results), w')"
    and wf: "wf_map pbs"
  obtains ans where
    "\<And>pb. pb \<in> set pbs \<Longrightarrow> \<exists>w1 w2. build_call ops jobs files options pb w1 = (Ret (ans pb), w2)"
    "mset errs = mset (failures ans pbs)"
    "wf_map results" "\<And>pf v. failures ans pbs = [] \<Longrightarrow> map_of results pf = Some v \<longleftrightarrow> (\<exists>bn. (pf, bn) \<in> set pbs \<and> ans (pf, bn) = Inr v)"
proof -
  have err: "snd (commit (build_body ops jobs files options) k r m) = (case r of Inl e \<Rightarrow> Some e | Inr _ \<Rightarrow> None)" for k r m
    by (cases r) simp_all
  obtain L ans where L: "mset (map fst L) = mset pbs" "\<And>k r. (k, r) \<in> set L \<longleftrightarrow> k \<in> set pbs \<and> r = ans k"
    "\<And>k. k \<in> set pbs \<Longrightarrow> \<exists>w1 w2. build_call ops jobs files options k w1 = (Ret (ans k), w2)"
    "results = fst (commits (build_body ops jobs files options) L [])"
    "mset errs = (\<Sum>k\<in>#mset pbs. mset (listed (case ans k of Inl e \<Rightarrow> Some e | Inr _ \<Rightarrow> None)))"
    using build.answers [OF run TrueI wf_map_distinct [OF wf] subset_UNIV err] by metis
  have "listed (case ans k of Inl e \<Rightarrow> Some e | Inr _ \<Rightarrow> None) = (case ans k of Inl e \<Rightarrow> [e] | Inr _ \<Rightarrow> [])"
    if "k \<in> set pbs" for k
    using L(3) [OF that] by (auto split: sum.splits elim: build_call_error)
  then have errs: "mset errs = mset (failures ans pbs)"
    unfolding L(5) failures_sum by (intro arg_cong [where f = sum_mset] image_mset_cong) simp
  show thesis
  proof (rule that [OF L(3) errs])
    show "wf_map results" unfolding L(4) by (rule build_results_wf)
  next
    fix pf v
    assume "failures ans pbs = []"
    then show "map_of results pf = Some v \<longleftrightarrow> (\<exists>bn. (pf, bn) \<in> set pbs \<and> ans (pf, bn) = Inr v)"
      unfolding L(4) using build_results [OF wf L(1)] L(2) by (metis failures_Nil)
  qed
qed

text \<open>A run of the builds that succeeds: every build was made and its result is in the map.\<close>

lemma run_builds_Inr:
  assumes run: "run_builds ops L ch jobs pbs files options lb w = (Ret (Inr u), w')" and wf: "wf_map pbs"
  obtains results w1 location where
    "ListBuilder_Build ops L ch lb (per_arch_builds (ch_results ch results)) w1 = (Ret (Inr location), w')"
    "\<And>pf bn. (pf, bn) \<in> set pbs \<Longrightarrow> \<exists>v w2 w3. map_of results pf = Some v \<and>
       build_call ops jobs files options (pf, bn) w2 = (Ret (Inr v), w3)"
    "\<And>pf v. map_of results pf = Some v \<Longrightarrow> \<exists>bn. (pf, bn) \<in> set pbs \<and>
       (\<exists>w2 w3. build_call ops jobs files options (pf, bn) w2 = (Ret (Inr v), w3))"
    "wf_map results"
proof -
  obtain x R errs results w1 where
      fj: "fork_join (build_body ops jobs files options) pbs (ch_builds ch) [] w = (Ret (x, R, errs, results), w1)"
    and cont: "(case error_or_nil errs of
         Some err \<Rightarrow> ret (Inl (WrapE ''building: %w'' [] err))
       | None \<Rightarrow> try_bind (ListBuilder_Build ops L ch lb (per_arch_builds (ch_results ch results))) (\<lambda>location.
           ret (Inr ()))) w1 = (Ret (Inr u), w')"
    using run unfolding run_builds_def io_bind_RetE by auto
  have noerr: "errs = []" using cont by (cases errs) auto
  with cont obtain location where
      lb: "ListBuilder_Build ops L ch lb (per_arch_builds (ch_results ch results)) w1 = (Ret (Inr location), w')"
    by (auto simp: try_bind_Inr)
  show thesis
  proof (rule build_group_answers [OF fj wf])
    fix ans
    assume called: "\<And>pb. pb \<in> set pbs \<Longrightarrow> \<exists>w1 w2. build_call ops jobs files options pb w1 = (Ret (ans pb), w2)"
      and "mset errs = mset (failures ans pbs)" and wfr: "wf_map results"
      and res: "\<And>pf v. failures ans pbs = [] \<Longrightarrow>
        map_of results pf = Some v \<longleftrightarrow> (\<exists>bn. (pf, bn) \<in> set pbs \<and> ans (pf, bn) = Inr v)"
    then have none: "failures ans pbs = []" using noerr by simp
    show thesis
    proof (rule that [OF lb _ _ wfr])
      fix pf bn assume mem: "(pf, bn) \<in> set pbs"
      then obtain v where "ans (pf, bn) = Inr v" using none unfolding failures_Nil by blast
      with called [OF mem] res [OF none] mem show "\<exists>v w2 w3. map_of results pf = Some v \<and>
          build_call ops jobs files options (pf, bn) w2 = (Ret (Inr v), w3)" by metis
    next
      fix pf v assume "map_of results pf = Some v"
      with res [OF none] called show "\<exists>bn. (pf, bn) \<in> set pbs \<and>
          (\<exists>w2 w3. build_call ops jobs files options (pf, bn) w2 = (Ret (Inr v), w3))" by metis
    qed
  qed
qed

lemma run_builds_called:
  assumes "run_builds ops L ch jobs pbs files options lb w = (Ret (Inr u), w')" and "wf_map pbs"
    and mem: "(pf, bn) \<in> set pbs"
  shows "\<exists>v w2 w3. build_call ops jobs files options (pf, bn) w2 = (Ret (Inr v), w3)"
proof (rule run_builds_Inr [OF assms(1,2)])
  fix results w1 location
  assume "\<And>pf bn. (pf, bn) \<in> set pbs \<Longrightarrow> \<exists>v w2 w3. map_of results pf = Some v \<and>
       build_call ops jobs files options (pf, bn) w2 = (Ret (Inr v), w3)"
  from this [OF mem] show ?thesis by blast
qed

lemma per_arch_lookup:
  assumes "map_of (per_arch_builds rs) report = Some b"
  shows "\<exists>pf. (pf, report, b) \<in> set rs"
proof -
  have "map_of (fold (\<lambda>(_, report, builder) m. mput report builder m) rs m0) report = Some b \<Longrightarrow>
      (\<exists>pf. (pf, report, b) \<in> set rs) \<or> map_of m0 report = Some b" for m0
    by (induction rs arbitrary: m0) (fastforce split: if_splits)+
  from this [of "[]"] assms show ?thesis by (simp add: per_arch_builds_def)
qed

lemma per_arch_keys: "fst ` set (per_arch_builds rs) = fst ` snd ` set rs"
proof -
  have "fst ` set (fold (\<lambda>(_, report, builder) m. mput report builder m) rs m0) = fst ` snd ` set rs \<union> fst ` set m0" for m0
  proof (induction rs arbitrary: m0)
    case (Cons r rs)
    then show ?case by (cases r) (simp add: Un_commute insert_commute)
  qed simp
  from this [of "[]"] show ?thesis by (simp add: per_arch_builds_def)
qed

text \<open>The stages of a build of the farm that succeeds.\<close>

lemma Farm_Build_Inr:
  assumes "Farm_Build ops L norm f ch reference s files options w = (Ret (Inr u), w')"
  obtains fmt jobs lb w1 where "output_format (bo_OutputFormat options) = Inr fmt"
    "build_jobs norm (farm_builders f) (platformBuilders s) [] = Inr jobs"
    "run_builds ops L ch jobs (platformBuilders s) files (options\<lparr>bo_OutputFormat := fmt\<rparr>) lb w1 = (Ret (Inr u), w')"
  using assms
  by (auto simp: Farm_Build_def Let_def try_bind_Inr split: sum.splits)

section \<open>Relayed output\<close>

lemma relay_output_lines:
  "relay_output pf builder s = concat (map (log_line pf builder) (butlast (str_split (CHR 0x0A) s)))"
proof (induction pf builder s rule: relay_output.induct)
  case (1 pf builder s)
  show ?case
  proof (cases "str_cut (CHR 0x0A) s")
    case (Pair line r)
    show ?thesis
    proof (cases r)
      case None
      then have "relay_output pf builder s = []"
        by (subst relay_output.simps) (simp add: Pair del: str_cut_None)
      moreover have "CHR 0x0A \<notin> set s" using Pair None by simp
      ultimately show ?thesis by (simp add: str_split_id)
    next
      case (Some rest)
      with Pair have s: "CHR 0x0A \<notin> set line" "s = line @ CHR 0x0A # rest" by (auto dest: str_cut_SomeD)
      have "relay_output pf builder s = log_line pf builder line @ relay_output pf builder rest"
        by (subst relay_output.simps) (simp add: Pair Some)
      with 1 [OF Pair [symmetric, unfolded Some], of rest] s show ?thesis
        by (simp add: str_split_append)
    qed
  qed
qed

end
