(* ===== verification/Sample_Farm.thy ===== *)
theory Sample_Farm
  imports Farm_Build
begin

text \<open>
  A concrete outside and a concrete farm, on which the definitions are evaluated: a local
  builder for \<open>linux/amd64\<close> that can emulate \<open>linux/s390x\<close>, and a connection to a \<open>linux/arm64\<close>
  host. The outside world is a log of the engine calls that change something.
\<close>

type_synonym log = "string list"

definition logged :: "string \<Rightarrow> 'a \<Rightarrow> log \<Rightarrow> (error + 'a) \<times> log" where
  "logged m a = (\<lambda>x. (Inr a, x @ [m]))"

definition sample_config :: config where
  "sample_config = \<lparr>ServiceDestinations = [(''arm'', \<lparr>URI = ''ssh://arm'', Identity = [], IsMachine = False\<rparr>)]\<rparr>"

definition arch_of :: "podman_BuildOptions \<Rightarrow> string" where
  "arch_of o1 = (case pb_Platforms o1 of (_, arch, _) # _ \<Rightarrow> arch | [] \<Rightarrow> [])"

definition sample_podman :: "log podman_api" where
  "sample_podman = \<lparr>
     pa_ReadCustomConfig = (\<lambda>x. (Inr sample_config, x)),
     pa_NewImageEngine = (\<lambda>c x. (Inr (if pc_EngineMode c = ABIMode then 0 else 1), x)),
     pa_NewConnectionWithIdentity = (\<lambda>u i m x. (Inr 7, x)),
     pa_NewConnection = (\<lambda>u x. (Inr 7, x)),
     pa_system_Info = (\<lambda>c x. (Inr (''linux'', ''arm64''), x)),
     pa_Shutdown = (\<lambda>e x. x @ [''shutdown'']),
     pa_Config = (\<lambda>e x. (Inr (), x)),
     pa_Build = (\<lambda>e files o1. logged (''build '' @ arch_of o1) (''image-'' @ arch_of o1)),
     pa_Save = (\<lambda>e i fmt file. logged (''save '' @ i) ()),
     pa_Exists = (\<lambda>e i x. (Inr (e = 0 \<and> i = ''image-amd64''), x)),
     pa_Load = (\<lambda>e file. logged ''load'' ()),
     pa_Remove = (\<lambda>e is x. ((0, []), x @ [''remove''])),
     pa_Prune = (\<lambda>e a fs. logged ''prune'' [(''old'', None), ([], None), (''busy'', Some (ExtE ''in use''))]),
     pa_TempFile = (\<lambda>x. (Inr ''/tmp/f'', x)),
     pa_close = (\<lambda>f x. x),
     pa_os_Remove = (\<lambda>f x. x),
     pa_DefaultPlatform = ''linux/amd64'',
     pa_NormalizePlatform = (\<lambda>a b c. (a, b, c)),
     pa_linux = False,
     pa_binfmt_misc = (\<lambda>x. Inl (ExtE []))\<rparr>"

definition sample_docker :: "log docker_api" where
  "sample_docker = \<lparr>
     da_ReadCustomConfig = (\<lambda>x. (Inr sample_config, x)),
     da_NewTLSClient = (\<lambda>a b c d x. (Inr 0, x)),
     da_NewClient = (\<lambda>a x. (Inr 0, x)),
     da_Info = (\<lambda>c x. (Inr (''linux'', ''x86_64''), x)),
     da_Ping = (\<lambda>c x. (Inr (), x)),
     da_RAMInBytes = (\<lambda>s. if s = [] then Inl (ExtE ''invalid size'') else Inr 1024),
     da_Tar = (\<lambda>d x. (Inr 0, x)),
     da_close_stream = (\<lambda>s x. x),
     da_BuildImage = (\<lambda>c o1. logged ''docker build'' ()),
     da_Create = (\<lambda>f x. (Inr f, x)),
     da_TempFile = (\<lambda>x. (Inr ''/tmp/f'', x)),
     da_close = (\<lambda>f x. x),
     da_os_Remove = (\<lambda>f x. x @ [''rm '' @ f]),
     da_ExportImage = (\<lambda>c i f x. (Inl (ExtE ''no such image''), x)),
     da_Load = (\<lambda>e f. logged ''load'' ()),
     da_RemoveImage = (\<lambda>c i. logged ''docker rmi'' ()),
     da_PruneImages = (\<lambda>c fs x. (Inr [''old'', []], x))\<rparr>"

definition sample_local :: podmanLocal where
  "sample_local = \<lparr>pml_flagSet = NewFlagSet ''buildfarm'', pml_config = sample_config,
     pml_storeOptions = zero_StoreOptions, pml_engine = 0, pml_once = True, pml_platformsErr = None,
     pml_os = ''linux'', pml_arch = ''amd64'', pml_variant = [],
     pml_nativePlatforms = [''linux/amd64''], pml_emulatedPlatforms = [''linux/s390x'']\<rparr>"

definition sample_remote :: podmanRemote where
  "sample_remote = \<lparr>pmr_name = ''arm'', pmr_flagSet = NewFlagSet ''buildfarm'', pmr_config = sample_config,
     pmr_uri = ''ssh://arm'', pmr_identity = [], pmr_isMachine = False, pmr_connCtx = Some 7, pmr_engine = Some 1,
     pmr_once = False, pmr_platformsErr = None, pmr_os = [], pmr_arch = [], pmr_variant = [],
     pmr_nativePlatforms = [], pmr_emulatedPlatforms = []\<rparr>"

definition sample_world :: "log farm_world" where
  "sample_world = \<lparr>heap = [LocalObj sample_local, RemoteObj sample_remote], ext = []\<rparr>"

definition sample_farm :: "builder Farm" where
  "sample_farm = \<lparr>farm_name = [], farm_flagSet = NewFlagSet ''buildfarm'',
     farm_storeOptions = Some zero_StoreOptions, farm_builders = [(''arm'', 1), ([], 0)]\<rparr>"

abbreviation sample_ops :: "(builder, log farm_world) ImageBuilder" where
  "sample_ops \<equiv> builders sample_podman sample_docker"

text \<open>An interleaving: the goroutines overlap, and the second one commits first.\<close>

definition overlap :: "'g \<Rightarrow> 'g \<Rightarrow> 'g event list" where
  "overlap a b = [Spawn, Call a, Spawn, Call b, Commit b, Commit a, Join a, Join b]"

definition in_turn :: "'g \<Rightarrow> 'g \<Rightarrow> 'g event list" where
  "in_turn a b = [Spawn, Spawn, Call a, Commit a, Join a, Call b, Commit b, Join b]"

lemmas sample_defs = sample_podman_def sample_local_def sample_remote_def sample_world_def
  sample_farm_def overlap_def in_turn_def logged_def arch_of_def

lemmas group_eval = fork_join_def group_init_def all_finished_def join_err_def io_bind_def
  error_or_nil_def

lemmas method_eval = dispatch_def podmanLocal_Info_def podmanRemote_Info_def remote_once_def
  podmanRemote_fetchInfo_def with_err_def self_def sys_def podmanLocal_NativePlatforms_def
  podmanRemote_NativePlatforms_def podmanLocal_EmulatedPlatforms_def podmanRemote_EmulatedPlatforms_def

lemmas schedule_eval = Farm_Schedule_def target_platforms_def Farm_NativePlatforms_def
  collect_platforms_def platforms_body_def schedule_body_def note_info_def mput_new_def
  finish_schedule_def try_bind_def wrap_err_def

lemma sample_members: "members_ok is_builder sample_farm sample_world"
  by (simp add: members_ok_def is_builder_def sample_farm_def sample_world_def)

text \<open>The world after the platforms of the remote host were fetched.\<close>

definition sample_world2 :: "log farm_world" where
  "sample_world2 = sample_world\<lparr>heap := [LocalObj sample_local, RemoteObj (sample_remote\<lparr>pmr_once := True,
     pmr_os := ''linux'', pmr_arch := ''arm64'', pmr_nativePlatforms := [''linux/arm64'']\<rparr>)]\<rparr>"

lemma sample_schedule:
  "Farm_Schedule sample_ops sample_farm [''linux/amd64'', ''linux/arm64'', ''linux/s390x''] []
     (overlap (''arm'', 1) ([], 0)) sample_world =
   (Ret (Inr \<lparr>platformBuilders = [(''linux/amd64'', []), (''linux/arm64'', ''arm''), (''linux/s390x'', [])]\<rparr>),
    sample_world2)"
  by (simp add: schedule_eval group_eval method_eval sample_defs sample_world2_def)

lemma sample_schedule_native:
  "Farm_Schedule sample_ops sample_farm [] (in_turn (''arm'', 1) ([], 0))
     (overlap (''arm'', 1) ([], 0)) sample_world =
   (Ret (Inr \<lparr>platformBuilders = [(''linux/amd64'', []), (''linux/arm64'', ''arm'')]\<rparr>), sample_world2)"
  by (simp add: schedule_eval group_eval method_eval sample_defs sample_world2_def)

lemma sample_schedule_fails:
  "Farm_Schedule sample_ops sample_farm [''linux/mips''] [] (overlap (''arm'', 1) ([], 0)) sample_world =
   (Ret (Inl (Errorf ''no builder capable of building for platform %q available'' [AStr ''linux/mips''])),
    sample_world2)"
  by (simp add: schedule_eval group_eval method_eval sample_defs sample_world2_def)

section \<open>Lists\<close>

definition pure_sys :: "'a \<Rightarrow> 'w \<Rightarrow> (error + 'a) \<times> 'w" where
  "pure_sys a = (\<lambda>w. (Inr a, w))"

definition sample_lists :: "'w list_api" where
  "sample_lists = \<lparr>
     la_DefaultPolicy = pure_sys 0, la_NewPolicyContext = (\<lambda>p. pure_sys 0),
     la_TempDir = pure_sys ''/tmp/d'', la_RemoveAll = (\<lambda>d w. w),
     la_ParseImageName = (\<lambda>n. Inr n), la_MkdirAll = (\<lambda>d. pure_sys ()),
     la_TempFile = (\<lambda>d p. pure_sys (d @ ''/archive-1.tar'')), la_close = (\<lambda>f w. w),
     la_manifests_Create = (\<lambda>w. (0, w)), la_manifests_Add = (\<lambda>l r. pure_sys ()),
     la_Serialize = (\<lambda>l f. pure_sys f), la_WriteFile = (\<lambda>f c. pure_sys ()),
     la_copy_Image = (\<lambda>p i r s m. pure_sys ()), la_ReadCustomConfig = pure_sys sample_config,
     la_NewImageEngine = (\<lambda>c. pure_sys 0), la_Shutdown = (\<lambda>e w. w),
     la_RuntimeFromStoreOptions = (\<lambda>s. pure_sys 0), la_runtime_Shutdown = (\<lambda>r w. w),
     la_LookupManifestList = (\<lambda>r n w. (Inl (ExtE ''no such list''), w)),
     la_CreateManifestList = (\<lambda>r n. pure_sys 3), la_Inspect = (\<lambda>l. pure_sys []),
     la_RemoveInstance = (\<lambda>l d. pure_sys ()), la_list_Add = (\<lambda>l r. pure_sys ())\<rparr>"

definition sample_choices :: "string \<times> string \<Rightarrow> string \<times> string \<Rightarrow> BuildReport \<times> 'b \<Rightarrow> BuildReport \<times> 'b \<Rightarrow> 'b choices" where
  "sample_choices p q i j = \<lparr>
     ch_builds = overlap p q, ch_results = rev,
     ch_pull_files = overlap (i, ''/tmp/d/archive-1.tar'') (j, ''/tmp/d/archive-1.tar''),
     ch_pull_local = overlap i j, ch_rm = overlap i j,
     ch_file_refs = (\<lambda>m. m), ch_local_refs = (\<lambda>m. m)\<rparr>"

lemmas build_eval = Farm_Build_def run_builds_def build_body_def build_call_def output_format_def
  zero_BuildOptions_def choose_list_builder_def NewFileListBuilder_def list_builder_options_def
  make_job_def split_platform_def job_options_def per_arch_builds_def ListBuilder_Build_def
  listFiles_Build_def pull_file_body_def pull_file_spawn_def pull_file_call_def pull_file_commit_def
  files_assemble_def remove_images_def rm_body_def has_prefix_def trim_prefix_def
  podmanLocal_Build_def podmanRemote_Build_def on_engine_def save_format_def
  podmanBuildOptionsFromBuildOptions_def podmanLocal_PullToFile_def podmanRemote_PullToFile_def
  podmanLocal_RemoveImage_def podmanRemote_RemoveImage_def remove_errors_def
  try_bind_def wrap_err_def defer_io_def osc_def pure_sys_def sample_lists_def sample_choices_def
  Dockerv2ImageManifest_def OCIv1ImageManifest_def Let_def

end
