(* ===== verification/Farm_Theorems.thy ===== *)
theory Farm_Theorems
  imports Sample_Farm
begin

text \<open>
  The properties of the farm's queries and of its scheduler, for the builders of the repository
  (\<open>builders A D\<close>), any outside \<open>A\<close>, \<open>D\<close>, and every interleaving of the goroutines.
\<close>

section \<open>Schedule\<close>

text \<open>
  C2. A schedule that \<open>Schedule\<close> returns assigns exactly the target platforms (those asked for,
  or all native platforms of the farm when none is given), each to a member of the farm that
  reports it as native; a member that only emulates it is chosen only when no member is native
  for it.
\<close>

theorem schedule_sound:
  assumes "Farm_Schedule (builders A D) f platforms evs_native evs_info w = (Ret (Inr s), w')"
    and "members_ok is_builder f w"
  shows "schedule_spec (farm_builders f) (answer builder_info w')
    (schedule_targets builder_info f platforms w') (map_of (platformBuilders s))"
  using objs.Schedule_Inr [OF assms] by blast

theorem schedule_sound_witness:
  "schedule_spec (farm_builders sample_farm) (answer builder_info sample_world2)
     {''linux/amd64'', ''linux/arm64'', ''linux/s390x''}
     (map_of [(''linux/amd64'', []), (''linux/arm64'', ''arm''), (''linux/s390x'', [])])"
  using schedule_sound [OF sample_schedule sample_members] by (simp add: schedule_targets_def)

text \<open>
  C3. When \<open>Schedule\<close> returns an error, either some member could not report its platforms, or
  all did and a target platform is offered by no member, natively or emulated, and the error
  names it.
\<close>

theorem schedule_error_justified:
  assumes "Farm_Schedule (builders A D) f platforms evs_native evs_info w = (Ret (Inl e), w')"
    and "members_ok is_builder f w"
  shows "some_failed builder_info f w' \<or> (all_answered builder_info f w' \<and>
    (\<exists>p\<in>schedule_targets builder_info f platforms w'. \<not> can_build (farm_builders f) (answer builder_info w') p \<and>
      e = Errorf ''no builder capable of building for platform %q available'' [AStr p]))"
  by (rule objs.Schedule_Inl [OF assms])

theorem schedule_error_justified_witness:
  "\<not> can_build (farm_builders sample_farm) (answer builder_info sample_world2) ''linux/mips''"
proof -
  have "\<not> some_failed builder_info sample_farm sample_world2"
    by (simp add: some_failed_def sample_world2_def sample_defs builder_info_def object_settled_def
        local_settled_def remote_settled_def with_err_def)
  with schedule_error_justified [OF sample_schedule_fails sample_members] show ?thesis
    by (simp add: schedule_targets_def)
qed

text \<open>
  Without a list of platforms, \<open>Schedule\<close> assigns every platform that some member is native
  for, each to a member that is native for it.
\<close>

theorem schedule_default:
  assumes "Farm_Schedule (builders A D) f [] evs_native evs_info w = (Ret (Inr s), w')"
    and "members_ok is_builder f w"
  shows "dom (map_of (platformBuilders s)) =
      {p. \<exists>b\<in>snd ` set (farm_builders f). p \<in> set (NativePlatforms (answer builder_info w' b))} \<and>
    (\<forall>p nm. map_of (platformBuilders s) p = Some nm \<longrightarrow>
      (\<exists>b. map_of (farm_builders f) nm = Some b \<and> p \<in> set (NativePlatforms (answer builder_info w' b))))"
proof -
  note run = objs.Schedule_Inr [OF assms]
  have targets: "schedule_targets builder_info f [] w' =
      {p. \<exists>b\<in>snd ` set (farm_builders f). p \<in> set (NativePlatforms (answer builder_info w' b))}"
    using offered_answer [of builder_info f w' NativePlatforms] run by (simp add: schedule_targets_def)
  with run have dom: "dom (map_of (platformBuilders s)) =
      {p. \<exists>b\<in>snd ` set (farm_builders f). p \<in> set (NativePlatforms (answer builder_info w' b))}"
    by (simp add: schedule_spec_def)
  moreover have "\<exists>b. map_of (farm_builders f) nm = Some b \<and> p \<in> set (NativePlatforms (answer builder_info w' b))"
    if pn: "map_of (platformBuilders s) p = Some nm" for p nm
  proof -
    have "\<exists>c\<in>snd ` set (farm_builders f). p \<in> set (NativePlatforms (answer builder_info w' c))"
    proof -
      have "p \<in> dom (map_of (platformBuilders s))" using pn by (rule domI)
      then show ?thesis unfolding dom by (rule CollectD)
    qed
    moreover obtain b where "map_of (farm_builders f) nm = Some b"
      and "p \<in> set (NativePlatforms (answer builder_info w' b)) \<or>
        (\<forall>c\<in>snd ` set (farm_builders f). p \<notin> set (NativePlatforms (answer builder_info w' c)))"
      using run pn unfolding schedule_spec_def by meson
    ultimately show ?thesis by auto
  qed
  ultimately show ?thesis by blast
qed

theorem schedule_default_witness:
  "dom (map_of [(''linux/amd64'', []), (''linux/arm64'', ''arm'')]) =
     {p. \<exists>b\<in>snd ` set (farm_builders sample_farm). p \<in> set (NativePlatforms (answer builder_info sample_world2 b))}"
  using schedule_default [OF sample_schedule_native sample_members] by (simp only: Schedule.select_convs)

text \<open>
  C5. The verdict does not depend on the interleaving: once the members have reported their
  platforms, every run from that world returns a schedule of all targets when each target is
  offered by some member, and an error when one is not.
\<close>

theorem schedule_verdict:
  assumes "all_answered builder_info f w" and "members_ok is_builder f w"
    and "Farm_Schedule (builders A D) f platforms evs_native evs_info w = (Ret r, w')"
  shows "case r of
      Inr s \<Rightarrow> dom (map_of (platformBuilders s)) = schedule_targets builder_info f platforms w \<and>
        (\<forall>p\<in>schedule_targets builder_info f platforms w. can_build (farm_builders f) (answer builder_info w) p)
    | Inl e \<Rightarrow> \<exists>p\<in>schedule_targets builder_info f platforms w.
        \<not> can_build (farm_builders f) (answer builder_info w) p"
  by (rule objs.Schedule_verdict [OF assms])

lemma sample_answered: "all_answered builder_info sample_farm sample_world2"
  by (simp add: all_answered_def sample_world2_def sample_defs builder_info_def object_settled_def
      local_settled_def remote_settled_def with_err_def)

lemma sample_members2: "members_ok is_builder sample_farm sample_world2"
  by (simp add: members_ok_def is_builder_def sample_defs sample_world2_def)

theorem schedule_verdict_witness:
  "can_build (farm_builders sample_farm) (answer builder_info sample_world2) ''linux/s390x''"
proof -
  have "Farm_Schedule sample_ops sample_farm [''linux/s390x''] [] (in_turn (''arm'', 1) ([], 0)) sample_world2 =
      (Ret (Inr \<lparr>platformBuilders = [(''linux/s390x'', [])]\<rparr>), sample_world2)"
    by (simp add: schedule_eval group_eval method_eval sample_defs sample_world2_def)
  from schedule_verdict [OF sample_answered sample_members2 this] show ?thesis
    by (simp add: schedule_targets_def)
qed

section \<open>Platforms\<close>

text \<open>
  C32. \<open>NativePlatforms\<close> returns the sorted list, without repetitions, of the platforms that the
  members report as native; when a member cannot report, it returns an error.
\<close>

theorem native_platforms_correct:
  assumes "Farm_NativePlatforms (builders A D) f evs w = (Ret r, w')" and "members_ok is_builder f w"
  shows "case r of
      Inr ps \<Rightarrow> sorted ps \<and> distinct ps \<and> all_answered builder_info f w' \<and>
        set ps = {p. \<exists>b\<in>snd ` set (farm_builders f). p \<in> set (NativePlatforms (answer builder_info w' b))}
    | Inl e \<Rightarrow> some_failed builder_info f w'"
  using objs.NativePlatforms_Ret [OF assms] by (auto split: sum.splits simp: offered_answer)

theorem native_platforms_correct_witness:
  "sorted [''linux/amd64'', ''linux/arm64''] \<and>
   set [''linux/amd64'', ''linux/arm64''] = {p. \<exists>b\<in>snd ` set (farm_builders sample_farm).
     p \<in> set (NativePlatforms (answer builder_info sample_world2 b))}"
proof -
  have "Farm_NativePlatforms sample_ops sample_farm (overlap (''arm'', 1) ([], 0)) sample_world =
      (Ret (Inr [''linux/amd64'', ''linux/arm64'']), sample_world2)"
    by (simp add: schedule_eval group_eval method_eval sample_defs sample_world2_def)
  from native_platforms_correct [OF this sample_members] show ?thesis by (simp only: sum.case)
qed

text \<open>
  \<open>EmulatedPlatforms\<close> does the same for the platforms that the members report as emulated.
\<close>

theorem emulated_platforms_correct:
  assumes "Farm_EmulatedPlatforms (builders A D) f evs w = (Ret r, w')" and "members_ok is_builder f w"
  shows "case r of
      Inr ps \<Rightarrow> sorted ps \<and> distinct ps \<and> all_answered builder_info f w' \<and>
        set ps = {p. \<exists>b\<in>snd ` set (farm_builders f). p \<in> set (EmulatedPlatforms (answer builder_info w' b))}
    | Inl e \<Rightarrow> some_failed builder_info f w'"
  using objs.EmulatedPlatforms_Ret [OF assms] by (auto split: sum.splits simp: offered_answer)

theorem emulated_platforms_correct_witness:
  "set [''linux/s390x''] = {p. \<exists>b\<in>snd ` set (farm_builders sample_farm).
     p \<in> set (EmulatedPlatforms (answer builder_info sample_world2 b))}"
proof -
  have "Farm_EmulatedPlatforms sample_ops sample_farm (overlap (''arm'', 1) ([], 0)) sample_world =
      (Ret (Inr [''linux/s390x'']), sample_world2)"
    by (simp add: schedule_eval Farm_EmulatedPlatforms_def group_eval method_eval sample_defs sample_world2_def)
  from emulated_platforms_correct [OF this sample_members] show ?thesis by (simp only: sum.case)
qed

end
