(* ===== verification/Build_Theorems.thy ===== *)
theory Build_Theorems
  imports Farm_Theorems
begin

text \<open>
  The properties of \<open>(*Farm).Build\<close>, for any implementation of the interfaces it calls, any
  interleaving of the builds and any order of the maps.
\<close>

section \<open>Successful builds\<close>

text \<open>\<open>b\<close> was asked, in some world, to build for the platform of the job \<open>j\<close>, and returned \<open>report\<close>.\<close>

definition built :: "('b, 'w) ImageBuilder \<Rightarrow> string list \<Rightarrow> BuildOptions \<Rightarrow> string \<Rightarrow> 'b job \<Rightarrow> BuildReport \<Rightarrow> bool" where
  "built ops files options pf j report \<longleftrightarrow> (\<exists>w1 w2.
     ib_Build ops (job_builder j) [] files (job_options options pf j) w1 = (Ret (Inr report), w2))"

lemma make_job_builder [simp]: "job_builder (make_job norm pf b) = b"
  by (simp add: make_job_def split: prod.splits)

lemma build_made:
  assumes jobs: "build_jobs norm bs pbs [] = Inr jobs" and mem: "(pf, bn) \<in> set pbs"
    and call: "build_call ops jobs files options (pf, bn) w1 = (Ret (Inr v), w2)"
  shows "\<exists>q b. last_platform pbs bn = Some q \<and> map_of bs bn = Some b \<and>
    snd v = b \<and> built ops files options pf (make_job norm q b) (fst v)"
proof -
  obtain report b where v: "v = (report, b)" by fastforce
  obtain j where j: "map_of jobs bn = Some j" "b = job_builder j"
      "ib_Build ops b [] files (job_options options pf j) w1 = (Ret (Inr report), w2)"
    using call unfolding v build_call_Inr by blast
  obtain q where q: "last_platform pbs bn = Some q" using last_platform_mem [OF mem] by blast
  obtain c where c: "map_of bs bn = Some c" using build_jobs_lookup(2) [OF jobs mem] by blast
  have "j = make_job norm q c" using build_jobs_lookup(1) [OF jobs, of bn] j(1) q c by simp
  with j q c v show ?thesis unfolding built_def by auto
qed

lemma Farm_Build_built:
  assumes run: "Farm_Build ops L norm f ch reference s files options w = (Ret (Inr u), w')"
    and wf: "wf_map (platformBuilders s)" and inj: "distinct (map snd (platformBuilders s))"
    and order: "\<And>m. set (ch_results ch m) = set m"
  shows "\<exists>fmt lb images w1 location. output_format (bo_OutputFormat options) = Inr fmt \<and>
    ListBuilder_Build ops L ch lb images w1 = (Ret (Inr location), w') \<and>
    (\<forall>pf bn. (pf, bn) \<in> set (platformBuilders s) \<longrightarrow> (\<exists>b report. map_of (farm_builders f) bn = Some b \<and>
       built ops files (options\<lparr>bo_OutputFormat := fmt\<rparr>) pf (make_job norm pf b) report \<and> report \<in> fst ` set images)) \<and>
    (\<forall>report b. map_of images report = Some b \<longrightarrow> (\<exists>pf bn. (pf, bn) \<in> set (platformBuilders s) \<and>
       map_of (farm_builders f) bn = Some b \<and>
       built ops files (options\<lparr>bo_OutputFormat := fmt\<rparr>) pf (make_job norm pf b) report))"
proof -
  obtain fmt jobs lb w0 where fmt: "output_format (bo_OutputFormat options) = Inr fmt"
    and jobs: "build_jobs norm (farm_builders f) (platformBuilders s) [] = Inr jobs"
    and rb: "run_builds ops L ch jobs (platformBuilders s) files (options\<lparr>bo_OutputFormat := fmt\<rparr>) lb w0 = (Ret (Inr u), w')"
    using Farm_Build_Inr [OF run] by blast
  obtain results w1 location where
    lb: "ListBuilder_Build ops L ch lb (per_arch_builds (ch_results ch results)) w1 = (Ret (Inr location), w')"
    and all: "\<And>pf bn. (pf, bn) \<in> set (platformBuilders s) \<Longrightarrow> \<exists>v w2 w3. map_of results pf = Some v \<and>
       build_call ops jobs files (options\<lparr>bo_OutputFormat := fmt\<rparr>) (pf, bn) w2 = (Ret (Inr v), w3)"
    and only: "\<And>pf v. map_of results pf = Some v \<Longrightarrow> \<exists>bn. (pf, bn) \<in> set (platformBuilders s) \<and>
       (\<exists>w2 w3. build_call ops jobs files (options\<lparr>bo_OutputFormat := fmt\<rparr>) (pf, bn) w2 = (Ret (Inr v), w3))"
    and wfr: "wf_map results"
    using run_builds_Inr [OF rb wf] by metis
  have made: "\<exists>b. map_of (farm_builders f) bn = Some b \<and> snd v = b \<and>
      built ops files (options\<lparr>bo_OutputFormat := fmt\<rparr>) pf (make_job norm pf b) (fst v)"
    if mem: "(pf, bn) \<in> set (platformBuilders s)"
      and call: "build_call ops jobs files (options\<lparr>bo_OutputFormat := fmt\<rparr>) (pf, bn) w2 = (Ret (Inr v), w3)"
    for pf bn v w2 w3
    using build_made [OF jobs mem call] last_platform_inj [OF mem inj] by auto
  let ?images = "per_arch_builds (ch_results ch results)"
  have each: "\<exists>b report. map_of (farm_builders f) bn = Some b \<and>
      built ops files (options\<lparr>bo_OutputFormat := fmt\<rparr>) pf (make_job norm pf b) report \<and> report \<in> fst ` set ?images"
    if mem: "(pf, bn) \<in> set (platformBuilders s)" for pf bn
  proof -
    obtain v w2 w3 where v: "map_of results pf = Some v"
      and call: "build_call ops jobs files (options\<lparr>bo_OutputFormat := fmt\<rparr>) (pf, bn) w2 = (Ret (Inr v), w3)"
      using all [OF mem] by blast
    from v have "(pf, v) \<in> set (ch_results ch results)" unfolding order by (rule map_of_SomeD)
    then have "fst v \<in> fst ` set ?images" unfolding per_arch_keys by force
    with made [OF mem call] show ?thesis by blast
  qed
  have origin: "\<exists>pf bn. (pf, bn) \<in> set (platformBuilders s) \<and> map_of (farm_builders f) bn = Some b \<and>
      built ops files (options\<lparr>bo_OutputFormat := fmt\<rparr>) pf (make_job norm pf b) report"
    if img: "map_of ?images report = Some b" for report b
  proof -
    obtain pf where "(pf, report, b) \<in> set results" using per_arch_lookup [OF img] unfolding order by blast
    then have "map_of results pf = Some (report, b)" using wfr by simp
    from only [OF this] made show ?thesis by fastforce
  qed
  from fmt lb each origin show ?thesis by blast
qed


definition sample_schedule2 :: Schedule where
  "sample_schedule2 = \<lparr>platformBuilders = [(''linux/amd64'', []), (''linux/arm64'', ''arm'')]\<rparr>"

lemma sample_build:
  "fst (Farm_Build sample_ops sample_lists (\<lambda>a b c. (a, b, c)) sample_farm
     (sample_choices (''linux/amd64'', []) (''linux/arm64'', ''arm'')
        (\<lparr>ImageID = ''image-amd64'', SaveFormat = ''oci-archive''\<rparr>, 0)
        (\<lparr>ImageID = ''image-arm64'', SaveFormat = ''oci-archive''\<rparr>, 1))
     ''dir:/out'' sample_schedule2 [''Containerfile''] zero_BuildOptions sample_world2) = Ret (Inr ())"
  by (simp add: build_eval group_eval method_eval sample_defs sample_world2_def sample_schedule2_def)

abbreviation sample_norm :: "string \<Rightarrow> string \<Rightarrow> string \<Rightarrow> plat" where
  "sample_norm \<equiv> (\<lambda>a b c. (a, b, c))"

definition sample_ch :: "builder choices" where
  "sample_ch = sample_choices (''linux/amd64'', []) (''linux/arm64'', ''arm'')
     (\<lparr>ImageID = ''image-amd64'', SaveFormat = ''oci-archive''\<rparr>, 0)
     (\<lparr>ImageID = ''image-arm64'', SaveFormat = ''oci-archive''\<rparr>, 1)"


text \<open>
  Nothing is started for a schedule that names a builder the farm does not have: \<open>Build\<close>
  returns an error and the world is as before.
\<close>

theorem build_checks_schedule:
  assumes "(pf, bn) \<in> set (platformBuilders s)" and "map_of (farm_builders f) bn = None"
  shows "\<exists>e. Farm_Build ops L norm f ch reference s files options w = (Ret (Inl e), w)"
proof -
  have "\<exists>e. build_jobs norm (farm_builders f) (platformBuilders s) [] = Inl e"
    using build_jobs_lookup(2) assms by (metis sum.exhaust)
  then show ?thesis by (auto simp: Farm_Build_def Let_def split: sum.splits)
qed

theorem build_checks_schedule_witness:
  "\<exists>e. Farm_Build sample_ops sample_lists sample_norm sample_farm sample_ch ''dir:/out''
     \<lparr>platformBuilders = [(''linux/riscv64'', ''gone'')]\<rparr> [] zero_BuildOptions sample_world =
     (Ret (Inl e), sample_world)"
  by (rule build_checks_schedule [where pf = "''linux/riscv64''" and bn = "''gone''"])
     (simp_all add: sample_farm_def)

text \<open>
  A schedule that \<open>Schedule\<close> returned for a farm names only builders of that farm: the jobs
  of \<open>Build\<close> can be made, one for every builder it uses.
\<close>

theorem schedule_gives_jobs:
  assumes "Farm_Schedule (builders A D) f platforms evs_native evs_info w = (Ret (Inr s), w')"
    and "members_ok is_builder f w"
  shows "\<exists>jobs. build_jobs norm (farm_builders f) (platformBuilders s) [] = Inr jobs \<and>
    (\<forall>pf bn. (pf, bn) \<in> set (platformBuilders s) \<longrightarrow> map_of jobs bn \<noteq> None)"
proof -
  note sched = objs.Schedule_Inr [OF assms]
  have known: "map_of (farm_builders f) bn \<noteq> None" if "(pf, bn) \<in> set (platformBuilders s)" for pf bn
  proof -
    from sched that have "map_of (platformBuilders s) pf = Some bn" by simp
    with sched show ?thesis unfolding schedule_spec_def by blast
  qed
  have "\<exists>jobs. build_jobs norm bs pbs jobs0 = Inr jobs"
    if "\<forall>pb\<in>set pbs. map_of bs (snd pb) \<noteq> None" for bs :: "(string \<times> nat) list" and pbs jobs0
    using that by (induction norm bs pbs jobs0 rule: build_jobs.induct) auto
  then obtain jobs where jobs: "build_jobs norm (farm_builders f) (platformBuilders s) [] = Inr jobs"
    using known by fastforce
  moreover have "map_of jobs bn \<noteq> None" if "(pf, bn) \<in> set (platformBuilders s)" for pf bn
    using build_jobs_lookup(1) [OF jobs, of bn] last_platform_mem [OF that] by auto
  ultimately show ?thesis by blast
qed

theorem schedule_gives_jobs_witness:
  "\<exists>jobs. build_jobs sample_norm (farm_builders sample_farm)
     [(''linux/amd64'', []), (''linux/arm64'', ''arm''), (''linux/s390x'', [])] [] = Inr jobs \<and>
     map_of jobs ''arm'' \<noteq> None"
  using schedule_gives_jobs [OF sample_schedule sample_members, of sample_norm] by fastforce

section \<open>Two platforms on one builder\<close>

text \<open>
  C30. The jobs are kept by builder and not by platform. When a schedule uses one builder for
  several platforms and \<open>Build\<close> succeeds, every build on that builder was requested for one and
  the same platform, the last one the loop met; the others were never built.
\<close>

theorem one_builder_one_platform:
  assumes run: "Farm_Build ops L norm f ch reference s files options w = (Ret (Inr u), w')"
    and wf: "wf_map (platformBuilders s)"
    and mem: "(p1, bn) \<in> set (platformBuilders s)" "(p2, bn) \<in> set (platformBuilders s)"
  shows "\<exists>q b fmt report1 report2. last_platform (platformBuilders s) bn = Some q \<and>
    map_of (farm_builders f) bn = Some b \<and>
    built ops files (options\<lparr>bo_OutputFormat := fmt\<rparr>) p1 (make_job norm q b) report1 \<and>
    built ops files (options\<lparr>bo_OutputFormat := fmt\<rparr>) p2 (make_job norm q b) report2"
proof -
  obtain fmt jobs lb w0 where "output_format (bo_OutputFormat options) = Inr fmt"
    and jobs: "build_jobs norm (farm_builders f) (platformBuilders s) [] = Inr jobs"
    and rb: "run_builds ops L ch jobs (platformBuilders s) files (options\<lparr>bo_OutputFormat := fmt\<rparr>) lb w0 = (Ret (Inr u), w')"
    using Farm_Build_Inr [OF run] by blast
  have "\<exists>q b report. last_platform (platformBuilders s) bn = Some q \<and> map_of (farm_builders f) bn = Some b \<and>
      built ops files (options\<lparr>bo_OutputFormat := fmt\<rparr>) pf (make_job norm q b) report"
    if pf: "(pf, bn) \<in> set (platformBuilders s)" for pf
  proof -
    obtain v w2 w3 where "build_call ops jobs files (options\<lparr>bo_OutputFormat := fmt\<rparr>) (pf, bn) w2 = (Ret (Inr v), w3)"
      using run_builds_called [OF rb wf pf] by blast
    from build_made [OF jobs pf this] show ?thesis by blast
  qed
  from this [OF mem(1)] this [OF mem(2)] show ?thesis
    by (elim exE conjE, intro exI [of _ fmt] exI conjI) auto
qed

text \<open>A schedule with two platforms on the local builder; both builds are for the second one.\<close>

definition sample_schedule3 :: Schedule where
  "sample_schedule3 = \<lparr>platformBuilders = [(''linux/amd64'', []), (''linux/s390x'', [])]\<rparr>"

definition sample_ch3 :: "builder choices" where
  "sample_ch3 = (sample_choices (''linux/amd64'', []) (''linux/s390x'', [])
     (\<lparr>ImageID = ''image-amd64'', SaveFormat = ''oci-archive''\<rparr>, 0)
     (\<lparr>ImageID = ''image-amd64'', SaveFormat = ''oci-archive''\<rparr>, 0))
     \<lparr>ch_pull_files := [Spawn, Call ((\<lparr>ImageID = ''image-amd64'', SaveFormat = ''oci-archive''\<rparr>, 0), ''/tmp/d/archive-1.tar''),
        Commit ((\<lparr>ImageID = ''image-amd64'', SaveFormat = ''oci-archive''\<rparr>, 0), ''/tmp/d/archive-1.tar''),
        Join ((\<lparr>ImageID = ''image-amd64'', SaveFormat = ''oci-archive''\<rparr>, 0), ''/tmp/d/archive-1.tar'')]\<rparr>"

lemma sample_build3:
  "fst (Farm_Build sample_ops sample_lists sample_norm sample_farm sample_ch3 ''dir:/out'' sample_schedule3
     [''Containerfile''] zero_BuildOptions sample_world2) = Ret (Inr ())"
  by (simp add: build_eval group_eval method_eval sample_defs sample_world2_def sample_schedule3_def
      sample_ch3_def)

theorem one_builder_one_platform_witness:
  "\<exists>q b fmt report1 report2. last_platform (platformBuilders sample_schedule3) [] = Some q \<and>
     map_of (farm_builders sample_farm) [] = Some b \<and>
     built sample_ops [''Containerfile''] (zero_BuildOptions\<lparr>bo_OutputFormat := fmt\<rparr>)
       ''linux/amd64'' (make_job sample_norm q b) report1 \<and>
     built sample_ops [''Containerfile''] (zero_BuildOptions\<lparr>bo_OutputFormat := fmt\<rparr>)
       ''linux/s390x'' (make_job sample_norm q b) report2"
proof -
  obtain w' where run: "Farm_Build sample_ops sample_lists sample_norm sample_farm sample_ch3 ''dir:/out''
      sample_schedule3 [''Containerfile''] zero_BuildOptions sample_world2 = (Ret (Inr ()), w')"
    using sample_build3 by (metis prod.collapse)
  show ?thesis
    by (rule one_builder_one_platform [OF run]) (simp_all add: sample_schedule3_def)
qed

section \<open>Which platform a builder builds for\<close>

lemma builds_ignore_platforms:
  "podmanLocal_Build A reference files (options\<lparr>bo_Platforms := ps\<rparr>) = podmanLocal_Build A reference files options"
  "podmanRemote_Build A reference files (options\<lparr>bo_Platforms := ps\<rparr>) = podmanRemote_Build A reference files options"
  "dockerEngine_Build D reference files (options\<lparr>bo_Platforms := ps\<rparr>) = dockerEngine_Build D reference files options"
proof -
  have podman: "podmanBuildOptionsFromBuildOptions (options\<lparr>bo_Platforms := ps\<rparr>) os arch variant =
      podmanBuildOptionsFromBuildOptions options os arch variant" for os arch variant
    by (simp add: podmanBuildOptionsFromBuildOptions_def pull_policy_def network_policy_def)
  have fmt: "save_format (options\<lparr>bo_Platforms := ps\<rparr>) = save_format options"
    by (simp add: save_format_def)
  show "podmanLocal_Build A reference files (options\<lparr>bo_Platforms := ps\<rparr>) = podmanLocal_Build A reference files options"
    unfolding podmanLocal_Build_def podman fmt ..
  show "podmanRemote_Build A reference files (options\<lparr>bo_Platforms := ps\<rparr>) = podmanRemote_Build A reference files options"
    unfolding podmanRemote_Build_def podman fmt ..
  show "dockerEngine_Build D reference files (options\<lparr>bo_Platforms := ps\<rparr>) = dockerEngine_Build D reference files options"
    unfolding dockerEngine_Build_def by (simp cong: sum.case_cong)
qed

text \<open>
  No builder of the repository reads the platforms it is asked to build for: \<open>Build\<close> on the
  local, the remote and the docker builder behaves the same for any value of
  \<open>options.Platforms\<close>. A platform that was scheduled for emulation is built as the builder's
  own.
\<close>

theorem build_ignores_platforms:
  "ib_Build (builders A D) b reference files (options\<lparr>bo_Platforms := ps\<rparr>) w =
   ib_Build (builders A D) b reference files options w"
  by (simp only: builders_simps builds_ignore_platforms)

text \<open>
  A build on the docker builder never yields a report: when the engine has built the image,
  the method dereferences a nil pointer.
\<close>

theorem docker_build_no_report:
  "fst (dockerEngine_Build D reference files options rx) \<noteq> Ret (Inr report)"
proof
  assume "fst (dockerEngine_Build D reference files options rx) = Ret (Inr report)"
  then obtain rx' where "dockerEngine_Build D reference files options rx = (Ret (Inr report), rx')"
    by (metis prod.collapse)
  then show False
    by (auto simp: dockerEngine_Build_def Let_def io_bind_RetE self_Ret try_bind_Inr defer_io_Ret
        split: sum.splits)
qed

section \<open>Output\<close>

text \<open>
  C39. The output of a build is relayed line by line, each complete line once and in order, with
  the platform and the builder in front; text after the last newline is dropped.
\<close>

theorem relay_complete_lines:
  assumes "\<forall>l\<in>set ls. CHR 0x0A \<notin> set l" and "CHR 0x0A \<notin> set rest"
  shows "relay_output pf builder (concat (map (\<lambda>l. l @ [CHR 0x0A]) ls) @ rest) =
    concat (map (log_line pf builder) ls)"
proof -
  have "str_split (CHR 0x0A) (concat (map (\<lambda>l. l @ [CHR 0x0A]) ls) @ rest) = ls @ [rest]"
    using assms by (induction ls) (auto simp: str_split_id str_split_append)
  then show ?thesis by (simp add: relay_output_lines)
qed

theorem relay_complete_lines_witness:
  "relay_output ''linux/arm64'' ''arm'' (''one'' @ [CHR 0x0A] @ ''two'' @ [CHR 0x0A] @ ''lost'') =
     ''[linux/arm64@arm] one'' @ [CHR 0x0A] @ ''[linux/arm64@arm] two'' @ [CHR 0x0A]"
  using relay_complete_lines [of "[''one'', ''two'']" "''lost''" "''linux/arm64''" "''arm''"]
  by (simp add: log_line_def)

end
