(* ===== verification/Farm_Members.thy ===== *)
theory Farm_Members
  imports Farm_Theorems
begin

text \<open>
  The properties of the operations that make a farm and visit its members: \<open>newFarmWithBuilders\<close>,
  \<open>forEach\<close> with \<open>PruneImages\<close> and \<open>Done\<close>, \<open>Status\<close>; and that the queries of all members return.
\<close>

section \<open>New farms\<close>

text \<open>What a constructor makes for a node: its connection is open, its platforms are not fetched.\<close>

definition built_for :: "node \<Rightarrow> builder_object \<Rightarrow> bool" where
  "built_for n ob = (case ob of
     RemoteObj r \<Rightarrow> n = RemoteNode (pmr_name r) \<and> pmr_connCtx r \<noteq> None \<and> pmr_engine r \<noteq> None \<and> \<not> pmr_once r
   | LocalObj l \<Rightarrow> n = LocalNode \<and> \<not> pml_once l
   | DockerObj d \<Rightarrow> False)"

lemma built_for_unique: "built_for n ob \<Longrightarrow> built_for m ob \<Longrightarrow> n = m"
  by (cases ob) (simp_all add: built_for_def)

lemma NewRemote_built:
  "NewPodmanRemoteImageBuilder A flags dest ux = (Ret (Inr r), ux') \<Longrightarrow> built_for (RemoteNode dest) (RemoteObj r)"
  by (auto simp: NewPodmanRemoteImageBuilder_def Let_def try_bind_Inr built_for_def)

lemma NewLocal_built:
  "NewPodmanLocalImageBuilder A flags so ux = (Ret (Inr l), ux') \<Longrightarrow> built_for LocalNode (LocalObj l)"
  by (auto simp: NewPodmanLocalImageBuilder_def Let_def try_bind_Inr built_for_def)

text \<open>A constructor's object is at the end of the heap; the other objects stay.\<close>

lemma node_call_Inr:
  assumes "node_call A flags so n w = (Ret (Inr b), w')"
  shows "\<exists>ob. heap w' = heap w @ [ob] \<and> b = length (heap w) \<and> built_for n ob"
  using assms NewRemote_built NewLocal_built
  by (cases n) (auto simp: node_call_def alloc_def split: prod.splits outcome.splits sum.splits)

lemma node_call_heap:
  assumes "node_call A flags so n w = (r, w')"
  shows "\<exists>obs. heap w' = heap w @ obs"
  using assms by (cases n) (auto simp: node_call_def alloc_def split: prod.splits outcome.splits sum.splits)

interpretation newf: plain_group "new_farm_body A flags so" UNIV "\<lambda>_. True"
    "\<lambda>n r w. \<forall>b. r = Inr b \<longrightarrow> is_builder w b \<and> built_for n (heap w ! b)" for A flags so
proof (unfold_locales, goal_cases)
  case (3 n w r w')
  then show ?case
    using node_call_Inr [of A flags so n w _ w']
    by (fastforce simp: new_farm_body_def is_builder_def)
next
  case (4 n w r w' y q)
  then obtain obs where "heap w' = heap w @ obs"
    using node_call_heap [of A flags so n w _ w'] by (auto simp: new_farm_body_def)
  with 4 show ?case by (auto simp: is_builder_def nth_append)
qed (simp_all add: new_farm_body_def)

lemma new_farm_commit [simp]:
  "commit (new_farm_body A flags so) n (Inl e) m = (m, Some e)"
  "commit (new_farm_body A flags so) n (Inr b) m = (mput (node_key n) b m, None)"
  by (simp_all add: new_farm_body_def)

lemma new_farm_errors:
  "snd (commits (new_farm_body A flags so) L m) = map (\<lambda>(k, r). (k, case r of Inl e \<Rightarrow> Some e | Inr _ \<Rightarrow> None)) L"
  by (rule commits_errors) (auto split: sum.splits)

lemma new_farm_commits:
  assumes "\<forall>n r. (n, r) \<in> set L \<longrightarrow> (\<exists>b. r = Inr b)"
  shows "wf_map (fst (commits (new_farm_body A flags so) L [])) \<and>
    set (mkeys (fst (commits (new_farm_body A flags so) L []))) = (\<lambda>x. node_key (fst x)) ` set L \<and>
    (\<forall>nm b. map_of (fst (commits (new_farm_body A flags so) L [])) nm = Some b \<longrightarrow>
      (\<exists>n. (n, Inr b) \<in> set L \<and> nm = node_key n))"
  using assms
proof (induction L rule: rev_induct)
  case (snoc x L)
  obtain n b where x: "x = (n, Inr b)" using snoc.prems by (cases x) fastforce
  obtain m es where c: "commits (new_farm_body A flags so) L [] = (m, es)" by fastforce
  have "\<forall>n r. (n, r) \<in> set L \<longrightarrow> (\<exists>b. r = Inr b)" using snoc.prems by simp
  from snoc.IH [OF this] have IH: "wf_map m" "fst ` set m = (\<lambda>x. node_key (fst x)) ` set L"
    "\<And>nm b. map_of m nm = Some b \<Longrightarrow> \<exists>n. (n, Inr b) \<in> set L \<and> nm = node_key n"
    using c by auto
  have com: "commits (new_farm_body A flags so) (L @ [x]) [] = (mput (node_key n) b m, es @ [(n, None)])"
    by (simp add: x commits_snoc c)
  have "\<exists>n'. (n', Inr b') \<in> set (L @ [x]) \<and> nm = node_key n'"
    if "map_of (mput (node_key n) b m) nm = Some b'" for nm b'
    using that IH(3) [of nm b'] by (cases "nm = node_key n") (auto simp: x)
  then show ?case unfolding com using IH(1,2) by (simp add: x)
qed simp

lemma newFarm_Inr:
  assumes "newFarmWithBuilders A sel so flags0 evs w = (Ret (Inr f), w')"
  obtains custom w1 flags x R where "ext_io (pa_ReadCustomConfig A) w = (Ret (Inr custom), w1)"
    "fork_join (new_farm_body A flags so) (farm_nodes sel so custom) evs [] w1 =
      (Ret (x, R, [], farm_builders f), w')"
    "farm_builders f \<noteq> []" "farm_storeOptions f = so"
  using assms unfolding newFarmWithBuilders_def try_bind_Inr wrap_err_Inr Let_def io_bind_RetE
  by (fastforce split: option.splits if_splits)

lemma farm_nodes_distinct: "wf_map (ServiceDestinations custom) \<Longrightarrow> distinct (farm_nodes sel so custom)"
  by (auto simp: farm_nodes_def distinct_map inj_on_def)

text \<open>A farm as the constructors leave it.\<close>

definition fresh_farm :: "builder Farm \<Rightarrow> 'x farm_world \<Rightarrow> bool" where
  "fresh_farm f w \<longleftrightarrow> members_ok is_builder f w \<and> farm_builders f \<noteq> [] \<and> distinct (map snd (farm_builders f)) \<and>
     (\<forall>k\<in>set (farm_builders f). \<exists>n. fst k = node_key n \<and> built_for n (heap w ! snd k))"

text \<open>The service destinations are a Go map: their names are distinct.\<close>

definition config_ok :: "'x podman_api \<Rightarrow> bool" where
  "config_ok A \<longleftrightarrow> (\<forall>x c x'. pa_ReadCustomConfig A x = (Inr c, x') \<longrightarrow> wf_map (ServiceDestinations c))"

lemma newFarm_fresh:
  assumes "newFarmWithBuilders A sel storeOptions flags evs w = (Ret (Inr f), w')"
    and "config_ok A"
  shows "fresh_farm f w' \<and> farm_storeOptions f = storeOptions \<and>
    (\<exists>custom x1. pa_ReadCustomConfig A (ext w) = (Inr custom, x1) \<and>
       set (mkeys (farm_builders f)) = node_key ` set (farm_nodes sel storeOptions custom) \<and>
       (\<forall>k\<in>set (farm_builders f). \<exists>n\<in>set (farm_nodes sel storeOptions custom). built_for n (heap w' ! snd k)))"
proof -
  obtain custom w1 fl x R where conf: "ext_io (pa_ReadCustomConfig A) w = (Ret (Inr custom), w1)"
    and fj: "fork_join (new_farm_body A fl storeOptions) (farm_nodes sel storeOptions custom) evs [] w1 =
      (Ret (x, R, [], farm_builders f), w')" and ne: "farm_builders f \<noteq> []" and so: "farm_storeOptions f = storeOptions"
    using newFarm_Inr [OF assms(1)] by metis
  obtain x1 where x1: "pa_ReadCustomConfig A (ext w) = (Inr custom, x1)"
    using conf by (auto simp: ext_io_def split: prod.splits)
  have d: "distinct (farm_nodes sel storeOptions custom)"
    using farm_nodes_distinct assms(2) x1 unfolding config_ok_def by blast
  let ?B = "new_farm_body A fl storeOptions"
  obtain L where L: "mset (map fst L) = mset (farm_nodes sel storeOptions custom)"
      "\<And>n r. (n, r) \<in> set L \<Longrightarrow> \<forall>b. r = Inr b \<longrightarrow> is_builder w' b \<and> built_for n (heap w' ! b)"
      "farm_builders f = fst (commits ?B L [])"
      "[] = ([] :: error list) \<longleftrightarrow> (\<forall>e\<in>snd ` set (snd (commits ?B L [])). e = None)"
    using newf.serial [OF fj TrueI d subset_UNIV] by metis
  have ok: "\<forall>n r. (n, r) \<in> set L \<longrightarrow> (\<exists>b. r = Inr b)"
    using L(4) by (fastforce simp: new_farm_errors split: sum.splits)
  note com = new_farm_commits [OF ok, of A fl storeOptions, folded L(3)]
  have known: "\<exists>n\<in>set (farm_nodes sel storeOptions custom).
      is_builder w' (snd k) \<and> fst k = node_key n \<and> built_for n (heap w' ! snd k)"
    if mem: "k \<in> set (farm_builders f)" for k
  proof -
    have "map_of (farm_builders f) (fst k) = Some (snd k)" using mem com by simp
    then obtain n where "(n, Inr (snd k)) \<in> set L" "fst k = node_key n" using com by blast
    with L(2) [OF this(1)] log_member [OF L(1) this(1)] show ?thesis by blast
  qed
  have "inj_on snd (set (farm_builders f))"
    using known built_for_unique by (metis inj_onI prod.expand)
  then have "distinct (map snd (farm_builders f))" using com by (simp add: distinct_map)
  moreover have "(\<lambda>x. node_key (fst x)) ` set L = node_key ` set (farm_nodes sel storeOptions custom)"
    using L(1) by (metis image_image list.set_map set_mset_mset)
  moreover have "wf_map (farm_builders f)"
    "set (mkeys (farm_builders f)) = (\<lambda>x. node_key (fst x)) ` set L" using com by blast+
  ultimately have "fresh_farm f w'" "set (mkeys (farm_builders f)) = node_key ` set (farm_nodes sel storeOptions custom)"
    unfolding fresh_farm_def members_ok_def using known ne by (blast, simp)
  then show ?thesis using so x1 known by blast
qed

text \<open>
  C11. A farm that \<open>NewFarm\<close> or \<open>NewAdHocFarm\<close> returns is well formed: it is not empty, its members
  exist, are different objects with an open connection, and their keys are exactly the selected
  connections, with the empty string for the local system when storage options are given and it
  is selected.
\<close>

theorem new_farm_members:
  assumes "newFarmWithBuilders A sel storeOptions flags evs w = (Ret (Inr f), w')"
    and "config_ok A"
  shows "fresh_farm f w' \<and> farm_storeOptions f = storeOptions \<and>
    (\<exists>custom x1. pa_ReadCustomConfig A (ext w) = (Inr custom, x1) \<and>
       set (mkeys (farm_builders f)) =
         {nm \<in> fst ` set (ServiceDestinations custom). wantBuilder sel nm} \<union>
         (if storeOptions \<noteq> None \<and> wantBuilder sel LocalImageBuilderName then {[]} else {}))"
proof -
  have keys: "node_key ` set (farm_nodes sel storeOptions custom) =
      {nm \<in> fst ` set (ServiceDestinations custom). wantBuilder sel nm} \<union>
      (if storeOptions \<noteq> None \<and> wantBuilder sel LocalImageBuilderName then {[]} else {})" for custom
    by (force simp: farm_nodes_def node_key_def)
  show ?thesis using newFarm_fresh [OF assms] unfolding keys by blast
qed

definition empty_world :: "log farm_world" where
  "empty_world = \<lparr>heap = [], ext = []\<rparr>"

theorem new_farm_members_witness:
  "\<exists>f w'. NewFarm sample_podman [] (Some zero_StoreOptions) None (overlap (RemoteNode ''arm'') LocalNode) empty_world =
     (Ret (Inr f), w') \<and> fresh_farm f w' \<and> set (mkeys (farm_builders f)) = {''arm'', []}"
proof -
  have c: "pa_ReadCustomConfig sample_podman = (\<lambda>x. (Inr sample_config, x))"
    by (simp add: sample_podman_def)
  have "\<exists>f w'. newFarmWithBuilders sample_podman None (Some zero_StoreOptions) None
      (overlap (RemoteNode ''arm'') LocalNode) empty_world = (Ret (Inr f), w')"
    by (simp add: newFarmWithBuilders_def empty_world_def try_bind_def wrap_err_def ext_io_def group_eval
        sample_defs sample_config_def farm_nodes_def wantBuilder_def new_farm_body_def node_call_def alloc_def
        NewPodmanRemoteImageBuilder_def NewPodmanLocalImageBuilder_def connect_def sys_def node_key_def
        abi_config_def tunnel_config_def Let_def)
  then obtain f w' where run: "newFarmWithBuilders sample_podman None (Some zero_StoreOptions) None
      (overlap (RemoteNode ''arm'') LocalNode) empty_world = (Ret (Inr f), w')" by blast
  have "config_ok sample_podman" by (auto simp: config_ok_def c sample_config_def)
  from new_farm_members [OF run this] run show ?thesis
    by (auto simp: NewFarm_def NewDefaultFarm_def c sample_config_def wantBuilder_def)
qed

end
