(* ===== verification/Farm_Visits.thy ===== *)
theory Farm_Visits
  imports Farm_Members
begin

text \<open>
  The operations that visit every member of a farm: \<open>Status\<close>, \<open>PruneImages\<close> and \<open>Done\<close>. The
  sequential ones are compared with a loop that visits every member whatever the others answer.
\<close>

section \<open>Status\<close>

lemma status_commit [simp]: "commit (status_body ops) k r m = (mput (fst r) (snd r) m, snd r)"
  by (simp add: status_body_def split: prod.splits)

lemma status_errors: "snd (commits (status_body ops) L m) = map (\<lambda>(k, r). (k, snd r)) L"
  by (rule commits_errors) simp

lemma status_commits:
  "wf_map (fst (commits (status_body ops) L [])) \<and>
   set (mkeys (fst (commits (status_body ops) L []))) = (\<lambda>x. fst (snd x)) ` set L \<and>
   set (fst (commits (status_body ops) L [])) \<subseteq> snd ` set L"
proof (induction L rule: rev_induct)
  case (snoc x L)
  obtain k r where x: "x = (k, r)" by (cases x)
  obtain m es where c: "commits (status_body ops) L [] = (m, es)" by fastforce
  have "set (mput (fst r) (snd r) m) \<subseteq> insert r (set m)"
    by (induction m) auto
  with snoc show ?case by (auto simp: x c commits_snoc)
qed simp

lemma status_commits_inj:
  "distinct (map (\<lambda>x. fst (snd x)) L) \<Longrightarrow> fst (commits (status_body ops) L []) = map snd L"
proof (induction L rule: rev_induct)
  case (snoc x L)
  obtain k r where x: "x = (k, r)" by (cases x)
  obtain m es where c: "commits (status_body ops) L [] = (m, es)" by fastforce
  have "m = map snd L" using snoc c by simp
  moreover from this have "fst r \<notin> fst ` set m" using snoc.prems by (auto simp: x image_image)
  ultimately show ?case by (simp add: x c commits_snoc mput_fresh)
qed simp

context image_builders
begin

lemma Status_Ret:
  assumes run: "Farm_Status ops f evs w = (Ret (status, err), w')" and ok: "members_ok valid f w"
  obtains L where "mset (map fst L) = mset (farm_builders f)" "status = fst (commits (status_body ops) L [])"
    "err = None \<longleftrightarrow> (\<forall>x\<in>set L. snd (snd x) = None)"
    "\<And>x. x \<in> set L \<Longrightarrow> valid w' (snd (fst x)) \<and> fst (snd x) = name w' (snd (fst x))"
    "members_ok valid f w'" "later valid name settled w w'"
proof -
  obtain x R errs where fj: "fork_join (status_body ops) (farm_builders f) evs [] w = (Ret (x, R, errs, status), w')"
    and err: "err = error_or_nil errs"
    using run unfolding Farm_Status_def io_bind_RetE by fastforce
  have d: "distinct (farm_builders f)" using ok by (simp add: members_ok_def wf_map_distinct)
  obtain L where L: "tracked valid name settled (farm_builders f) w w'"
      "mset (map fst L) = mset (farm_builders f)"
      "\<And>k r. (k, r) \<in> set L \<Longrightarrow> valid w' (snd k) \<and> fst r = name w' (snd k)"
      "status = fst (commits (status_body ops) L [])"
      "errs = [] \<longleftrightarrow> (\<forall>e\<in>snd ` set (snd (commits (status_body ops) L [])). e = None)"
    using stat.serial [OF fj tracked_init [OF ok] d subset_refl] by metis
  have "err = None \<longleftrightarrow> (\<forall>x\<in>set L. snd (snd x) = None)"
    by (simp add: err L(5) status_errors case_prod_beta)
  with L tracked_ok [OF L(1) ok] show thesis by (intro that [of L]) auto
qed

end

lemma Farm_Status_report:
  assumes "Farm_Status (builders A D) f evs w = (Ret (status, err), w')" and "members_ok is_builder f w"
  shows "wf_map status \<and> set (mkeys status) = (\<lambda>k. builder_name w' (snd k)) ` set (farm_builders f) \<and>
    (err = None \<longrightarrow> (\<forall>s\<in>set status. snd s = None)) \<and>
    (inj_on (\<lambda>k. builder_name w' (snd k)) (set (farm_builders f)) \<longrightarrow>
       err \<noteq> None \<longrightarrow> (\<exists>s\<in>set status. snd s \<noteq> None))"
proof -
  obtain L where L: "mset (map fst L) = mset (farm_builders f)"
      "status = fst (commits (status_body (builders A D)) L [])"
      "err = None \<longleftrightarrow> (\<forall>x\<in>set L. snd (snd x) = None)"
      "\<And>x. x \<in> set L \<Longrightarrow> is_builder w' (snd (fst x)) \<and> fst (snd x) = builder_name w' (snd (fst x))"
    using objs.Status_Ret [OF assms] by metis
  have s: "fst ` set L = set (farm_builders f)" using L(1) by (metis list.set_map set_mset_mset)
  have nm: "map (\<lambda>x. fst (snd x)) L = map (\<lambda>k. builder_name w' (snd k)) (map fst L)"
    using L(4) by simp
  have "(\<lambda>x. fst (snd x)) ` set L = (\<lambda>k. builder_name w' (snd k)) ` set (farm_builders f)"
    using nm by (metis (no_types, lifting) list.set_map s)
  moreover have "status = map snd L" if inj: "inj_on (\<lambda>k. builder_name w' (snd k)) (set (farm_builders f))"
  proof -
    have "distinct (map fst L)"
      using L(1) assms(2) by (metis members_ok_def mset_eq_imp_distinct_iff wf_map_distinct)
    then show ?thesis unfolding L(2)
      by (intro status_commits_inj) (simp add: nm distinct_map s inj del: map_map)
  qed
  moreover note com = status_commits [of "builders A D" L, folded L(2)]
  moreover have "\<forall>s\<in>set status. snd s = None" if "err = None"
  proof
    fix s assume "s \<in> set status"
    then obtain x where "x \<in> set L" "s = snd x" using com by blast
    with L(3) that show "snd s = None" by simp
  qed
  moreover have "\<exists>s\<in>snd ` set L. snd s \<noteq> None" if "err \<noteq> None" using L(3) that by blast
  ultimately show ?thesis by (metis list.set_map)
qed


lemmas status_eval = Farm_Status_def status_body_def podmanLocal_Status_def podmanRemote_Status_def
  podmanLocal_Name_def podmanRemote_Name_def


section \<open>Sequential visits\<close>

text \<open>The reference: every member is asked, in the order of the map, whatever the others answered.\<close>

primrec visit_each :: "('b \<Rightarrow> ('w, 'a) ioe) \<Rightarrow> (string \<times> 'b) list \<Rightarrow>
    ('w, ((string \<times> 'b) \<times> (error + 'a)) list) io" where
  "visit_each q [] = ret []"
| "visit_each q (k # ks) = io_bind (q (snd k)) (\<lambda>r. io_bind (visit_each q ks) (\<lambda>rs. ret ((k, r) # rs)))"

definition visit_error :: "('b \<Rightarrow> string) \<Rightarrow> (string \<times> 'b) \<times> (error + 'a) \<Rightarrow> error option" where
  "visit_error nm kr = (case snd kr of
     Inl e \<Rightarrow> Some (WrapE ''%s: %w'' [AStr (nm (snd (fst kr)))] e) | Inr _ \<Rightarrow> None)"

definition visit_errors :: "('b \<Rightarrow> string) \<Rightarrow> ((string \<times> 'b) \<times> (error + 'a)) list \<Rightarrow> error list" where
  "visit_errors nm answers = List.map_filter (visit_error nm) answers"

lemma visit_errors_simps [simp]:
  "visit_errors nm [] = []"
  "visit_errors nm ((k, Inl e) # as) = WrapE ''%s: %w'' [AStr (nm (snd k))] e # visit_errors nm as"
  "visit_errors nm ((k, Inr a) # as) = visit_errors nm as"
  by (simp_all add: visit_errors_def visit_error_def)

lemma visit_each_keys: "visit_each q bs w = (Ret as, w') \<Longrightarrow> map fst as = bs"
  by (induction bs arbitrary: w as) (auto simp: io_bind_RetE)

context image_builders
begin

text \<open>A visit that never asks to stop goes on to the last member.\<close>

lemma forEach_loop_visits:
  assumes fn: "\<And>nm b s. fn nm b s = io_bind (q b) (\<lambda>r.
      ret ((False, (case r of Inl e \<Rightarrow> Some e | Inr _ \<Rightarrow> None)), upd nm r s))"
    and q: "\<And>w b r w'. valid w b \<Longrightarrow> q b w = (r, w') \<Longrightarrow> later valid name settled w w'"
    and "\<forall>k\<in>set bs. valid w (snd k) \<and> nm (snd k) = name w (snd k)"
  shows "forEach_loop ops fn bs merr s w =
    io_bind (visit_each q bs) (\<lambda>as. ret (merr @ visit_errors nm as, fold (\<lambda>(k, r). upd (fst k) r) as s)) w"
  using assms(3)
proof (induction bs arbitrary: merr s w)
  case (Cons k bs)
  obtain o1 w1 where qk: "q (snd k) w = (o1, w1)" by fastforce
  have valid: "valid w (snd k)" using Cons.prems by simp
  note lt = q [OF valid qk]
  have "\<forall>k\<in>set bs. valid w1 (snd k) \<and> nm (snd k) = name w1 (snd k)"
    using Cons.prems lt by (simp add: later_def)
  note IH = Cons.IH [OF this]
  have name: "ib_Name ops (snd k) w1 = (Ret (nm (snd k)), w1)"
    using Name_eq [OF later_valid [OF lt valid]] later_name [OF lt valid] Cons.prems by simp
  have unfold: "forEach_loop ops fn (k # bs) merr s w = io_bind (fn (fst k) (snd k) s) (\<lambda>((stop, err), s').
      io_bind (case err of None \<Rightarrow> ret merr
        | Some e \<Rightarrow> io_bind (ib_Name ops (snd k)) (\<lambda>bn. ret (multi_append merr (WrapE ''%s: %w'' [AStr bn] e))))
      (\<lambda>merr'. if stop then ret (merr', s') else forEach_loop ops fn bs merr' s')) w"
    by (cases k, hypsubst, unfold forEach_loop.simps fst_conv snd_conv, rule refl)
  show ?case
  proof (cases o1)
    case (Ret r)
    then have "fn (fst k) (snd k) s w =
        (Ret ((False, (case r of Inl e \<Rightarrow> Some e | Inr _ \<Rightarrow> None)), upd (fst k) r s), w1)"
      using qk by (simp add: fn)
    then show ?thesis
      using qk name Ret unfolding unfold
      by (cases r) (simp_all add: IH io_bind_def split: prod.splits outcome.splits)
  next
    case (Panic m)
    then have "fn (fst k) (snd k) s w = (Panic m, w1)" using qk by (simp add: fn)
    with qk Panic show ?thesis unfolding unfold by simp
  next
    case Blocked
    then have "fn (fst k) (snd k) s w = (Blocked, w1)" using qk by (simp add: fn)
    with qk Blocked show ?thesis unfolding unfold by simp
  qed
qed simp

end

section \<open>PruneImages\<close>

definition prune_reports :: "((string \<times> 'b) \<times> (error + PruneImageReport)) list \<Rightarrow> (string \<times> PruneImageReport) list" where
  "prune_reports answers = List.map_filter (\<lambda>(k, r). case r of
     Inl _ \<Rightarrow> None | Inr p \<Rightarrow> Some (fst k, \<lparr>ImageIDs = ImageIDs p, ImageNames = []\<rparr>)) answers"

definition note_prune :: "string \<Rightarrow> error + PruneImageReport \<Rightarrow> (string \<times> PruneImageReport) list \<Rightarrow> (string \<times> PruneImageReport) list" where
  "note_prune nm r report = (case r of
     Inl _ \<Rightarrow> report | Inr p \<Rightarrow> mput nm \<lparr>ImageIDs = ImageIDs p, ImageNames = []\<rparr> report)"

lemma prune_member_visit:
  "prune_member ops options nm b s = io_bind (ib_PruneImages ops b options) (\<lambda>r.
     ret ((False, (case r of Inl e \<Rightarrow> Some e | Inr _ \<Rightarrow> None)), note_prune nm r s))"
  unfolding prune_member_def note_prune_def
  by (rule arg_cong [where f = "io_bind _"]) (simp add: fun_eq_iff split: sum.splits)

lemma fold_note_prune:
  "distinct (map fst (map fst as)) \<Longrightarrow> fst ` fst ` set as \<inter> fst ` set rep = {} \<Longrightarrow>
     fold (\<lambda>(k, r). note_prune (fst k) r) as rep = rep @ prune_reports as"
proof (induction as arbitrary: rep)
  case (Cons a as)
  obtain k r where a: "a = (k, r)" by (cases a)
  show ?case
  proof (cases r)
    case (Inr p)
    have "fst k \<notin> fst ` set rep" using Cons.prems by (auto simp: a)
    then have "note_prune (fst k) r rep = rep @ [(fst k, \<lparr>ImageIDs = ImageIDs p, ImageNames = []\<rparr>)]"
      by (simp add: note_prune_def Inr mput_fresh)
    moreover have "fst ` fst ` set as \<inter> fst ` set (rep @ [(fst k, \<lparr>ImageIDs = ImageIDs p, ImageNames = []\<rparr>)]) = {}"
      using Cons.prems by (force simp: a)
    ultimately show ?thesis using Cons.IH Cons.prems(1) by (simp add: a Inr prune_reports_def)
  qed (use Cons in \<open>simp add: a note_prune_def prune_reports_def\<close>)
qed (simp add: prune_reports_def)

text \<open>
  C13. \<open>PruneImages\<close> asks every member, whatever the others answered, and does nothing else: its
  report holds what each successful member removed, under the member's key, and its error lists,
  in the order of the visit, the error of each member that failed with the member's name.
\<close>

theorem prune_visits_all:
  assumes "members_ok is_builder f w"
  shows "Farm_PruneImages (builders A D) f options w =
    io_bind (visit_each (\<lambda>b. ib_PruneImages (builders A D) b options) (farm_builders f)) (\<lambda>answers.
      ret (error_or_nil (visit_errors (builder_name w) answers), prune_reports answers)) w"
proof -
  have later: "later_world v v'" if "is_builder v b" "ib_PruneImages (builders A D) b options v = (r, v')" for v b r v'
    using objs.PruneImages_later [OF that] .
  have bs: "\<forall>k\<in>set (farm_builders f). is_builder w (snd k) \<and> builder_name w (snd k) = builder_name w (snd k)"
    using assms by (simp add: members_ok_def)
  have loop: "forEach_loop (builders A D) (prune_member (builders A D) options) (farm_builders f) [] [] w =
      io_bind (visit_each (\<lambda>b. ib_PruneImages (builders A D) b options) (farm_builders f))
        (\<lambda>as. ret ([] @ visit_errors (builder_name w) as, fold (\<lambda>(k, r). note_prune (fst k) r) as [])) w"
    by (rule objs.forEach_loop_visits [OF prune_member_visit later bs])
  have "fold (\<lambda>(k, r). note_prune (fst k) r) as [] = prune_reports as"
    if "visit_each (\<lambda>b. ib_PruneImages (builders A D) b options) (farm_builders f) w = (Ret as, w')" for as w'
    using fold_note_prune [of as "[]"] visit_each_keys [OF that] assms by (simp add: members_ok_def)
  moreover obtain o1 w1 where
    "visit_each (\<lambda>b. ib_PruneImages (builders A D) b options) (farm_builders f) w = (o1, w1)" by fastforce
  ultimately show ?thesis
    unfolding Farm_PruneImages_def forEach_def io_bind_def loop [unfolded io_bind_def]
    by (cases o1) simp_all
qed

theorem prune_visits_all_witness:
  "\<exists>w'. Farm_PruneImages sample_ops sample_farm \<lparr>pr_All = True\<rparr> sample_world =
     (Ret (None, [(''arm'', \<lparr>ImageIDs = [''old''], ImageNames = []\<rparr>), ([], \<lparr>ImageIDs = [''old''], ImageNames = []\<rparr>)]), w')"
  unfolding prune_visits_all [OF sample_members]
  by (simp add: sample_defs io_bind_def dispatch_def podmanLocal_PruneImages_def podmanRemote_PruneImages_def
      on_engine_def try_bind_def wrap_err_def self_def sys_def pruned_ids_def prune_reports_def)

section \<open>Done\<close>

definition open_engine :: "builder_object \<Rightarrow> engine option" where
  "open_engine ob = (case ob of
     RemoteObj r \<Rightarrow> (case pmr_connCtx r of None \<Rightarrow> None | Some c \<Rightarrow> pmr_engine r)
   | LocalObj l \<Rightarrow> None | DockerObj d \<Rightarrow> None)"

definition close_object :: "builder_object \<Rightarrow> builder_object" where
  "close_object ob = (case ob of
     RemoteObj r \<Rightarrow> if open_engine ob = None then ob else RemoteObj (r\<lparr>pmr_connCtx := None, pmr_engine := None\<rparr>)
   | LocalObj l \<Rightarrow> ob | DockerObj d \<Rightarrow> ob)"

definition shutdown :: "'x podman_api \<Rightarrow> builder_object \<Rightarrow> 'x \<Rightarrow> 'x" where
  "shutdown A ob = (case open_engine ob of None \<Rightarrow> id | Some e \<Rightarrow> pa_Shutdown A e)"

lemma open_close [simp]: "open_engine (close_object ob) = None"
  by (cases ob) (auto simp: open_engine_def close_object_def split: option.splits)

lemma Done_object:
  assumes "is_builder w b"
  shows "ib_Done (builders A D) b w = (Ret (Inr ()),
    w\<lparr>heap := (heap w)[b := close_object (heap w ! b)], ext := shutdown A (heap w ! b) (ext w)\<rparr>)"
  using assms
  by (cases "heap w ! b")
     (auto simp: is_builder_def dispatch_def podmanLocal_Done_def dockerEngine_Done_def podmanRemote_Done_def
       close_object_def open_engine_def shutdown_def split: option.splits)

text \<open>The world after every member was closed: one update of the heap per member.\<close>

definition close_all :: "'x podman_api \<Rightarrow> (string \<times> builder) list \<Rightarrow> 'x farm_world \<Rightarrow> 'x farm_world" where
  "close_all A bs w = fold (\<lambda>k w. w\<lparr>heap := (heap w)[snd k := close_object (heap w ! snd k)],
     ext := shutdown A (heap w ! snd k) (ext w)\<rparr>) bs w"

lemma visit_done:
  "\<forall>k\<in>set bs. is_builder w (snd k) \<Longrightarrow>
     visit_each (ib_Done (builders A D)) bs w = (Ret (map (\<lambda>k. (k, Inr ())) bs), close_all A bs w)"
proof (induction bs arbitrary: w)
  case (Cons k bs)
  let ?w1 = "w\<lparr>heap := (heap w)[snd k := close_object (heap w ! snd k)], ext := shutdown A (heap w ! snd k) (ext w)\<rparr>"
  have "\<forall>k\<in>set bs. is_builder ?w1 (snd k)" using Cons.prems by (simp add: is_builder_def)
  from Cons.IH [OF this] show ?case
    using Done_object [of w "snd k" A D] Cons.prems by (simp add: close_all_def del: builders_simps)
qed (simp add: close_all_def)

lemma close_all_heap:
  "distinct (map snd bs) \<Longrightarrow> \<forall>k\<in>set bs. is_builder w (snd k) \<Longrightarrow>
     length (heap (close_all A bs w)) = length (heap w) \<and>
     (\<forall>b. heap (close_all A bs w) ! b = (if b \<in> snd ` set bs then close_object (heap w ! b) else heap w ! b)) \<and>
     ext (close_all A bs w) = fold (\<lambda>k. shutdown A (heap w ! snd k)) bs (ext w)"
proof (induction bs arbitrary: w)
  case (Cons k bs)
  let ?w1 = "w\<lparr>heap := (heap w)[snd k := close_object (heap w ! snd k)], ext := shutdown A (heap w ! snd k) (ext w)\<rparr>"
  have step: "close_all A (k # bs) w = close_all A bs ?w1" by (simp add: close_all_def)
  have fresh: "snd k \<notin> snd ` set bs" and k: "snd k < length (heap w)"
    using Cons.prems by (auto simp: is_builder_def)
  have IH: "length (heap (close_all A bs ?w1)) = length (heap ?w1) \<and>
     (\<forall>b. heap (close_all A bs ?w1) ! b = (if b \<in> snd ` set bs then close_object (heap ?w1 ! b) else heap ?w1 ! b)) \<and>
     ext (close_all A bs ?w1) = fold (\<lambda>k. shutdown A (heap ?w1 ! snd k)) bs (ext ?w1)"
    using Cons.prems by (intro Cons.IH) (simp_all add: is_builder_def)
  have "fold (\<lambda>k. shutdown A (heap ?w1 ! snd k)) bs x = fold (\<lambda>k. shutdown A (heap w ! snd k)) bs x" for x
    using fresh by (intro fold_cong) (auto simp: image_iff intro!: arg_cong [where f = "shutdown A"] nth_list_update_neq)
  with IH fresh k show ?case unfolding step by (auto simp: nth_list_update)
qed (simp add: close_all_def)

lemma done_member_visit:
  "done_member ops nm b s = io_bind (ib_Done ops b) (\<lambda>r.
     ret ((False, (case r of Inl e \<Rightarrow> Some e | Inr _ \<Rightarrow> None)), s))"
  by (simp add: done_member_def)

lemma Farm_Done_eq:
  assumes "members_ok is_builder f w"
  shows "Farm_Done (builders A D) f w = (Ret None, close_all A (farm_builders f) w)"
proof -
  have later: "later_world v v'" if "is_builder v b" "ib_Done (builders A D) b v = (r, v')" for v b r v'
    using objs.Done_later [OF that] .
  have bs: "\<forall>k\<in>set (farm_builders f). is_builder w (snd k)" using assms by (simp add: members_ok_def)
  have none: "visit_errors nm (map (\<lambda>k. (k, Inr ())) ks) = []" for nm and ks :: "(string \<times> builder) list"
    by (induction ks) simp_all
  have "forEach_loop (builders A D) (done_member (builders A D)) (farm_builders f) [] () w =
      io_bind (visit_each (ib_Done (builders A D)) (farm_builders f))
        (\<lambda>as. ret ([] @ visit_errors (builder_name w) as, fold (\<lambda>(k, r) s. s) as ())) w"
    by (rule objs.forEach_loop_visits [OF done_member_visit later]) (use bs in simp_all)
  then show ?thesis
    by (simp add: Farm_Done_def forEach_def io_bind_def visit_done [OF bs] none del: builders_simps)
qed

text \<open>
  C14. \<open>Done\<close> never fails. It closes the connection of every member that has an open one, so that
  none is left open, it shuts down the engine of each of these exactly once, in the order of the
  visit, and it leaves every other builder alone.
\<close>

theorem done_closes_members:
  assumes "members_ok is_builder f w" and "distinct (map snd (farm_builders f))"
  shows "\<exists>w'. Farm_Done (builders A D) f w = (Ret None, w') \<and>
    (\<forall>b\<in>snd ` set (farm_builders f). heap w' ! b = close_object (heap w ! b) \<and> open_engine (heap w' ! b) = None) \<and>
    (\<forall>b. b \<notin> snd ` set (farm_builders f) \<longrightarrow> heap w' ! b = heap w ! b) \<and>
    ext w' = fold (pa_Shutdown A) (List.map_filter (\<lambda>k. open_engine (heap w ! snd k)) (farm_builders f)) (ext w)"
proof -
  have "fold (\<lambda>k. shutdown A (heap w ! snd k)) ks x =
      fold (pa_Shutdown A) (List.map_filter (\<lambda>k. open_engine (heap w ! snd k)) ks) x" for ks :: "(string \<times> builder) list" and x
    by (induction ks arbitrary: x) (simp_all add: shutdown_def split: option.splits)
  then show ?thesis
    using Farm_Done_eq [OF assms(1), of A D] close_all_heap [OF assms(2), of w A] assms(1)
    by (simp add: members_ok_def)
qed

theorem done_closes_members_witness:
  "\<exists>w'. Farm_Done sample_ops sample_farm sample_world = (Ret None, w') \<and> open_engine (heap w' ! 1) = None \<and>
     ext w' = [''shutdown'']"
proof -
  have d: "distinct (map snd (farm_builders sample_farm))" by (simp add: sample_farm_def)
  have "List.map_filter (\<lambda>k. open_engine (heap sample_world ! snd k)) (farm_builders sample_farm) = [1]"
    by (simp add: sample_defs open_engine_def)
  with done_closes_members [OF sample_members d, of sample_podman sample_docker] show ?thesis
    by (auto simp: sample_defs)
qed

end
