(* ===== verification/Farm_Liveness.thy ===== *)
theory Farm_Liveness
  imports Farm_Visits
begin

text \<open>
  The queries of a farm come to an end: what the members have to guarantee for it, as an
  extension of the interface of \<open>Image_Builder\<close>, and that the builders of the repository do as
  long as their connection is open and the detection of emulation does not panic.
\<close>

section \<open>Builders that answer\<close>

locale query_builders = image_builders ops valid name settled
  for ops :: "('b, 'w) ImageBuilder" and valid and name and settled +
  fixes ready :: "'w \<Rightarrow> 'b \<Rightarrow> bool"
  assumes Info_returns: "ready w b \<Longrightarrow> \<exists>r w'. ib_Info ops b w = (Ret r, w')"
    and Native_returns: "ready w b \<Longrightarrow> \<exists>r w'. ib_NativePlatforms ops b w = (Ret r, w')"
    and Emulated_returns: "ready w b \<Longrightarrow> \<exists>r w'. ib_EmulatedPlatforms ops b w = (Ret r, w')"
    and Info_ready: "ib_Info ops b w = (o2, w') \<Longrightarrow> ready w c \<Longrightarrow> ready w' c"
    and Native_ready: "ib_NativePlatforms ops b w = (o3, w') \<Longrightarrow> ready w c \<Longrightarrow> ready w' c"
    and Emulated_ready: "ib_EmulatedPlatforms ops b w = (o3, w') \<Longrightarrow> ready w c \<Longrightarrow> ready w' c"
begin

definition all_ready :: "(string \<times> 'b) list \<Rightarrow> 'w \<Rightarrow> bool" where
  "all_ready bs w \<longleftrightarrow> (\<forall>k\<in>set bs. ready w (snd k))"

lemma query_total:
  assumes "spawn B = plain_spawn"
    and "\<And>k w. k \<in> set bs \<Longrightarrow> ready w (snd k) \<Longrightarrow> \<exists>r w'. call B k w = (Ret r, w')"
    and "\<And>k w r w' c. k \<in> set bs \<Longrightarrow> call B k w = (Ret r, w') \<Longrightarrow> ready w c \<Longrightarrow> ready w' c"
  shows "fork_join_total B (set bs) (all_ready bs) (\<lambda>k x. x = k) (\<lambda>_ _ _. True)"
proof (unfold_locales, goal_cases)
  case (5 k w x r w')
  then show ?case using assms(3) unfolding all_ready_def by blast
next
  case (9 k w x)
  then show ?case using assms(2) unfolding all_ready_def by blast
qed (auto simp: assms(1) split: sum.splits)

end

sublocale query_builders \<subseteq> nat_total: fork_join_total "platforms_body (ib_NativePlatforms ops)" "set bs"
    "all_ready bs" "\<lambda>k x. x = k" "\<lambda>_ _ _. True" for bs
  by (rule query_total) (auto simp: platforms_body_def dest: Native_returns Native_ready)

sublocale query_builders \<subseteq> emu_total: fork_join_total "platforms_body (ib_EmulatedPlatforms ops)" "set bs"
    "all_ready bs" "\<lambda>k x. x = k" "\<lambda>_ _ _. True" for bs
  by (rule query_total) (auto simp: platforms_body_def dest: Emulated_returns Emulated_ready)

sublocale query_builders \<subseteq> sched_total: fork_join_total "schedule_body ops" "set bs"
    "all_ready bs" "\<lambda>k x. x = k" "\<lambda>_ _ _. True" for bs
  by (rule query_total) (auto simp: schedule_body_def dest: Info_returns Info_ready)

context query_builders
begin

text \<open>A query group keeps all members ready, and Wait returns.\<close>

lemma group_ready:
  assumes grp: "fork_join_total B (set bs) (all_ready bs) (\<lambda>k x. x = k) (\<lambda>_ _ _. True)"
    and "fork_join B bs evs s w = (Ret r, w')" and "all_ready bs w" and "distinct bs"
  shows "all_ready bs w'"
proof -
  obtain f R errs s' where r: "r = (f, R, errs, s')" by (cases r)
  show ?thesis
    using fork_join_calls.fork_join_serial [OF fork_join_total.axioms(1) [OF grp] assms(2) [unfolded r] assms(3,4) subset_refl]
    by blast
qed

lemma target_platforms_fork:
  assumes "target_platforms ops f ps evs w = (Ret r, w')"
  shows "w' = w \<or> (\<exists>x. fork_join (platforms_body (ib_NativePlatforms ops)) (farm_builders f) evs [] w = (Ret x, w'))"
proof (cases "ps = []")
  case True
  with assms obtain x w1 where x: "fork_join (platforms_body (ib_NativePlatforms ops)) (farm_builders f) evs [] w = (Ret x, w1)"
    and "\<exists>r. (case x of (_, _, errs, m) \<Rightarrow> case error_or_nil errs of
       Some err \<Rightarrow> ret (Inl err) | None \<Rightarrow> ret (Inr (sort (mkeys m)))) w1 = (Ret r, w')"
    by (auto simp: target_platforms_def Farm_NativePlatforms_def collect_platforms_def wrap_err_def io_bind_RetE)
  then have "w1 = w'" by (cases x) (auto split: option.splits)
  with x show ?thesis by blast
qed (use assms in \<open>simp add: target_platforms_def\<close>)

lemma targets_complete:
  assumes "all_ready (farm_builders f) w" and "wf_map (farm_builders f)"
  shows "\<exists>evs r w'. target_platforms ops f ps evs w = (Ret r, w') \<and> all_ready (farm_builders f) w'"
    and "fst (target_platforms ops f ps evs w) \<noteq> Panic m"
    and "target_platforms ops f ps evs w = (Ret r, w') \<Longrightarrow> all_ready (farm_builders f) w'"
proof -
  let ?B = "platforms_body (ib_NativePlatforms ops)"
  have d: "distinct (farm_builders f)" using assms(2) by (rule wf_map_distinct)
  have np: "fst (fork_join ?B (farm_builders f) evs [] w) \<noteq> Panic m"
    using nat_total.fork_join_no_panic [OF assms(1) d subset_refl] .
  then show "fst (target_platforms ops f ps evs w) \<noteq> Panic m"
    by (auto simp: target_platforms_def Farm_NativePlatforms_def collect_platforms_def wrap_err_def io_bind_def
        split: prod.splits outcome.splits option.splits)
  show ready: "all_ready (farm_builders f) w'" if "target_platforms ops f ps evs w = (Ret r, w')" for evs r w'
    using target_platforms_fork [OF that] assms(1) group_ready [OF nat_total.fork_join_total_axioms _ assms(1) d]
    by blast
  obtain evs r w' where "fork_join ?B (farm_builders f) evs [] w = (Ret r, w')"
    using nat_total.fork_join_completes [OF assms(1) d subset_refl, of "[]"] by blast
  then have "\<exists>r. target_platforms ops f ps evs w = (Ret r, if ps = [] then w' else w)"
    by (cases r) (auto simp: target_platforms_def Farm_NativePlatforms_def collect_platforms_def wrap_err_def
        io_bind_def split: prod.splits outcome.splits option.splits)
  then show "\<exists>evs r w'. target_platforms ops f ps evs w = (Ret r, w') \<and> all_ready (farm_builders f) w'"
    using ready by blast
qed

lemma Schedule_completes:
  assumes "all_ready (farm_builders f) w" and "wf_map (farm_builders f)"
  shows "\<exists>evs1 evs2 r w'. Farm_Schedule ops f ps evs1 evs2 w = (Ret r, w')"
proof -
  have d: "distinct (farm_builders f)" using assms(2) by (rule wf_map_distinct)
  obtain evs1 t w1 where t: "target_platforms ops f ps evs1 w = (Ret t, w1)" and w1: "all_ready (farm_builders f) w1"
    using targets_complete(1) [OF assms] by blast
  obtain evs2 r w' where "fork_join (schedule_body ops) (farm_builders f) evs2 ([], []) w1 = (Ret r, w')"
    using sched_total.fork_join_completes [OF w1 d subset_refl] by blast
  with t have "\<exists>r w'. Farm_Schedule ops f ps evs1 evs2 w = (Ret r, w')"
    by (cases t; cases r) (simp_all add: Farm_Schedule_def)
  then show ?thesis by blast
qed

lemma Schedule_no_panic:
  assumes "all_ready (farm_builders f) w" and "wf_map (farm_builders f)"
  shows "fst (Farm_Schedule ops f ps evs1 evs2 w) \<noteq> Panic m"
proof -
  have d: "distinct (farm_builders f)" using assms(2) by (rule wf_map_distinct)
  obtain t w1 where t: "target_platforms ops f ps evs1 w = (t, w1)" by fastforce
  show ?thesis
  proof (cases t)
    case (Ret q)
    then have "all_ready (farm_builders f) w1" using t targets_complete(3) [OF assms] by blast
    then have "fst (fork_join (schedule_body ops) (farm_builders f) evs2 ([], []) w1) \<noteq> Panic m"
      using sched_total.fork_join_no_panic d by blast
    with t Ret show ?thesis
      by (cases q) (auto simp: Farm_Schedule_def io_bind_def split: prod.splits outcome.splits)
  next
    case (Panic m')
    then show ?thesis using t targets_complete(2) [OF assms, of ps evs1 m'] by simp
  next
    case Blocked
    with t show ?thesis by (simp add: Farm_Schedule_def)
  qed
qed

end

section \<open>The builders of the repository answer\<close>

text \<open>The detection of emulation does not panic: see \<open>detection_returns\<close>.\<close>

definition detects :: "'x podman_api \<Rightarrow> bool" where
  "detects A \<longleftrightarrow> (\<forall>x e. pa_linux A \<and> pa_binfmt_misc A x = Inl e \<longrightarrow> \<not> is_not_exist e)"

definition remote_ready :: "podmanRemote \<Rightarrow> bool" where
  "remote_ready r \<longleftrightarrow> pmr_once r \<or> pmr_connCtx r \<noteq> None"

definition local_ready :: "'x podman_api \<Rightarrow> podmanLocal \<Rightarrow> bool" where
  "local_ready A l \<longleftrightarrow> pml_once l \<or> detects A"

definition object_ready :: "'x podman_api \<Rightarrow> builder_object \<Rightarrow> bool" where
  "object_ready A ob = (case ob of
     LocalObj l \<Rightarrow> local_ready A l | RemoteObj r \<Rightarrow> remote_ready r | DockerObj d \<Rightarrow> True)"

definition builder_ready :: "'x podman_api \<Rightarrow> 'x farm_world \<Rightarrow> builder \<Rightarrow> bool" where
  "builder_ready A w b \<longleftrightarrow> is_builder w b \<and> object_ready A (heap w ! b)"

lemma local_once_returns:
  assumes "local_ready A l"
  shows "\<exists>l' x'. local_once A (l, x) = (Ret (), (l', x')) \<and> pml_once l'"
proof (cases "pml_once l")
  case False
  then have det: "\<exists>p. local_platforms A q (l, x) = (Ret p, (l, x))" for q
  proof -
    have "\<exists>reg err. detect_emulation A x = Ret (reg, err)"
      using assms False registered_Ret_iff [of "pa_binfmt_misc A x"]
      by (auto simp: detect_emulation_def local_ready_def detects_def registeredBinfmtMisc_other_def)
    then have "\<exists>p. Registered (detect_emulation A x) = Ret p"
      by (auto simp: Registered_def split: option.splits)
    then show ?thesis by (cases q) (auto simp: local_platforms_def)
  qed
  have "\<exists>p. podmanLocal_fetchInfo A (l, x) = (Ret p, (l, x))"
    using det by (auto simp: podmanLocal_fetchInfo_def split: list.splits)
  with False show ?thesis by (auto simp: local_once_def io_bind_def split: prod.splits)
qed (simp add: local_once_def)

lemma remote_once_returns:
  assumes "remote_ready r"
  shows "\<exists>r' x'. remote_once A (r, x) = (Ret (), (r', x')) \<and> pmr_once r'"
proof (cases "pmr_once r")
  case False
  then obtain c where "pmr_connCtx r = Some c" using assms by (auto simp: remote_ready_def)
  then have "\<exists>p x'. podmanRemote_fetchInfo A (r, x) = (Ret p, (r, x'))"
    by (auto simp: podmanRemote_fetchInfo_def io_bind_def split: prod.splits sum.splits)
  with False show ?thesis by (auto simp: remote_once_def io_bind_def split: prod.splits)
qed (simp add: remote_once_def)

lemma docker_once_returns: "\<exists>d' x'. docker_once D (d, x) = (Ret (), (d', x'))"
  by (auto simp: docker_once_def dockerEngine_fetchInfo_def io_bind_def self_def sys_def
      split: prod.splits sum.splits outcome.splits)

text \<open>The queries start with the \<open>sync.Once\<close> and then read the fields.\<close>

definition query_method :: "(('o \<times> 'x, unit) io) \<Rightarrow> ('o \<Rightarrow> error + 'a) \<Rightarrow> ('o \<times> 'x, 'a) ioe" where
  "query_method once ans = io_bind once (\<lambda>_. io_bind self (\<lambda>o1. ret (ans o1)))"

lemma query_method_Ret:
  assumes "once (l, x) = (Ret (), (l', x'))"
  shows "query_method once ans (l, x) = (Ret (ans l'), (l', x'))"
  using assms by (simp add: query_method_def)

lemma query_method_object:
  assumes "query_method once ans (l, x) = (r, (l', x'))"
  shows "\<exists>o1 x1. once (l, x) = (o1, (l', x1))"
  using assms by (auto simp: query_method_def io_bind_def self_def split: prod.splits outcome.splits)

lemma once_ready:
  "local_once A (l, x) = (o1, (l', x')) \<Longrightarrow> local_ready B l \<Longrightarrow> local_ready B l'"
  "remote_once A (r, x) = (o2, (r', x')) \<Longrightarrow> remote_ready r \<Longrightarrow> remote_ready r'"
  subgoal
    using keepsD [OF keeps_local_fetchInfo, of A "(l, x)"]
    by (auto simp: local_once_def io_bind_def self_def local_ready_def
        split: prod.splits outcome.splits if_splits)
  subgoal
    using keepsD [OF keeps_remote_fetchInfo, of A "(r, x)"]
    by (auto simp: remote_once_def io_bind_def self_def remote_ready_def
        split: prod.splits outcome.splits if_splits)
  done

lemma dispatch_query:
  fixes A :: "'x podman_api" and D :: "'x docker_api"
    and f :: "podmanLocal \<Rightarrow> error + 'a" and g :: "podmanRemote \<Rightarrow> error + 'a" and h :: "dockerEngine \<Rightarrow> error + 'a"
  defines "q \<equiv> dispatch (query_method (local_once A) f) (query_method (remote_once A) g) (query_method (docker_once D) h)"
  shows "builder_ready A w b \<Longrightarrow> \<exists>r w'. q b w = (Ret r, w')"
    and "q b w = (o1, w') \<Longrightarrow> builder_ready A w c \<Longrightarrow> builder_ready A w' c"
proof -
  show "\<exists>r w'. q b w = (Ret r, w')" if "builder_ready A w b"
  proof (cases "heap w ! b")
    case (LocalObj l)
    with that have "local_ready A l" by (simp add: builder_ready_def object_ready_def)
    then obtain l' x' where "local_once A (l, ext w) = (Ret (), (l', x'))" using local_once_returns [of A l "ext w"] by blast
    with LocalObj that show ?thesis
      by (simp add: q_def dispatch_def builder_ready_def is_builder_def query_method_Ret)
  next
    case (RemoteObj l)
    with that have "remote_ready l" by (simp add: builder_ready_def object_ready_def)
    then obtain l' x' where "remote_once A (l, ext w) = (Ret (), (l', x'))" using remote_once_returns [of l A "ext w"] by blast
    with RemoteObj that show ?thesis
      by (simp add: q_def dispatch_def builder_ready_def is_builder_def query_method_Ret)
  next
    case (DockerObj l)
    obtain l' x' where "docker_once D (l, ext w) = (Ret (), (l', x'))" using docker_once_returns [of D l "ext w"] by blast
    with DockerObj that show ?thesis
      by (simp add: q_def dispatch_def builder_ready_def is_builder_def query_method_Ret)
  qed
  show "builder_ready A w' c" if run: "q b w = (o1, w')" and c: "builder_ready A w c"
  proof (cases "b < length (heap w)")
    case True
    have "length (heap w') = length (heap w)" "c \<noteq> b \<Longrightarrow> heap w' ! c = heap w ! c"
      using run True by (auto simp: q_def dispatch_def split: builder_object.splits prod.splits)
    moreover have "object_ready A (heap w ! b) \<Longrightarrow> object_ready A (heap w' ! b)"
      using run True
      by (cases "heap w ! b")
         (auto simp: q_def dispatch_def object_ready_def split: prod.splits dest!: query_method_object
           intro: once_ready)
    ultimately show ?thesis using c by (metis builder_ready_def is_builder_def)
  qed (use run c in \<open>simp add: q_def dispatch_def\<close>)
qed

lemma query_methods:
  "podmanLocal_Info A = query_method (local_once A) (\<lambda>l. with_err (pml_platformsErr l)
     \<lparr>NativePlatforms = [] @ pml_nativePlatforms l, EmulatedPlatforms = pml_emulatedPlatforms l\<rparr>)"
  "podmanRemote_Info A = query_method (remote_once A) (\<lambda>r. with_err (pmr_platformsErr r)
     \<lparr>NativePlatforms = [] @ pmr_nativePlatforms r, EmulatedPlatforms = []\<rparr>)"
  "dockerEngine_Info D = query_method (docker_once D) (\<lambda>r. with_err (dke_platformsErr r)
     \<lparr>NativePlatforms = [] @ dke_nativePlatforms r, EmulatedPlatforms = []\<rparr>)"
  "podmanLocal_NativePlatforms A = query_method (local_once A) (\<lambda>l. with_err (pml_platformsErr l) ([] @ pml_nativePlatforms l))"
  "podmanRemote_NativePlatforms A = query_method (remote_once A) (\<lambda>l. with_err (pmr_platformsErr l) ([] @ pmr_nativePlatforms l))"
  "dockerEngine_NativePlatforms D = query_method (docker_once D) (\<lambda>l. with_err (dke_platformsErr l) ([] @ dke_nativePlatforms l))"
  "podmanLocal_EmulatedPlatforms A = query_method (local_once A) (\<lambda>l. with_err (pml_platformsErr l) (pml_emulatedPlatforms l))"
  "podmanRemote_EmulatedPlatforms A = query_method (remote_once A) (\<lambda>l. with_err (pmr_platformsErr l) [])"
  "dockerEngine_EmulatedPlatforms D = query_method (docker_once D) (\<lambda>l. with_err (dke_platformsErr l) [])"
  by (simp_all add: query_method_def podmanLocal_Info_def podmanRemote_Info_def dockerEngine_Info_def
      podmanLocal_NativePlatforms_def podmanRemote_NativePlatforms_def dockerEngine_NativePlatforms_def
      podmanLocal_EmulatedPlatforms_def podmanRemote_EmulatedPlatforms_def dockerEngine_EmulatedPlatforms_def)

interpretation live: query_builders "builders A D" is_builder builder_name builder_info "builder_ready A" for A D
  by unfold_locales (simp only: builders_simps query_methods dispatch_query)+

text \<open>A fresh farm is ready where the detection works.\<close>

lemma fresh_ready:
  assumes "fresh_farm f w" and "detects A"
  shows "live.all_ready A (farm_builders f) w"
proof -
  have "builder_ready A w (snd k)" if "k \<in> set (farm_builders f)" for k
  proof -
    obtain n where "built_for n (heap w ! snd k)" "is_builder w (snd k)"
      using assms(1) \<open>k \<in> set (farm_builders f)\<close> by (auto simp: fresh_farm_def members_ok_def)
    then show ?thesis using assms(2)
      by (auto simp: built_for_def builder_ready_def object_ready_def local_ready_def remote_ready_def
          split: builder_object.splits)
  qed
  then show ?thesis by (simp add: live.all_ready_def)
qed

section \<open>Liveness\<close>

text \<open>
  \<open>Schedule\<close> comes to an end: when every member has its connection or has answered before, no
  interleaving of its goroutines panics, and there are interleavings on which it returns.
\<close>

theorem schedule_terminates:
  assumes "wf_map (farm_builders f)" and "\<forall>k\<in>set (farm_builders f). builder_ready A w (snd k)"
  shows "(\<exists>evs_native evs_info r w'. Farm_Schedule (builders A D) f platforms evs_native evs_info w = (Ret r, w')) \<and>
    (\<forall>evs_native evs_info m. fst (Farm_Schedule (builders A D) f platforms evs_native evs_info w) \<noteq> Panic m)"
  using live.Schedule_completes live.Schedule_no_panic assms unfolding live.all_ready_def by blast

lemma sample_ready: "\<forall>k\<in>set (farm_builders sample_farm). builder_ready sample_podman sample_world (snd k)"
  by (simp add: sample_defs builder_ready_def is_builder_def object_ready_def local_ready_def remote_ready_def)

lemma sample_wf: "wf_map (farm_builders sample_farm)"
  by (simp add: sample_farm_def)

theorem schedule_terminates_witness:
  "\<exists>evs_native evs_info r w'. Farm_Schedule sample_ops sample_farm [] evs_native evs_info sample_world = (Ret r, w')"
  using schedule_terminates [OF sample_wf sample_ready] by blast



text \<open>
  C29. A builder's platforms are fetched once: after \<open>Info\<close> has answered, in every later world the
  same answer is given, errors included, and giving it does not touch the outside.
\<close>

theorem info_fetched_once:
  assumes "ib_Info (builders A D) b w = (Ret r, w1)" and "is_builder w b" and "later_world w1 w2"
  shows "ib_Info (builders A D) b w2 = (Ret r, w2)"
proof -
  have "later_world w w1" using objs.Info_later [OF assms(2,1)] .
  then have b: "is_builder w1 b" using assms(2) objs.later_valid by blast
  have "builder_info w2 b = Some r"
    using objs.later_settled [OF assms(3) b objs.Info_settles [OF assms(2,1)]] .
  then show ?thesis using objs.Info_cached objs.later_valid [OF assms(3) b] by blast
qed

theorem info_fetched_once_witness:
  "ib_Info sample_ops 1 sample_world2 = (Ret (Inr \<lparr>NativePlatforms = [''linux/arm64''], EmulatedPlatforms = []\<rparr>), sample_world2)"
proof -
  have "ib_Info sample_ops 1 sample_world =
      (Ret (Inr \<lparr>NativePlatforms = [''linux/arm64''], EmulatedPlatforms = []\<rparr>), sample_world2)"
    by (simp add: method_eval group_eval sample_defs sample_world2_def)
  from info_fetched_once [OF this _ objs.later_refl] show ?thesis
    by (simp add: is_builder_def sample_world_def)
qed

end
