(* ===== verification/Docker_Theorems.thy ===== *)
theory Docker_Theorems
  imports Farm_Theorems
begin

text \<open>
  The properties of the docker builder's translation of options: labels, resource limits, and the
  sizes that the docker client's library parses.
\<close>

section \<open>Labels\<close>

definition label_key :: "string \<Rightarrow> string" where
  "label_key l = fst (str_cut (CHR ''='') l)"

definition label_value :: "string \<Rightarrow> string" where
  "label_value l = (case snd (str_cut (CHR ''='') l) of None \<Rightarrow> [] | Some v \<Rightarrow> v)"

lemma docker_labels_fold:
  "docker_labels labels m = Inr (fold (\<lambda>l. mput (label_key l) (label_value l)) labels m)"
proof (induction labels arbitrary: m)
  case (Cons l labels)
  obtain k v where "str_cut (CHR ''='') l = (k, v)" by fastforce
  with Cons.IH show ?case
    by (cases v) (simp_all add: str_splitn_2 label_key_def label_value_def)
qed simp

lemma map_of_fold_labels:
  "map_of (fold (\<lambda>l. mput (label_key l) (label_value l)) labels m) k =
     (case filter (\<lambda>l. label_key l = k) labels of [] \<Rightarrow> map_of m k | ls \<Rightarrow> Some (label_value (last ls)))"
  by (induction labels arbitrary: m) (auto split: list.splits)

text \<open>
  Labels are always accepted, whatever their text: the image gets, for every key, the value of
  the last label with that key, where a label is cut at its first equals sign and one without
  has the empty value.
\<close>

theorem docker_labels_last:
  "\<exists>m. docker_labels labels [] = Inr m \<and> (\<forall>k. map_of m k =
     (case filter (\<lambda>l. label_key l = k) labels of [] \<Rightarrow> None | ls \<Rightarrow> Some (label_value (last ls))))"
  by (simp add: docker_labels_fold map_of_fold_labels cong: list.case_cong)

section \<open>Resource limits\<close>

text \<open>A number as it is written on the command line.\<close>

definition int_text :: "int \<Rightarrow> string" where
  "int_text n = (if n < 0 then CHR ''-'' # nat_digits (nat (- n)) else nat_digits (nat n))"

lemma nat_digits_digits: "c \<in> set (nat_digits n) \<Longrightarrow> 48 \<le> (of_char c :: nat) \<and> (of_char c :: nat) \<le> 57"
proof (induction n rule: nat_digits.induct)
  case (1 n)
  then show ?case
    by (cases "n < 10") (auto simp: nat_digits.simps [of n])
qed

lemma int_text_chars:
  "c \<in> set (int_text n) \<Longrightarrow> c \<noteq> CHR ''='' \<and> c \<noteq> CHR '':''"
  using nat_digits_digits [of c "nat n"] nat_digits_digits [of c "nat (- n)"]
  by (auto simp: int_text_def split: if_splits)

lemma parse_int_text:
  "parse_int bits (int_text n) = (if - (2 ^ (bits - 1)) \<le> n \<and> n < 2 ^ (bits - 1) then Some n else None)"
proof -
  obtain c cs where d: "nat_digits (nat n) = c # cs" using nat_digits_ne by (cases "nat_digits (nat n)") auto
  have "c \<noteq> CHR ''-''" "c \<noteq> CHR ''+''" using nat_digits_digits [of c "nat n"] d by auto
  then show ?thesis
    using parse_digits_nat_digits [of "nat n"] parse_digits_nat_digits [of "nat (- n)"] nat_digits_ne [of "nat (- n)"] d
    by (simp add: int_text_def parse_int_def parse_uint_def)
qed

definition fits_i64 :: "int \<Rightarrow> bool" where
  "fits_i64 n \<longleftrightarrow> - (2 ^ 63) \<le> n \<and> n < 2 ^ 63"

lemma parse_i64_text: "parse_i64 (int_text n) =
    (if fits_i64 n then Inr (word_of_int n) else Inl (ExtE ''strconv.ParseInt''))"
  by (simp add: parse_i64_def parse_int_text fits_i64_def)

lemma sint_i64: "fits_i64 n \<Longrightarrow> sint (word_of_int n :: i64) = n"
  by (simp add: fits_i64_def signed_of_int signed_take_bit_int_eq_self)



section \<open>Sizes\<close>

text \<open>
  A build on the docker builder needs a shared-memory size: without one, which is the default
  of the command line, the size parser refuses the empty text and the build fails before the
  engine is asked.
\<close>

theorem docker_needs_shm_size:
  assumes "da_RAMInBytes D [] = Inl e" and "bo_ShmSize options = []"
  shows "dockerEngine_Build D reference containerFiles options (r, x) =
    (Ret (Inl (Errorf ''parsing requested shmsize %q'' [AStr []])), (r, x))"
  using assms by (simp add: dockerEngine_Build_def docker_labels_fold io_bind_def self_def)

theorem docker_needs_shm_size_witness:
  "\<exists>r. dockerEngine_Build sample_docker [] [''Containerfile''] zero_BuildOptions (r, []) =
     (Ret (Inl (Errorf ''parsing requested shmsize %q'' [AStr []])), (r, []))"
proof -
  have "da_RAMInBytes sample_docker [] = Inl (ExtE ''invalid size'')" "bo_ShmSize zero_BuildOptions = []"
    by (simp_all add: sample_docker_def zero_BuildOptions_def)
  from docker_needs_shm_size [OF this] show ?thesis by blast
qed

end
