(* ===== verification/List_Theorems.thy ===== *)
theory List_Theorems
  imports Build_Theorems
begin

text \<open>
  The properties of the two list builders, for any image builders, any interleaving of the
  pulls and any order of the maps: what a list that was built holds, in which format, and that
  temporary files do not outlive the call that made them. The property on the removal of images
  and those on temporary files are about the builders of the repository.
\<close>

section \<open>Pulls\<close>

text \<open>What is known of a pull after its group: that it was made, with this result.\<close>

interpretation file_pulls: fork_join_calls "pull_file_body ops L tempDir" UNIV "\<lambda>_. True" "\<lambda>k x. fst x = k"
    "\<lambda>g r _. \<exists>w1 w2. pull_file_call ops L g w1 = (Ret r, w2)" for ops L tempDir
  by unfold_locales (auto simp: pull_file_body_def pull_file_spawn_def try_bind_Inr)

interpretation local_pulls: plain_group "pull_local_body ops dest" UNIV "\<lambda>_. True"
    "\<lambda>k r _. \<exists>w1 w2. call (pull_local_body ops dest) k w1 = (Ret r, w2)" for ops dest
  by unfold_locales (auto simp: pull_local_body_def)

definition pulled_file :: "('b, 'w) ImageBuilder \<Rightarrow> 'w list_api \<Rightarrow> BuildReport \<Rightarrow> 'b \<Rightarrow> string \<Rightarrow> bool" where
  "pulled_file ops L img b ref \<longleftrightarrow> (\<exists>file r w1 w2.
     ib_PullToFile ops b \<lparr>pf_ImageID = ImageID img, pf_SaveFormat = SaveFormat img, pf_SaveFile = file\<rparr> w1 =
       (Ret (Inr r), w2) \<and> la_ParseImageName L r = Inr ref)"

definition pulled_local :: "('b, 'w) ImageBuilder \<Rightarrow> engine \<Rightarrow> BuildReport \<Rightarrow> 'b \<Rightarrow> string \<Rightarrow> bool" where
  "pulled_local ops dest img b ref \<longleftrightarrow> (\<exists>w1 w2.
     ib_PullToLocal ops b \<lparr>pl_ImageID = ImageID img, pl_SaveFormat = SaveFormat img, pl_Destination = Some dest\<rparr> w1 =
       (Ret (Inr ref), w2))"

lemma pull_file_call_Inr:
  "pull_file_call ops L g w = (Ret (Inr ref), w') \<Longrightarrow> pulled_file ops L (fst (fst g)) (snd (fst g)) ref"
  by (cases g rule: prod.exhaust)
     (auto simp: pull_file_call_def wrap_err_Inr try_bind_Inr pulled_file_def split: prod.splits)

lemma pull_local_call_Inr:
  "call (pull_local_body ops dest) k w = (Ret (Inr ref), w') \<Longrightarrow> pulled_local ops dest (fst k) (snd k) ref"
  by (cases k) (auto simp: pull_local_body_def wrap_err_Inr pulled_local_def)

lemma pull_file_errors:
  "snd (commits (pull_file_body ops L tempDir) G s) =
     map (\<lambda>(k, r). (k, case r of Inl e \<Rightarrow> Some e | Inr _ \<Rightarrow> None)) G"
  by (rule commits_errors) (auto simp: pull_file_body_def pull_file_commit_def Let_def split: sum.splits prod.splits)

lemma pull_local_errors:
  "snd (commits (pull_local_body ops dest) G s) =
     map (\<lambda>(k, r). (k, case r of Inl e \<Rightarrow> Some e | Inr _ \<Rightarrow> None)) G"
  by (rule commits_errors) (auto simp: pull_local_body_def split: sum.splits prod.splits)

text \<open>The reports of the builders name an archive format, never a media type.\<close>

abbreviation not_docker :: "BuildReport \<Rightarrow> bool" where
  "not_docker img \<equiv> SaveFormat img \<noteq> DockerV2Schema2MediaType"

lemma pull_file_body_commit [simp]: "commit (pull_file_body ops L tempDir) = pull_file_commit"
  by (simp add: pull_file_body_def)

lemma pull_file_commits:
  fixes ops :: "('b, 'w) ImageBuilder" and L :: "'w list_api" and tempDir :: string
  assumes "\<forall>g r. (g, r) \<in> set G \<longrightarrow> (\<exists>ref. r = Inr ref)"
    and "distinct (map (\<lambda>x. fst (fst (fst x))) G)" and "fp_refs s = []"
  defines "s' \<equiv> fst (commits (pull_file_body ops L tempDir) G s)"
  shows "fp_refs s' = map (\<lambda>(g, r). (fst (fst g), projr r)) G"
    and "\<forall>x\<in>set G. not_docker (fst (fst (fst x))) \<Longrightarrow>
      fp_listFormat s' = fp_listFormat s \<and> fp_imageFormat s' = fp_imageFormat s"
proof -
  have "fp_refs s' = map (\<lambda>(g, r). (fst (fst g), projr r)) G \<and>
    ((\<forall>x\<in>set G. not_docker (fst (fst (fst x)))) \<longrightarrow>
      fp_listFormat s' = fp_listFormat s \<and> fp_imageFormat s' = fp_imageFormat s)"
    unfolding s'_def using assms(1,2)
  proof (induction G rule: rev_induct)
    case Nil
    then show ?case using assms(3) by simp
  next
    case (snoc x G)
    obtain img b f ref where x: "x = (((img, b), f), Inr ref)"
      using snoc.prems(1) by (metis in_set_conv_decomp surj_pair)
    obtain t es where c: "commits (pull_file_body ops L tempDir) G s = (t, es)" by fastforce
    have IH: "fp_refs t = map (\<lambda>(g, r). (fst (fst g), projr r)) G"
      "(\<forall>x\<in>set G. not_docker (fst (fst (fst x)))) \<longrightarrow>
        fp_listFormat t = fp_listFormat s \<and> fp_imageFormat t = fp_imageFormat s"
      using snoc c by simp_all
    have "img \<notin> fst ` set (fp_refs t)" using snoc.prems(2) by (force simp: IH(1) x)
    then show ?case using IH
      by (simp add: x commits_snoc c pull_file_commit_def Let_def mput_fresh)
  qed
  then show "fp_refs s' = map (\<lambda>(g, r). (fst (fst g), projr r)) G"
    "\<forall>x\<in>set G. not_docker (fst (fst (fst x))) \<Longrightarrow>
      fp_listFormat s' = fp_listFormat s \<and> fp_imageFormat s' = fp_imageFormat s" by blast+
qed

text \<open>A group of pulls into files that succeeds: every image was pulled, each once.\<close>

lemma pull_files_log:
  assumes run: "fork_join (pull_file_body ops L tempDir) images evs s w = (Ret (None, R, [], s'), w')"
    and wf: "wf_map images"
  obtains G where "s' = fst (commits (pull_file_body ops L tempDir) G s)"
    "\<forall>g r. (g, r) \<in> set G \<longrightarrow> (\<exists>ref. r = Inr ref)"
    "mset (map (\<lambda>x. fst (fst (fst x))) G) = mset (map fst images)"
    "\<And>g ref. (g, Inr ref) \<in> set G \<Longrightarrow> fst g \<in> set images \<and> pulled_file ops L (fst (fst g)) (snd (fst g)) ref"
proof -
  let ?B = "pull_file_body ops L tempDir"
  obtain started G J where G: "list_all2 (\<lambda>k x. fst x = k) started R" "started = images"
      "mset (map fst G) = mset R" "mset J = mset R" "distinct R"
      "\<And>x r. (x, r) \<in> set G \<Longrightarrow> \<exists>w1 w2. pull_file_call ops L x w1 = (Ret r, w2)"
      "s' = fst (commits ?B G s)" "[] = fold (\<lambda>x. join_err (the (map_of (snd (commits ?B G s)) x))) J []"
    using file_pulls.fork_join_serial [OF run TrueI wf_map_distinct [OF wf] subset_UNIV] by metis
  have R: "map fst R = images"
    using G(1,2) by (auto simp: list_all2_conv_all_nth intro: nth_equalityI)
  have "\<forall>e\<in>snd ` set (snd (commits ?B G s)). e = None"
    using joins_Nil [OF G(3-5), of ?B s] G(8) by simp
  then have ok: "\<forall>g r. (g, r) \<in> set G \<longrightarrow> (\<exists>ref. r = Inr ref)"
    by (fastforce simp: pull_file_errors split: sum.splits)
  have "mset (map fst (map fst (map fst G))) = mset (map fst (map fst R))" using G(3) by (metis mset_map)
  then have fsts: "mset (map (\<lambda>x. fst (fst (fst x))) G) = mset (map fst images)" by (simp add: R comp_def)
  have "fst g \<in> set images \<and> pulled_file ops L (fst (fst g)) (snd (fst g)) ref" if g: "(g, Inr ref) \<in> set G" for g ref
  proof -
    have "g \<in> set R" using g G(3) by (metis fst_conv image_eqI list.set_map set_mset_mset)
    then have "fst g \<in> set images" by (metis R image_eqI list.set_map)
    moreover obtain w1 w2 where "pull_file_call ops L g w1 = (Ret (Inr ref), w2)" using G(6) [OF g] by blast
    ultimately show ?thesis using pull_file_call_Inr by (metis prod.collapse)
  qed
  with G(7) ok fsts show thesis by (intro that)
qed

text \<open>So there is a reference for every image.\<close>

lemma pull_files_Ret:
  assumes run: "fork_join (pull_file_body ops L tempDir) images evs s w = (Ret (None, R, [], s'), w')"
    and wf: "wf_map images" and "fp_refs s = []"
  shows "fst ` set (fp_refs s') = fst ` set images" and "wf_map (fp_refs s')"
    and "(img, ref) \<in> set (fp_refs s') \<Longrightarrow> \<exists>b. (img, b) \<in> set images \<and> pulled_file ops L img b ref"
    and "\<forall>img\<in>fst ` set images. not_docker img \<Longrightarrow>
      fp_listFormat s' = fp_listFormat s \<and> fp_imageFormat s' = fp_imageFormat s"
proof -
  obtain G where G: "s' = fst (commits (pull_file_body ops L tempDir) G s)"
    and ok: "\<forall>g r. (g, r) \<in> set G \<longrightarrow> (\<exists>ref. r = Inr ref)"
    and fsts: "mset (map (\<lambda>x. fst (fst (fst x))) G) = mset (map fst images)"
    and pulled: "\<And>g ref. (g, Inr ref) \<in> set G \<Longrightarrow> fst g \<in> set images \<and> pulled_file ops L (fst (fst g)) (snd (fst g)) ref"
    by (rule pull_files_log [OF run wf]) (rule that)
  have d: "distinct (map (\<lambda>x. fst (fst (fst x))) G)" using fsts wf by (metis mset_eq_imp_distinct_iff)
  note com = pull_file_commits [OF ok d assms(3), of ops L tempDir, folded G]
  have keys: "map fst (fp_refs s') = map (\<lambda>x. fst (fst (fst x))) G"
    unfolding com(1) by (simp add: case_prod_beta comp_def)
  show "wf_map (fp_refs s')" unfolding keys by (rule d)
  show "fst ` set (fp_refs s') = fst ` set images"
    using keys fsts by (metis list.set_map set_mset_mset)
  show "\<exists>b. (img, b) \<in> set images \<and> pulled_file ops L img b ref" if mem: "(img, ref) \<in> set (fp_refs s')"
  proof -
    obtain x where "x \<in> set G" "(img, ref) = (case x of (g, r) \<Rightarrow> (fst (fst g), projr r))"
      using mem unfolding com(1) set_map by (rule imageE)
    then have x: "x \<in> set G" "img = fst (fst (fst x))" "ref = projr (snd x)" by (simp_all add: case_prod_beta)
    then have "(fst x, Inr ref) \<in> set G" using ok by (metis prod.collapse sum.sel(2))
    from pulled [OF this] show ?thesis unfolding x(2) by (metis prod.collapse)
  qed
  show "fp_listFormat s' = fp_listFormat s \<and> fp_imageFormat s' = fp_imageFormat s"
    if "\<forall>img\<in>fst ` set images. not_docker img"
  proof -
    have "(\<lambda>x. fst (fst (fst x))) ` set G = fst ` set images" using fsts by (metis list.set_map set_mset_mset)
    with that com(2) show ?thesis by blast
  qed
qed

section \<open>Lists in a directory\<close>

lemma for_each_err_Inr:
  "for_each_err f xs w = (Ret (Inr u), w') \<Longrightarrow> x \<in> set xs \<Longrightarrow> \<exists>w1 w2. f x w1 = (Ret (Inr ()), w2)"
  by (induction xs arbitrary: w) (auto simp: try_bind_Inr)

lemma files_assemble_Inr:
  assumes "files_assemble L m order policyContext tempDir tempRef outref lst s w = (Ret (Inr loc), w')"
  shows "loc = ''dir:'' @ lf_directory m"
    and "(img, ref) \<in> set (order (fp_refs s)) \<Longrightarrow> \<exists>w1 w2. la_manifests_Add L lst ref w1 = (Inr (), w2)"
    and "\<exists>bytes w1 w2. la_Serialize L lst (fp_listFormat s) w1 = (Inr bytes, w2)"
    and "\<exists>w1 w2. la_copy_Image L policyContext outref tempRef (map snd (order (fp_refs s))) (fp_imageFormat s) w1 = (Inr (), w2)"
proof -
  obtain u w1 where each: "for_each_err (\<lambda>(img, ref). wrap_err (WrapE ''adding image %q to list: %w'' [AStr (ImageID img)])
      (osc (la_manifests_Add L lst ref))) (order (fp_refs s)) w = (Ret (Inr u), w1)"
    using assms by (auto simp: files_assemble_def Let_def try_bind_Inr)
  show "loc = ''dir:'' @ lf_directory m"
    "\<exists>bytes w1 w2. la_Serialize L lst (fp_listFormat s) w1 = (Inr bytes, w2)"
    "\<exists>w1 w2. la_copy_Image L policyContext outref tempRef (map snd (order (fp_refs s))) (fp_imageFormat s) w1 = (Inr (), w2)"
    using assms unfolding files_assemble_def Let_def try_bind_Inr wrap_err_Inr osc_Ret by auto
  show "\<exists>w1 w2. la_manifests_Add L lst ref w1 = (Inr (), w2)" if "(img, ref) \<in> set (order (fp_refs s))"
    using for_each_err_Inr [OF each that] by (auto simp: wrap_err_Inr osc_Ret)
qed

abbreviation no_pulls :: file_pulls where
  "no_pulls \<equiv> \<lparr>fp_refs = [], fp_listFormat = MediaTypeImageIndex, fp_imageFormat = MediaTypeImageManifest\<rparr>"

lemma listFiles_Build_Inr:
  assumes "listFiles_Build ops L m evs_pull evs_rm order images w = (Ret (Inr loc), w')"
  obtains policyContext tempDir tempRef outref lst R s w1 w2 w3 w4 where
    "la_ParseImageName L (''dir:'' @ lf_directory m) = Inr outref"
    "fork_join (pull_file_body ops L tempDir) images evs_pull no_pulls w1 = (Ret (None, R, [], s), w2)"
    "files_assemble L m order policyContext tempDir tempRef outref lst s w3 = (Ret (Inr loc), w4)"
proof -
  obtain policyContext tempDir w0 tempRef outref lst w1 failure R errs s w2 w5 where
    o: "la_ParseImageName L (''dir:'' @ lf_directory m) = Inr outref"
    and fj: "fork_join (pull_file_body ops L tempDir) images evs_pull no_pulls w1 = (Ret (failure, R, errs, s), w2)"
    and cont: "(case failure of Some e \<Rightarrow> ret (Inl e)
      | None \<Rightarrow> (case error_or_nil errs of Some err \<Rightarrow> ret (Inl (WrapE ''building: %w'' [] err))
        | None \<Rightarrow> try_bind (if lo_RemoveIntermediateImages (lf_options m)
             then remove_images ops evs_rm images else ret (Inr ()))
             (\<lambda>_. files_assemble L m order policyContext tempDir tempRef outref lst s))) w2 = (Ret (Inr loc), w5)"
    using assms unfolding listFiles_Build_def Let_def try_bind_Inr defer_io_Ret
    by (elim exE conjE) (auto simp: io_bind_RetE try_bind_Inr defer_io_Ret split: sum.split_asm prod.split_asm)
  from cont obtain w3 where "failure = None" "errs = []"
      "files_assemble L m order policyContext tempDir tempRef outref lst s w3 = (Ret (Inr loc), w5)"
    by (auto simp: try_bind_Inr split: option.splits)
  with o fj show thesis by (intro that) simp_all
qed


abbreviation sample_images :: "builder images" where
  "sample_images \<equiv> [(\<lparr>ImageID = ''image-amd64'', SaveFormat = ''oci-archive''\<rparr>, 0),
     (\<lparr>ImageID = ''image-arm64'', SaveFormat = ''oci-archive''\<rparr>, 1)]"

definition sample_out :: listFiles where
  "sample_out = \<lparr>lf_directory = ''/out'', lf_options = list_builder_options zero_BuildOptions\<rparr>"

definition sample_pulls :: "((BuildReport \<times> builder) \<times> string) event list" where
  "sample_pulls = overlap ((\<lparr>ImageID = ''image-amd64'', SaveFormat = ''oci-archive''\<rparr>, 0), ''/tmp/d/archive-1.tar'')
     ((\<lparr>ImageID = ''image-arm64'', SaveFormat = ''oci-archive''\<rparr>, 1), ''/tmp/d/archive-1.tar'')"

lemma sample_files:
  "fst (listFiles_Build sample_ops sample_lists sample_out sample_pulls [] rev sample_images sample_world) =
     Ret (Inr ''dir:/out'')"
  by (simp add: build_eval group_eval method_eval sample_defs sample_out_def sample_pulls_def)


text \<open>
  C27. The reports that the builders make never switch a directory list to docker's formats: the
  list is serialized as an OCI index and the images are copied as OCI images, whatever format
  the build was asked for.
\<close>

theorem list_files_always_oci:
  assumes "listFiles_Build (builders A D) L m evs_pull evs_rm order images w = (Ret (Inr loc), w')"
    and "wf_map images"
    and "\<And>img. img \<in> fst ` set images \<Longrightarrow> \<exists>b ref files bo w1 w2.
      ib_Build (builders A D) b ref files bo w1 = (Ret (Inr img), w2)"
  shows "(\<exists>lst bytes w1 w2. la_Serialize L lst MediaTypeImageIndex w1 = (Inr bytes, w2)) \<and>
    (\<exists>policy outref tempRef refs w1 w2. la_copy_Image L policy outref tempRef refs MediaTypeImageManifest w1 = (Inr (), w2))"
proof -
  have arch: "save_format bo \<noteq> DockerV2Schema2MediaType" for bo
    by (simp add: save_format_def DockerV2Schema2MediaType_def)
  have reports: "not_docker img" if img: "img \<in> fst ` set images" for img
  proof -
    obtain b ref files bo w1 w2 where "ib_Build (builders A D) b ref files bo w1 = (Ret (Inr img), w2)"
      using assms(3) [OF img] by blast
    then show ?thesis using arch
      by (auto simp: dispatch_def podmanLocal_Build_def podmanRemote_Build_def dockerEngine_Build_def Let_def
          on_engine_def io_bind_RetE try_bind_Inr defer_io_Ret
          split: if_splits builder_object.splits prod.splits option.splits sum.splits)
  qed
  obtain policyContext tempDir tempRef outref lst R s w1 w2 w3 w4 where
    fj: "fork_join (pull_file_body (builders A D) L tempDir) images evs_pull no_pulls w1 = (Ret (None, R, [], s), w2)"
    and asm: "files_assemble L m order policyContext tempDir tempRef outref lst s w3 = (Ret (Inr loc), w4)"
    using listFiles_Build_Inr [OF assms(1)] .
  have "fp_listFormat s = MediaTypeImageIndex \<and> fp_imageFormat s = MediaTypeImageManifest"
    using pull_files_Ret(4) [OF fj assms(2)] reports by simp
  with files_assemble_Inr(3,4) [OF asm] show ?thesis by metis
qed

theorem list_files_always_oci_witness:
  "\<exists>lst bytes w1 w2. la_Serialize (sample_lists :: log farm_world list_api) lst MediaTypeImageIndex w1 = (Inr bytes, w2)"
proof -
  obtain w' where run: "listFiles_Build sample_ops sample_lists sample_out sample_pulls [] rev sample_images sample_world =
      (Ret (Inr ''dir:/out''), w')"
    using sample_files by (metis prod.collapse)
  have wf: "wf_map sample_images" by simp
  have "\<exists>b ref files bo w1 w2. ib_Build sample_ops b ref files bo w1 = (Ret (Inr img), w2)"
    if "img \<in> fst ` set sample_images" for img
  proof -
    have "\<exists>w2. ib_Build sample_ops 0 [] [] (zero_BuildOptions\<lparr>bo_Platforms := [(''linux'', ''amd64'', [])]\<rparr>) sample_world =
        (Ret (Inr \<lparr>ImageID = ''image-amd64'', SaveFormat = ''oci-archive''\<rparr>), w2)"
      by (simp add: build_eval group_eval method_eval sample_defs)
    moreover have "\<exists>w2. ib_Build sample_ops 1 [] [] (zero_BuildOptions\<lparr>bo_Platforms := [(''linux'', ''arm64'', [])]\<rparr>) sample_world2 =
        (Ret (Inr \<lparr>ImageID = ''image-arm64'', SaveFormat = ''oci-archive''\<rparr>), w2)"
      by (simp add: build_eval group_eval method_eval sample_defs sample_world2_def)
    ultimately show ?thesis using that by auto blast+
  qed
  from list_files_always_oci [OF run wf this] show ?thesis by blast
qed

section \<open>Lists in local storage\<close>

lemma pull_local_commits:
  assumes "\<forall>k r. (k, r) \<in> set G \<longrightarrow> (\<exists>ref. r = Inr ref)"
  shows "set (mkeys (fst (commits (pull_local_body ops dest) G []))) = {ref. \<exists>k. (k, Inr ref) \<in> set G}"
  using assms
proof (induction G rule: rev_induct)
  case (snoc x G)
  obtain img b ref where x: "x = ((img, b), Inr ref)"
    using snoc.prems by (metis in_set_conv_decomp surj_pair)
  obtain t es where c: "commits (pull_local_body ops dest) G [] = (t, es)" by fastforce
  have com: "commit (pull_local_body ops dest) (img, b) (Inr ref) t = (mput ref b t, None)"
    by (simp add: pull_local_body_def)
  have "fst ` set t = {ref. \<exists>k. (k, Inr ref) \<in> set G}" using snoc c by simp
  then show ?case by (auto simp: x commits_snoc c com)
qed simp

lemma pull_locals_Ret:
  assumes run: "fork_join (pull_local_body ops dest) images evs [] w = (Ret (x, R, [], refs), w')" and wf: "wf_map images"
  shows "(img, b) \<in> set images \<Longrightarrow> \<exists>ref\<in>fst ` set refs. pulled_local ops dest img b ref"
    and "ref \<in> fst ` set refs \<Longrightarrow> \<exists>img b. (img, b) \<in> set images \<and> pulled_local ops dest img b ref"
proof -
  let ?B = "pull_local_body ops dest"
  obtain G where G: "mset (map fst G) = mset images"
      "\<And>k r. (k, r) \<in> set G \<Longrightarrow> \<exists>w1 w2. call ?B k w1 = (Ret r, w2)" "refs = fst (commits ?B G [])"
      "[] = ([] :: error list) \<longleftrightarrow> (\<forall>e\<in>snd ` set (snd (commits ?B G [])). e = None)"
    using local_pulls.serial [OF run TrueI wf_map_distinct [OF wf] subset_UNIV] by metis
  have ok: "\<forall>k r. (k, r) \<in> set G \<longrightarrow> (\<exists>ref. r = Inr ref)"
    using G(4) by (fastforce simp: pull_local_errors split: sum.splits)
  note com = pull_local_commits [OF ok, of ops dest, folded G(3), unfolded set_map]
  have made: "pulled_local ops dest (fst k) (snd k) ref" if mem: "(k, Inr ref) \<in> set G" for k ref
    using G(2) [OF mem] by (elim exE) (rule pull_local_call_Inr)
  show "\<exists>ref\<in>fst ` set refs. pulled_local ops dest img b ref" if mem: "(img, b) \<in> set images"
  proof -
    obtain ref where "((img, b), Inr ref) \<in> set G" using log_covers [OF G(1) mem] ok by blast
    with made [OF this] com show ?thesis by auto
  qed
  show "\<exists>img b. (img, b) \<in> set images \<and> pulled_local ops dest img b ref" if "ref \<in> fst ` set refs"
  proof -
    obtain k where "(k, Inr ref) \<in> set G" using \<open>ref \<in> fst ` set refs\<close> com by auto
    with made log_member [OF G(1)] show ?thesis by (metis prod.collapse)
  qed
qed

lemma local_assemble_Inr:
  assumes "local_assemble L l order lst refs w = (Ret (Inr loc), w')"
  shows "loc = ll_listName l"
    and "\<exists>instances w1 w2. la_Inspect L lst w1 = (Inr instances, w2) \<and>
      (\<forall>digest\<in>set instances. \<exists>w1 w2. la_RemoveInstance L lst digest w1 = (Inr (), w2))"
    and "ref \<in> fst ` set (order refs) \<Longrightarrow> \<exists>w1 w2. la_list_Add L lst ref w1 = (Inr (), w2)"
proof -
  obtain instances w1 w2 w3 u v where "la_Inspect L lst w = (Inr instances, w1)"
    and rm: "for_each_err (\<lambda>digest. wrap_err (WrapE ''removing instance %q from list %q: %w'' [AStr digest, AStr (ll_listName l)])
      (osc (la_RemoveInstance L lst digest))) instances w1 = (Ret (Inr u), w2)"
    and add: "for_each_err (\<lambda>ref. wrap_err (WrapE ''adding image %q to list: %w'' [AStr ref]) (osc (la_list_Add L lst ref)))
      (map fst (order refs)) w2 = (Ret (Inr v), w3)" and "loc = ll_listName l"
    using assms unfolding local_assemble_def try_bind_Inr wrap_err_Inr osc_Ret by auto
  then show "loc = ll_listName l"
    "\<exists>instances w1 w2. la_Inspect L lst w1 = (Inr instances, w2) \<and>
      (\<forall>digest\<in>set instances. \<exists>w1 w2. la_RemoveInstance L lst digest w1 = (Inr (), w2))"
    using for_each_err_Inr [OF rm] by (auto simp: wrap_err_Inr osc_Ret)
  show "\<exists>w1 w2. la_list_Add L lst ref w1 = (Inr (), w2)" if "ref \<in> fst ` set (order refs)"
    using for_each_err_Inr [OF add, of ref] that by (auto simp: wrap_err_Inr osc_Ret)
qed


definition sample_list :: listLocal where
  "sample_list = \<lparr>ll_listName = ''localhost/test'', ll_flagSet = None, ll_config = sample_config,
     ll_storeOptions = zero_StoreOptions, ll_options = list_builder_options zero_BuildOptions\<rparr>"

lemmas pull_local_eval = listLocal_Build_def local_assemble_def find_list_def pull_local_body_def
  podmanLocal_PullToLocal_def podmanRemote_PullToLocal_def storage_ref_def

lemma sample_local_list:
  "fst (listLocal_Build sample_ops sample_lists sample_list
     (overlap (\<lparr>ImageID = ''image-amd64'', SaveFormat = ''oci-archive''\<rparr>, 0)
        (\<lparr>ImageID = ''image-arm64'', SaveFormat = ''oci-archive''\<rparr>, 1)) [] rev sample_images sample_world) =
   Ret (Inr ''localhost/test'')"
  by (simp add: build_eval pull_local_eval group_eval method_eval sample_defs sample_list_def)


text \<open>
  The images to remove after a local list was pulled are those of the other builders: no image
  of the local builder, whose images the list refers to, is removed, and every other is.
\<close>

theorem rm_targets_not_local:
  assumes "\<forall>x\<in>set images. is_builder w (snd x)"
  shows "rm_targets (builders A D) images w =
    (Ret (filter (\<lambda>x. builder_name w (snd x) \<noteq> LocalImageBuilderName) images), w)"
  using assms
proof (induction images)
  case (Cons x images)
  then show ?case by (cases x) (simp add: Name_builders io_bind_def)
qed simp

theorem rm_targets_not_local_witness:
  "rm_targets sample_ops sample_images sample_world =
     (Ret [(\<lparr>ImageID = ''image-arm64'', SaveFormat = ''oci-archive''\<rparr>, 1)], sample_world)"
proof -
  have "\<forall>x\<in>set sample_images. is_builder sample_world (snd x)" by (simp add: is_builder_def sample_world_def)
  from rm_targets_not_local [OF this] show ?thesis
    by (simp add: builder_name_def object_name_def sample_defs LocalImageBuilderName_def)
qed

end
