(* ===== verification/Io_Order.thy ===== *)
theory Io_Order
  imports Fork_Join
begin

text \<open>
  Computations that keep a reflexive and transitive relation between the world before and after:
  the relation goes through the combinators and the groups of goroutines, whatever the outcome,
  a panic included.
\<close>

definition moves_on :: "('w \<Rightarrow> 'w \<Rightarrow> bool) \<Rightarrow> ('w, 'a) io \<Rightarrow> bool" where
  "moves_on R m \<longleftrightarrow> (\<forall>w. R w (snd (m w)))"

named_theorems moves_intros \<open>computations that keep a relation between worlds\<close>

lemma moves_onD: "moves_on R m \<Longrightarrow> m w = (r, w') \<Longrightarrow> R w w'"
  by (metis moves_on_def snd_conv)

lemma moves_onI: "(\<And>w r w'. m w = (r, w') \<Longrightarrow> R w w') \<Longrightarrow> moves_on R m"
  unfolding moves_on_def by (metis prod.collapse)

locale io_order =
  fixes R :: "'w \<Rightarrow> 'w \<Rightarrow> bool"
  assumes R_refl: "R w w"
    and R_trans: "R w1 w2 \<Longrightarrow> R w2 w3 \<Longrightarrow> R w1 w3"
begin

lemma moves_ret [moves_intros]: "moves_on R (ret a)"
  by (simp add: moves_on_def R_refl)

lemma moves_io_bind [moves_intros]:
  assumes "moves_on R m" and "\<And>a. moves_on R (f a)"
  shows "moves_on R (io_bind m f)"
proof (rule moves_onI)
  fix w r w'
  assume run: "io_bind m f w = (r, w')"
  obtain o1 w1 where m: "m w = (o1, w1)" by fastforce
  show "R w w'"
  proof (cases o1)
    case (Ret a)
    then show ?thesis using run m moves_onD [OF assms(1) m] moves_onD [OF assms(2), of a w1]
      by (auto intro: R_trans)
  qed (use run m moves_onD [OF assms(1) m] in auto)
qed

lemma moves_case_sum [moves_intros]:
  "(\<And>a. moves_on R (f a)) \<Longrightarrow> (\<And>b. moves_on R (g b)) \<Longrightarrow> moves_on R (case r of Inl a \<Rightarrow> f a | Inr b \<Rightarrow> g b)"
  by (cases r) auto

lemma moves_case_option [moves_intros]:
  "moves_on R m \<Longrightarrow> (\<And>a. moves_on R (f a)) \<Longrightarrow> moves_on R (case v of None \<Rightarrow> m | Some a \<Rightarrow> f a)"
  by (cases v) auto

lemma moves_if [moves_intros]: "moves_on R m \<Longrightarrow> moves_on R n \<Longrightarrow> moves_on R (if b then m else n)"
  by simp

lemma moves_try_bind [moves_intros]: "moves_on R m \<Longrightarrow> (\<And>a. moves_on R (f a)) \<Longrightarrow> moves_on R (try_bind m f)"
  unfolding try_bind_def by (intro moves_intros)

lemma moves_wrap_err [moves_intros]: "moves_on R m \<Longrightarrow> moves_on R (wrap_err g m)"
  unfolding wrap_err_def by (intro moves_intros)

lemma moves_defer: "moves_on R m \<Longrightarrow> (\<And>w. R w (f w)) \<Longrightarrow> moves_on R (defer_io f m)"
  by (rule moves_onI) (auto simp: defer_io_def split: prod.splits intro: R_trans moves_onD)

lemma moves_defer_fold: "moves_on R m \<Longrightarrow> (\<And>g w. R w (f g w)) \<Longrightarrow> moves_on R (defer_io (fold f gs) m)"
proof (rule moves_defer)
  fix w
  assume step: "\<And>g w. R w (f g w)"
  show "R w (fold f gs w)"
    by (induction gs arbitrary: w) (auto intro: R_refl R_trans step)
qed

lemma moves_plain [moves_intros]: "moves_on R (plain_spawn k)"
  unfolding plain_spawn_def by (intro moves_intros)

text \<open>A group moves on when its goroutines do.\<close>

lemma moves_fork_join:
  assumes "\<And>k. moves_on R (spawn B k)" and "\<And>x. moves_on R (call B x)"
  shows "moves_on R (fork_join B ks evs s)"
proof (rule moves_onI)
  fix w r w'
  assume run: "fork_join B ks evs s w = (r, w')"
  have step: "R (world g) (world g')" if "group_step B ev g = (o1, g')" for ev g o1 g'
    using that
    by (cases ev)
       (auto split: list.splits option.splits phase.splits prod.splits outcome.splits sum.splits
         intro: R_refl dest: moves_onD [OF assms(1)] moves_onD [OF assms(2)])
  have "R (world g) (world g')" if "group_run B evs g = (o1, g')" for evs g o1 g'
    using that
  proof (induction evs arbitrary: g)
    case (Cons ev evs)
    obtain o2 g2 where "group_step B ev g = (o2, g2)" by fastforce
    with Cons step [OF this] show ?case
      by (cases o2) (auto intro: R_trans)
  qed (simp add: R_refl)
  from this [of evs "group_init ks s w"] run show "R w w'"
    by (auto simp: fork_join_def group_init_def split: prod.splits outcome.splits if_splits)
qed

end

end
