(* ===== verification/Build_Order.thy ===== *)
theory Build_Order
  imports Io_Order Farm_Build
begin

text \<open>
  A relation between worlds that the image builders' methods and the calls of the list builders
  keep is kept by a whole build: by both list builders and by \<open>(*Farm).Build\<close>. Of the temporary
  directory only the pair is asked for: what is done between its creation and its removal.
\<close>

locale build_order = io_order R
  for R :: "'w \<Rightarrow> 'w \<Rightarrow> bool" +
  fixes ops :: "('b, 'w) ImageBuilder" and L :: "'w list_api"
  assumes ops_moves [moves_intros]:
      "moves_on R (ib_Name ops b)" "moves_on R (ib_Build ops b ref files bo)" "moves_on R (ib_PullToFile ops b pf)"
      "moves_on R (ib_PullToLocal ops b pl)" "moves_on R (ib_RemoveImage ops b rm)"
    and files_moves [moves_intros]:
      "moves_on R (osc (la_DefaultPolicy L))" "moves_on R (osc (la_NewPolicyContext L p))"
      "moves_on R (osc (la_MkdirAll L d))" "moves_on R (osc (la_TempFile L d p1))"
      "moves_on R (osc (la_manifests_Create L))" "moves_on R (osc (la_manifests_Add L h s))"
      "moves_on R (osc (la_Serialize L h s))" "moves_on R (osc (la_WriteFile L s s1))"
      "moves_on R (osc (la_copy_Image L h s s1 ss s2))"
    and local_moves [moves_intros]:
      "moves_on R (osc (la_ReadCustomConfig L))" "moves_on R (osc (la_NewImageEngine L pc))"
      "moves_on R (osc (la_RuntimeFromStoreOptions L so))" "moves_on R (osc (la_LookupManifestList L h s))"
      "moves_on R (osc (la_CreateManifestList L h s))" "moves_on R (osc (la_Inspect L h))"
      "moves_on R (osc (la_RemoveInstance L h s))" "moves_on R (osc (la_list_Add L h s))"
    and closing: "R w (la_close L s w)" "R w (la_Shutdown L e w)" "R w (la_runtime_Shutdown L h w)"
    and temp_dir: "(\<And>d. moves_on R (m d)) \<Longrightarrow>
      moves_on R (try_bind (osc (la_TempDir L)) (\<lambda>d. defer_io (la_RemoveAll L d) (m d :: ('w, string) ioe)))"
begin

lemma moves_closing [moves_intros]:
  "moves_on R m \<Longrightarrow> moves_on R (defer_io (la_Shutdown L e) m)"
  "moves_on R m \<Longrightarrow> moves_on R (defer_io (la_runtime_Shutdown L h) m)"
  "moves_on R m \<Longrightarrow> moves_on R (defer_io (fold (\<lambda>g. la_close L (f g)) gs) m)"
  using closing by (auto intro: moves_defer moves_defer_fold)

lemma moves_for_each [moves_intros]: "(\<And>x. moves_on R (f x)) \<Longrightarrow> moves_on R (for_each_err f xs)"
  by (induction xs) (auto intro: moves_intros)

lemma moves_groups [moves_intros]:
  "moves_on R (fork_join (rm_body ops) ks evs s0)"
  "moves_on R (fork_join (pull_file_body ops L tempDir) ks1 evs1 s1)"
  "moves_on R (fork_join (pull_local_body ops e) ks2 evs2 s2)"
  "moves_on R (fork_join (build_body ops jobs files options) ks3 evs3 s3)"
  by (rule moves_fork_join;
      simp add: rm_body_def pull_file_body_def pull_local_body_def build_body_def
        pull_file_spawn_def pull_file_call_def build_call_def prod.case_eq_if;
      (intro moves_intros)?)+

lemma moves_rm_targets [moves_intros]: "moves_on R (rm_targets ops images)"
proof (induction images)
  case (Cons x images)
  then show ?case by (cases x) (auto intro!: moves_intros)
qed (simp only: rm_targets.simps moves_ret)

lemma moves_remove_images [moves_intros]: "moves_on R (remove_images ops evs images)"
  unfolding remove_images_def prod.case_eq_if by (intro moves_intros)

lemma moves_files_assemble [moves_intros]: "moves_on R (files_assemble L m order h d r out lst s)"
  unfolding files_assemble_def Let_def prod.case_eq_if by (intro moves_intros)

lemma moves_listFiles [moves_intros]: "moves_on R (listFiles_Build ops L m evs_pull evs_rm order images)"
  unfolding listFiles_Build_def Let_def prod.case_eq_if by (intro moves_intros temp_dir)

lemma moves_listLocal [moves_intros]: "moves_on R (listLocal_Build ops L l evs_pull evs_rm order images)"
  unfolding listLocal_Build_def local_assemble_def find_list_def Let_def prod.case_eq_if
  by (intro moves_intros)

lemma moves_Farm_Build [moves_intros]: "moves_on R (Farm_Build ops L norm f ch ref s files options)"
proof -
  have lb: "moves_on R (ListBuilder_Build ops L ch lb images)" for lb images
    unfolding ListBuilder_Build_def by (cases lb) (auto intro: moves_intros)
  have "moves_on R (choose_list_builder L f ref o1)" for o1
    unfolding choose_list_builder_def NewPodmanLocalListBuilder_def Let_def by (intro moves_intros)
  with lb show ?thesis
    unfolding Farm_Build_def run_builds_def Let_def prod.case_eq_if by (intro moves_intros)
qed

end

end
