(* ===== verification/Temp_Files.thy ===== *)
theory Temp_Files
  imports Build_Order Build_Theorems
begin

text \<open>
  Temporary files and directories: a reading \<open>F\<close> of the world says which exist, the functions that
  make and remove one are assumed to do so, and everything else to leave them alone. Then no
  method and no build leaves one behind, on any path and for any outcome.
\<close>

abbreviation (input) same :: "('w \<Rightarrow> 'v) \<Rightarrow> 'w \<Rightarrow> 'w \<Rightarrow> bool" where
  "same F \<equiv> \<lambda>w w'. F w' = F w"

interpretation same: io_order "same F" for F
  by unfold_locales simp_all

definition keeps_files :: "('x \<Rightarrow> string set) \<Rightarrow> ('x \<Rightarrow> 'a \<times> 'x) \<Rightarrow> bool" where
  "keeps_files F m \<longleftrightarrow> (\<forall>x. F (snd (m x)) = F x)"

definition makes_temp :: "('x \<Rightarrow> string set) \<Rightarrow> ('x, string) sysc \<Rightarrow> bool" where
  "makes_temp F m \<longleftrightarrow> (\<forall>x x'. (\<forall>t. m x = (Inr t, x') \<longrightarrow> t \<notin> F x \<and> F x' = insert t (F x)) \<and>
     (\<forall>e. m x = (Inl e, x') \<longrightarrow> F x' = F x))"

definition removes :: "('x \<Rightarrow> string set) \<Rightarrow> (string \<Rightarrow> 'x \<Rightarrow> 'x) \<Rightarrow> bool" where
  "removes F rm \<longleftrightarrow> (\<forall>t x. F (rm t x) = F x - {t})"

section \<open>Files of a pull\<close>

definition tidy_podman :: "('x \<Rightarrow> string set) \<Rightarrow> 'x podman_api \<Rightarrow> bool" where
  "tidy_podman F A \<longleftrightarrow> makes_temp F (pa_TempFile A) \<and> removes F (pa_os_Remove A) \<and>
     (\<forall>t x. F (pa_close A t x) = F x) \<and> (\<forall>e i. keeps_files F (pa_Exists A e i)) \<and>
     (\<forall>e i fmt t. keeps_files F (pa_Save A e i fmt t)) \<and> (\<forall>e t. keeps_files F (pa_Load A e t))"

definition tidy_docker :: "('x \<Rightarrow> string set) \<Rightarrow> 'x docker_api \<Rightarrow> bool" where
  "tidy_docker F D \<longleftrightarrow> makes_temp F (da_TempFile D) \<and> removes F (da_os_Remove D) \<and>
     (\<forall>t x. F (da_close D t x) = F x) \<and> (\<forall>c i t. keeps_files F (da_ExportImage D c i t)) \<and>
     (\<forall>e t. keeps_files F (da_Load D e t))"

lemma same_panic [moves_intros]: "moves_on (same F) (panic s)"
  by (simp add: moves_on_def panic_def)

lemma same_self [moves_intros]: "moves_on (same F) self"
  by (simp add: moves_on_def self_def)

lemma same_sys: "keeps_files F m \<Longrightarrow> moves_on (same (\<lambda>ox. F (snd ox))) (sys m)"
  unfolding moves_on_def keeps_files_def sys_def prod.case_eq_if by simp

lemma same_close: "(\<forall>x. F (f x) = F x) \<Longrightarrow> moves_on (same (\<lambda>ox. F (snd ox))) m \<Longrightarrow>
    moves_on (same (\<lambda>ox. F (snd ox))) (defer_io (outside f) m)"
  by (rule same.moves_defer) (simp_all add: outside_def)

lemma same_temp_file:
  assumes "makes_temp F tmp" and "removes F rm" and "\<And>t. moves_on (same (\<lambda>ox. F (snd ox))) (m t)"
  shows "moves_on (same (\<lambda>ox. F (snd ox))) (try_bind (sys tmp) (\<lambda>t. defer_io (outside (rm t)) (m t)))"
proof (rule moves_onI)
  fix ox r ox'
  assume run: "try_bind (sys tmp) (\<lambda>t. defer_io (outside (rm t)) (m t)) ox = (r, ox')"
  obtain v x1 where tmp: "tmp (snd ox) = (v, x1)" by fastforce
  show "F (snd ox') = F (snd ox)"
  proof (cases v)
    case (Inl e)
    then have "snd ox' = x1" using run tmp by (auto simp: try_bind_def io_bind_def sys_def)
    with Inl tmp assms(1) show ?thesis unfolding makes_temp_def by metis
  next
    case (Inr t)
    obtain q ox2 where m: "m t (fst ox, x1) = (q, ox2)" by (cases "m t (fst ox, x1)")
    have "F (snd ox2) = insert t (F (snd ox))" "t \<notin> F (snd ox)"
      using moves_onD [OF assms(3) m] assms(1) tmp Inr unfolding makes_temp_def by (metis snd_conv)+
    moreover have "snd ox' = rm t (snd ox2)"
      using run tmp Inr m by (auto simp: try_bind_def io_bind_def sys_def defer_io_def outside_def)
    ultimately show ?thesis using assms(2) by (simp add: removes_def)
  qed
qed

lemma pulls_tidy:
  assumes "tidy_podman F A" and "tidy_docker F D"
  shows "moves_on (same (\<lambda>ox. F (snd ox))) (podmanLocal_PullToLocal A options)"
    and "moves_on (same (\<lambda>ox. F (snd ox))) (podmanRemote_PullToLocal A options)"
    and "moves_on (same (\<lambda>ox. F (snd ox))) (dockerEngine_PullToLocal D options)"
proof -
  note podman = assms(1) [unfolded tidy_podman_def] and docker = assms(2) [unfolded tidy_docker_def]
  show "moves_on (same (\<lambda>ox. F (snd ox))) (podmanLocal_PullToLocal A options)"
    unfolding podmanLocal_PullToLocal_def Let_def using podman
    by (intro moves_intros same_temp_file same_close same_sys; simp)
  show "moves_on (same (\<lambda>ox. F (snd ox))) (podmanRemote_PullToLocal A options)"
    unfolding podmanRemote_PullToLocal_def on_engine_def using podman
    by (intro moves_intros same_temp_file same_close same_sys; simp)
  show "moves_on (same (\<lambda>ox. F (snd ox))) (dockerEngine_PullToLocal D options)"
    unfolding dockerEngine_PullToLocal_def using docker
    by (intro moves_intros same_temp_file same_close same_sys; simp)
qed

text \<open>
  C25. A builder that pulls an image to local storage leaves no temporary file behind: whether the
  call succeeds, fails or panics, the temporary files are the same as before.
\<close>

theorem pull_to_local_no_leak:
  assumes "ib_PullToLocal (builders A D) b options w = (r, w')" and "tidy_podman F A" and "tidy_docker F D"
  shows "F (ext w') = F (ext w)"
proof -
  note pulls = pulls_tidy [OF assms(2,3), of options, THEN moves_onD]
  show ?thesis
    using assms(1) pulls(1) [of "(_, ext w)"] pulls(2) [of "(_, ext w)"] pulls(3) [of "(_, ext w)"]
    by (auto simp: dispatch_def split: if_splits builder_object.splits prod.splits)
qed

text \<open>An outside that keeps the list of its temporary files; a new name is longer than all others.\<close>

definition new_name :: "(string list, string) sysc" where
  "new_name x = (Inr (CHR ''t'' # concat x), (CHR ''t'' # concat x) # x)"

definition drop_name :: "string \<Rightarrow> string list \<Rightarrow> string list" where
  "drop_name t x = filter (\<lambda>s. s \<noteq> t) x"

lemma new_name_temp: "makes_temp set new_name" "removes set drop_name"
proof -
  have "length s \<le> length (concat x)" if "s \<in> set x" for s :: string and x
    using that by (induction x) auto
  then have "CHR ''t'' # concat x \<notin> set x" for x by fastforce
  then show "makes_temp set new_name" by (auto simp: makes_temp_def new_name_def)
  show "removes set drop_name" by (auto simp: removes_def drop_name_def)
qed

definition tidy_sample :: "log podman_api" where
  "tidy_sample = sample_podman\<lparr>pa_TempFile := new_name, pa_os_Remove := drop_name,
     pa_Save := (\<lambda>e i fmt file x. (Inl (ExtE ''no space left''), x)), pa_Load := (\<lambda>e file x. (Inr (), x))\<rparr>"

definition tidy_sample_docker :: "log docker_api" where
  "tidy_sample_docker = sample_docker\<lparr>da_TempFile := new_name, da_os_Remove := drop_name,
     da_Load := (\<lambda>e file x. (Inr (), x))\<rparr>"

theorem pull_to_local_no_leak_witness:
  "set (ext (snd (ib_PullToLocal (builders tidy_sample tidy_sample_docker) 1
     \<lparr>pl_ImageID = ''image-arm64'', pl_SaveFormat = ''oci-archive'', pl_Destination = Some 0\<rparr> sample_world))) = {}"
proof -
  have "tidy_podman set tidy_sample" "tidy_docker set tidy_sample_docker"
    by (simp_all add: tidy_podman_def tidy_docker_def tidy_sample_def tidy_sample_docker_def sample_podman_def
        sample_docker_def new_name_temp keeps_files_def)
  from pull_to_local_no_leak [OF prod.collapse [symmetric] this] show ?thesis by (simp add: sample_world_def)
qed

section \<open>The directory of a list\<close>

definition tidy_builders :: "('w \<Rightarrow> string set) \<Rightarrow> ('b, 'w) ImageBuilder \<Rightarrow> bool" where
  "tidy_builders F ops \<longleftrightarrow> (\<forall>b. keeps_files F (ib_Name ops b) \<and>
     (\<forall>ref files bo. keeps_files F (ib_Build ops b ref files bo)) \<and> (\<forall>pf. keeps_files F (ib_PullToFile ops b pf)) \<and>
     (\<forall>pl. keeps_files F (ib_PullToLocal ops b pl)) \<and> (\<forall>rm. keeps_files F (ib_RemoveImage ops b rm)))"

definition tidy_lists :: "('w \<Rightarrow> string set) \<Rightarrow> 'w list_api \<Rightarrow> bool" where
  "tidy_lists F L \<longleftrightarrow> makes_temp F (la_TempDir L) \<and> removes F (la_RemoveAll L) \<and>
     keeps_files F (la_DefaultPolicy L) \<and> (\<forall>p. keeps_files F (la_NewPolicyContext L p)) \<and>
     (\<forall>d. keeps_files F (la_MkdirAll L d)) \<and> (\<forall>d p. keeps_files F (la_TempFile L d p)) \<and>
     keeps_files F (la_manifests_Create L) \<and> (\<forall>h s. keeps_files F (la_manifests_Add L h s)) \<and>
     (\<forall>h s. keeps_files F (la_Serialize L h s)) \<and> (\<forall>f c. keeps_files F (la_WriteFile L f c)) \<and>
     (\<forall>p i r ss m. keeps_files F (la_copy_Image L p i r ss m)) \<and> keeps_files F (la_ReadCustomConfig L) \<and>
     (\<forall>pc. keeps_files F (la_NewImageEngine L pc)) \<and> (\<forall>so. keeps_files F (la_RuntimeFromStoreOptions L so)) \<and>
     (\<forall>h s. keeps_files F (la_LookupManifestList L h s)) \<and> (\<forall>h s. keeps_files F (la_CreateManifestList L h s)) \<and>
     (\<forall>h. keeps_files F (la_Inspect L h)) \<and> (\<forall>h s. keeps_files F (la_RemoveInstance L h s)) \<and>
     (\<forall>h s. keeps_files F (la_list_Add L h s)) \<and> (\<forall>s w. F (la_close L s w) = F w) \<and>
     (\<forall>e w. F (la_Shutdown L e w) = F w) \<and> (\<forall>h w. F (la_runtime_Shutdown L h w) = F w)"

lemma same_osc: "keeps_files F m \<Longrightarrow> moves_on (same F) (osc m)"
  unfolding moves_on_def keeps_files_def osc_def prod.case_eq_if by simp

lemma same_op: "keeps_files F m \<Longrightarrow> moves_on (same F) (m :: ('w, 'a) io)"
  by (simp add: moves_on_def keeps_files_def)

lemma same_temp_dir:
  assumes "makes_temp F tmp" and "removes F rm" and "\<And>d. moves_on (same F) (m d)"
  shows "moves_on (same F) (try_bind (osc tmp) (\<lambda>d. defer_io (rm d) (m d)))"
proof (rule moves_onI)
  fix w r w'
  assume run: "try_bind (osc tmp) (\<lambda>d. defer_io (rm d) (m d)) w = (r, w')"
  obtain v w1 where tmp: "tmp w = (v, w1)" by fastforce
  show "F w' = F w"
  proof (cases v)
    case (Inl e)
    then have "w' = w1" using run tmp by (auto simp: try_bind_def io_bind_def osc_def)
    with Inl tmp assms(1) show ?thesis unfolding makes_temp_def by metis
  next
    case (Inr d)
    obtain q w2 where m: "m d w1 = (q, w2)" by fastforce
    have "F w2 = insert d (F w)" "d \<notin> F w"
      using moves_onD [OF assms(3) m] assms(1) tmp Inr unfolding makes_temp_def by metis+
    moreover have "w' = rm d w2"
      using run tmp Inr m by (auto simp: try_bind_def io_bind_def osc_def defer_io_def)
    ultimately show ?thesis using assms(2) by (simp add: removes_def)
  qed
qed

lemma tidy_build_order:
  fixes F :: "'w \<Rightarrow> string set"
  assumes "tidy_builders F ops" and "tidy_lists F L"
  shows "build_order (same F) ops L"
proof -
  note tidy = assms(1) [unfolded tidy_builders_def] assms(2) [unfolded tidy_lists_def]
  show ?thesis
  proof (unfold_locales, goal_cases)
    case (26 m)
    then show ?case using tidy by (intro same_temp_dir) simp_all
  qed (use tidy in \<open>simp_all add: same_op same_osc\<close>)
qed

text \<open>
  C26. A build of the farm leaves no temporary directory behind, on any path, for any interleaving,
  and whatever the outcome: the directories are the same as before.
\<close>

theorem build_no_temp_dir:
  assumes "Farm_Build ops L norm f ch reference s files options w = (r, w')"
    and "tidy_builders F ops" and "tidy_lists F L"
  shows "F w' = F w"
  using moves_onD [OF build_order.moves_Farm_Build [OF tidy_build_order [OF assms(2,3)]] assms(1)] .

text \<open>Builders that touch no directory, and the outside of the lists over the names that exist.\<close>

definition plain_builders :: "(nat, string list) ImageBuilder" where
  "plain_builders = \<lparr>ib_Driver = (\<lambda>b. ret ''podman-remote''), ib_Name = (\<lambda>b. ret ''arm''), ib_Status = (\<lambda>b. ret (Inr ())),
     ib_Info = (\<lambda>b. ret (Inl (ExtE ''no connection''))), ib_NativePlatforms = (\<lambda>b. ret (Inr [''linux/arm64''])),
     ib_EmulatedPlatforms = (\<lambda>b. ret (Inr [])),
     ib_Build = (\<lambda>b ref files bo. ret (Inr \<lparr>ImageID = ''image-arm64'', SaveFormat = ''oci-archive''\<rparr>)),
     ib_PullToFile = (\<lambda>b pf. ret (Inl (ExtE ''connection lost''))), ib_PullToLocal = (\<lambda>b pl. ret (Inr ''ref'')),
     ib_RemoveImage = (\<lambda>b rm. ret (Inr ())), ib_PruneImages = (\<lambda>b pr. ret (Inl (ExtE ''no connection''))),
     ib_Done = (\<lambda>b. ret (Inr ()))\<rparr>"

definition dir_lists :: "string list list_api" where
  "dir_lists = sample_lists\<lparr>la_TempDir := new_name, la_RemoveAll := drop_name\<rparr>"

definition dir_farm :: "nat Farm" where
  "dir_farm = \<lparr>farm_name = [], farm_flagSet = NewFlagSet ''buildfarm'', farm_storeOptions = None, farm_builders = [(''arm'', 0)]\<rparr>"

definition dir_choices :: "nat choices" where
  "dir_choices = \<lparr>ch_builds = [Spawn, Call (''linux/arm64'', ''arm''), Commit (''linux/arm64'', ''arm''), Join (''linux/arm64'', ''arm'')],
     ch_results = (\<lambda>m. m),
     ch_pull_files = (let g = ((\<lparr>ImageID = ''image-arm64'', SaveFormat = ''oci-archive''\<rparr>, 0), ''t/archive-1.tar'')
       in [Spawn, Call g, Commit g, Join g]),
     ch_pull_local = [], ch_rm = [], ch_file_refs = (\<lambda>m. m), ch_local_refs = (\<lambda>m. m)\<rparr>"

text \<open>The build reaches the list, whose pull fails; the directory that was made is gone.\<close>

theorem build_no_temp_dir_witness:
  "\<exists>e w'. Farm_Build plain_builders dir_lists (\<lambda>a b c. (a, b, c)) dir_farm dir_choices ''dir:/out''
     \<lparr>platformBuilders = [(''linux/arm64'', ''arm'')]\<rparr> [''Containerfile''] zero_BuildOptions [] = (Ret (Inl e), w') \<and> set w' = {}"
proof -
  have "(case (Farm_Build plain_builders dir_lists (\<lambda>a b c. (a, b, c)) dir_farm dir_choices ''dir:/out''
     \<lparr>platformBuilders = [(''linux/arm64'', ''arm'')]\<rparr> [''Containerfile''] zero_BuildOptions []) of (Ret (Inl e), w') \<Rightarrow> True | _ \<Rightarrow> False)"
    by code_simp
  then obtain e w' where run: "Farm_Build plain_builders dir_lists (\<lambda>a b c. (a, b, c)) dir_farm dir_choices ''dir:/out''
     \<lparr>platformBuilders = [(''linux/arm64'', ''arm'')]\<rparr> [''Containerfile''] zero_BuildOptions [] = (Ret (Inl e), w')"
    by (auto split: prod.splits outcome.splits sum.splits)
  have "tidy_builders set plain_builders" "tidy_lists set dir_lists"
    by (simp_all add: tidy_builders_def tidy_lists_def plain_builders_def dir_lists_def sample_lists_def pure_sys_def
        keeps_files_def new_name_temp ret_def)
  from build_no_temp_dir [OF run this] run show ?thesis by auto
qed

end
