(* ===== verification/Command_Line.thy ===== *)
theory Command_Line
  imports Farm_Build
begin

text \<open>
  The command line of \<open>cmd/buildfarm\<close>: the package's variables as a record, the commands \<open>build\<close>,
  \<open>status\<close>, \<open>platforms\<close> and \<open>prune\<close>, the hooks that run before and after each, and the exit code
  of \<open>main\<close>. Parsing the flags and finding the command is cobra's; the variables the flags are
  bound to are part of the initial state. Of cobra's \<open>execute\<close> the order of the hooks is modelled.

  What is printed is a list of texts and errors, since the text of an error is not modelled. The
  functions of containers/storage, buildah and the reference parser are the record \<open>cli_api\<close>.
\<close>

section \<open>State\<close>

type_synonym store = nat

record globalSettings =
  gs_debug :: bool
  gs_local :: bool
  gs_farmName :: string
  gs_adHocFarmNodes :: "string list"

record buildOptions =
  co_output :: string
  co_dockerfiles :: "string list"
  co_buildOptions :: BuildOptions
  co_platforms :: "string list"
  co_BuildArg :: "string list"
  co_CacheFrom :: "string list"
  co_CacheTo :: "string list"
  co_Isolation :: string
  co_Network :: string

datatype out_item = OStr string | OErr error

record 'x cli =
  cl_settings :: globalSettings
  cl_buildOpts :: buildOptions
  cl_pruneOptions :: PruneImageOptions
  cl_storageOptions :: "StoreOptions option"
  cl_store :: "store option"
  cl_farm :: "builder Farm option"
  cl_out :: "out_item list"
  cl_err :: "out_item list"
  cl_world :: "'x farm_world"

record 'x cli_api =
  ca_Getwd :: "('x, string) sysc"
  ca_ParseNamed :: "string \<Rightarrow> error + named_ref"
  ca_DiscoverContainerfile :: "string \<Rightarrow> ('x, string) sysc"
  ca_DefaultStoreOptions :: "('x, StoreOptions) sysc"
  ca_GetStore :: "StoreOptions \<Rightarrow> ('x, store) sysc"
  ca_store_Shutdown :: "store \<Rightarrow> ('x, unit) sysc"
  ca_exit_status :: "string \<Rightarrow> int option"

text \<open>The interleavings and map orders of one run.\<close>

record run_choices =
  rc_new :: "node event list"
  rc_native :: "(string \<times> builder) event list"
  rc_emulated :: "(string \<times> builder) event list"
  rc_status :: "(string \<times> builder) event list"
  rc_schedule :: "(string \<times> builder) event list"
  rc_build :: "builder choices"
  rc_reports :: "(string \<times> PruneImageReport) list \<Rightarrow> (string \<times> PruneImageReport) list"

definition globals :: "('x cli, 'x cli) io" where
  "globals = (\<lambda>c. (Ret c, c))"

definition assign :: "('x cli \<Rightarrow> 'x cli) \<Rightarrow> ('x cli, unit) ioe" where
  "assign f = (\<lambda>c. (Ret (Inr ()), f c))"

definition on_farm :: "('x farm_world, 'a) io \<Rightarrow> ('x cli, 'a) io" where
  "on_farm m = (\<lambda>c. case m (cl_world c) of (r, w) \<Rightarrow> (r, c\<lparr>cl_world := w\<rparr>))"

definition print_out :: "out_item list \<Rightarrow> ('x cli, unit) ioe" where
  "print_out items = assign (\<lambda>c. c\<lparr>cl_out := cl_out c @ items\<rparr>)"

text \<open>The options with the defaults of the flags that \<open>init\<close> registers.\<close>

definition default_buildOpts :: buildOptions where
  "default_buildOpts = \<lparr>co_output = [], co_dockerfiles = [],
     co_buildOptions = zero_BuildOptions\<lparr>bo_RemoveIntermediateContainers := True,
       bo_ForceRemoveIntermediateContainers := True, bo_RemoveIntermediateImages := True\<rparr>,
     co_platforms = [], co_BuildArg = [], co_CacheFrom = [], co_CacheTo = [], co_Isolation = [], co_Network = []\<rparr>"

text \<open>The outside of the list builders as part of the world of the farm.\<close>

definition in_ext :: "('x \<Rightarrow> 'a \<times> 'x) \<Rightarrow> 'x farm_world \<Rightarrow> 'a \<times> 'x farm_world" where
  "in_ext m w = (case m (ext w) of (a, x) \<Rightarrow> (a, w\<lparr>ext := x\<rparr>))"

definition on_ext :: "('x \<Rightarrow> 'x) \<Rightarrow> 'x farm_world \<Rightarrow> 'x farm_world" where
  "on_ext f w = w\<lparr>ext := f (ext w)\<rparr>"

definition list_calls :: "'x list_api \<Rightarrow> 'x farm_world list_api" where
  "list_calls L = \<lparr>
     la_DefaultPolicy = in_ext (la_DefaultPolicy L), la_NewPolicyContext = (\<lambda>p. in_ext (la_NewPolicyContext L p)),
     la_TempDir = in_ext (la_TempDir L), la_RemoveAll = (\<lambda>d. on_ext (la_RemoveAll L d)),
     la_ParseImageName = la_ParseImageName L, la_MkdirAll = (\<lambda>d. in_ext (la_MkdirAll L d)),
     la_TempFile = (\<lambda>d p. in_ext (la_TempFile L d p)), la_close = (\<lambda>f. on_ext (la_close L f)),
     la_manifests_Create = in_ext (la_manifests_Create L), la_manifests_Add = (\<lambda>l r. in_ext (la_manifests_Add L l r)),
     la_Serialize = (\<lambda>l f. in_ext (la_Serialize L l f)), la_WriteFile = (\<lambda>f c. in_ext (la_WriteFile L f c)),
     la_copy_Image = (\<lambda>p i r s m. in_ext (la_copy_Image L p i r s m)),
     la_ReadCustomConfig = in_ext (la_ReadCustomConfig L), la_NewImageEngine = (\<lambda>c. in_ext (la_NewImageEngine L c)),
     la_Shutdown = (\<lambda>e. on_ext (la_Shutdown L e)),
     la_RuntimeFromStoreOptions = (\<lambda>s. in_ext (la_RuntimeFromStoreOptions L s)),
     la_runtime_Shutdown = (\<lambda>r. on_ext (la_runtime_Shutdown L r)),
     la_LookupManifestList = (\<lambda>r n. in_ext (la_LookupManifestList L r n)),
     la_CreateManifestList = (\<lambda>r n. in_ext (la_CreateManifestList L r n)), la_Inspect = (\<lambda>l. in_ext (la_Inspect L l)),
     la_RemoveInstance = (\<lambda>l d. in_ext (la_RemoveInstance L l d)), la_list_Add = (\<lambda>l r. in_ext (la_list_Add L l r))\<rparr>"

section \<open>Paths\<close>

text \<open>\<open>filepath.IsAbs\<close>, \<open>filepath.Clean\<close>, \<open>filepath.Join\<close> of two names and \<open>filepath.Abs\<close>, on Unix.\<close>

definition IsAbs :: "string \<Rightarrow> bool" where
  "IsAbs p \<longleftrightarrow> has_prefix p ''/''"

fun clean_parts :: "bool \<Rightarrow> string list \<Rightarrow> string list \<Rightarrow> string list" where
  "clean_parts rooted [] acc = rev acc"
| "clean_parts rooted (p # ps) acc =
     (if p = [] \<or> p = ''.'' then clean_parts rooted ps acc
      else if p = ''..'' then (case acc of
          q # qs \<Rightarrow> if q = ''..'' then clean_parts rooted ps (p # acc) else clean_parts rooted ps qs
        | [] \<Rightarrow> clean_parts rooted ps (if rooted then [] else [p]))
      else clean_parts rooted ps (p # acc))"

definition path_Clean :: "string \<Rightarrow> string" where
  "path_Clean p = (let q = str_join (CHR ''/'') (clean_parts (IsAbs p) (str_split (CHR ''/'') p) []) in
     if IsAbs p then CHR ''/'' # q else if q = [] then ''.'' else q)"

definition path_Join :: "string \<Rightarrow> string \<Rightarrow> string" where
  "path_Join a b = (if a \<noteq> [] then path_Clean (a @ ''/'' @ b) else if b \<noteq> [] then path_Clean b else [])"

definition path_Abs :: "'x cli_api \<Rightarrow> string \<Rightarrow> ('x cli, string) ioe" where
  "path_Abs C p = (if IsAbs p then ret (Inr (path_Clean p))
     else try_bind (on_farm (ext_io (ca_Getwd C))) (\<lambda>wd. ret (Inr (path_Join wd p))))"

section \<open>store_supported.go, store_unsupported.go\<close>

definition init_store :: "'x cli_api \<Rightarrow> ('x cli, unit) ioe" where
  "init_store C = io_bind (on_farm (ext_io (ca_DefaultStoreOptions C))) (\<lambda>r. case r of
      Inr so \<Rightarrow> assign (\<lambda>c. c\<lparr>cl_storageOptions := Some so\<rparr>)
    | Inl e \<Rightarrow> ret (Inr ()))"

definition storeBefore :: "'x cli_api \<Rightarrow> ('x cli, unit) ioe" where
  "storeBefore C = io_bind globals (\<lambda>g.
     if \<not> gs_local (cl_settings g) then assign (\<lambda>c. c\<lparr>cl_storageOptions := None\<rparr>)
     else io_bind (on_farm (ext_io (ca_DefaultStoreOptions C))) (\<lambda>r. case r of
         Inl e \<Rightarrow> assign (\<lambda>c. c\<lparr>cl_err := cl_err c @ [OStr ''selecting storage options: '', OErr e]\<rparr>)
       | Inr so \<Rightarrow>
           try_bind (assign (\<lambda>c. c\<lparr>cl_storageOptions := Some so\<rparr>)) (\<lambda>_.
           try_bind (on_farm (ext_io (ca_GetStore C so))) (\<lambda>st.
           assign (\<lambda>c. c\<lparr>cl_store := Some st\<rparr>)))))"

definition storeAfter :: "'x cli_api \<Rightarrow> ('x cli, unit) ioe" where
  "storeAfter C = io_bind globals (\<lambda>g. case cl_store g of
      Some st \<Rightarrow> on_farm (ext_io (ca_store_Shutdown C st))
    | None \<Rightarrow> ret (Inr ()))"

definition storeBefore_other :: "('x cli, unit) ioe" where
  "storeBefore_other = ret (Inr ())"

definition storeAfter_other :: "('x cli, unit) ioe" where
  "storeAfter_other = ret (Inr ())"

section \<open>main.go\<close>

text \<open>The hooks, over the store functions of the system the program is built for.\<close>

definition before :: "'x podman_api \<Rightarrow> 'x cli_api \<Rightarrow> ('x cli, unit) ioe" where
  "before A C = try_bind (if pa_linux A then storeBefore C else storeBefore_other) (\<lambda>_. ret (Inr ()))"

definition after :: "'x podman_api \<Rightarrow> 'x docker_api \<Rightarrow> 'x cli_api \<Rightarrow> ('x cli, unit) ioe" where
  "after A D C = io_bind globals (\<lambda>g.
     try_bind (case cl_farm g of
         None \<Rightarrow> ret (Inr ())
       | Some f \<Rightarrow> io_bind (on_farm (Farm_Done (builders A D) f)) (\<lambda>err. case err of
             Some e \<Rightarrow> ret (Inl e) | None \<Rightarrow> ret (Inr ()))) (\<lambda>_.
     try_bind (if pa_linux A then storeAfter C else storeAfter_other) (\<lambda>_. ret (Inr ()))))"

definition getFarm :: "'x podman_api \<Rightarrow> run_choices \<Rightarrow> ('x cli, builder Farm) ioe" where
  "getFarm A ch = io_bind globals (\<lambda>g.
     wrap_err (WrapE ''initializing: %w'' [])
       (if length (gs_adHocFarmNodes (cl_settings g)) > 0
        then on_farm (NewAdHocFarm A (gs_adHocFarmNodes (cl_settings g)) (cl_storageOptions g) None (rc_new ch))
        else on_farm (NewFarm A (gs_farmName (cl_settings g)) (cl_storageOptions g) None (rc_new ch))))"

text \<open>\<open>farm, err := getFarm(ctx)\<close> with \<open>globalFarm = farm\<close> in every command.\<close>

definition use_farm :: "'x podman_api \<Rightarrow> run_choices \<Rightarrow> ('x cli, builder Farm) ioe" where
  "use_farm A ch = try_bind (wrap_err (WrapE ''initializing: %w'' []) (getFarm A ch)) (\<lambda>f.
     try_bind (assign (\<lambda>c. c\<lparr>cl_farm := Some f\<rparr>)) (\<lambda>_. ret (Inr f)))"

text \<open>\<open>if len(args) > 0 { globalSettings.farmName = args[0] }\<close>\<close>

definition name_farm :: "string list \<Rightarrow> ('x cli, unit) ioe" where
  "name_farm args = (case args of
      [] \<Rightarrow> ret (Inr ())
    | nm # _ \<Rightarrow> assign (\<lambda>c. c\<lparr>cl_settings := (cl_settings c)\<lparr>gs_farmName := nm\<rparr>\<rparr>))"

section \<open>status.go\<close>

definition status_line :: "string \<times> error option \<Rightarrow> out_item list" where
  "status_line ns = (case ns of (nodeName, err) \<Rightarrow>
     let shown = (if nodeName = [] then ''local node'' else nodeName)
     in case err of
          Some e \<Rightarrow> [OStr (shown @ '': ''), OErr e, OStr [CHR 0x0A]]
        | None \<Rightarrow> [OStr (shown @ '': ready'' @ [CHR 0x0A])])"

text \<open>The lines of the report; reading the map at one of its keys gives its value.\<close>

definition status_lines :: "(string \<times> error option) list \<Rightarrow> out_item list" where
  "status_lines status = concat (map (\<lambda>nodeName. status_line (nodeName, the (map_of status nodeName)))
     (sort (mkeys status)))"

definition statusCmd :: "'x podman_api \<Rightarrow> 'x docker_api \<Rightarrow> run_choices \<Rightarrow> string list \<Rightarrow> ('x cli, unit) ioe" where
  "statusCmd A D ch args =
     try_bind (name_farm args) (\<lambda>_.
     try_bind (use_farm A ch) (\<lambda>f.
     io_bind (on_farm (Farm_Status (builders A D) f (rc_status ch))) (\<lambda>(status, err). case err of
        Some e \<Rightarrow> ret (Inl (WrapE ''status: %w'' [] e))
      | None \<Rightarrow> print_out (status_lines status))))"

section \<open>platforms.go\<close>

text \<open>One of the two lists: its title and the sorted names, separated by commas.\<close>

definition platform_items :: "string \<Rightarrow> string list \<Rightarrow> out_item list" where
  "platform_items title platforms = OStr title #
     (if length platforms = 0 then [OStr (''(none)'' @ [CHR 0x0A])]
      else concat (map (\<lambda>(i, p). (if i > 0 then [OStr '', ''] else []) @ [OStr p]) (List.enumerate 0 (sort platforms)))
        @ [OStr [CHR 0x0A]])"

definition platformsCmd :: "'x podman_api \<Rightarrow> 'x docker_api \<Rightarrow> run_choices \<Rightarrow> string list \<Rightarrow> ('x cli, unit) ioe" where
  "platformsCmd A D ch args =
     try_bind (name_farm args) (\<lambda>_.
     try_bind (use_farm A ch) (\<lambda>f.
     try_bind (wrap_err (WrapE ''getting native platforms: %w'' [])
         (on_farm (Farm_NativePlatforms (builders A D) f (rc_native ch)))) (\<lambda>native.
     try_bind (wrap_err (WrapE ''getting emulated platforms: %w'' [])
         (on_farm (Farm_EmulatedPlatforms (builders A D) f (rc_emulated ch)))) (\<lambda>emulated.
     try_bind (print_out (platform_items ''Native: '' native)) (\<lambda>_.
     print_out (platform_items ''Emulated: '' emulated))))))"

section \<open>prune.go\<close>

definition prune_line :: "string \<Rightarrow> string \<Rightarrow> out_item" where
  "prune_line nm i = OStr (nm @ '': '' @ i @ [CHR 0x0A])"

definition prune_lines :: "(string \<times> PruneImageReport) list \<Rightarrow> out_item list" where
  "prune_lines reports = concat (map (\<lambda>(nm, report).
     map (prune_line nm) (ImageNames report) @ map (prune_line nm) (ImageIDs report)) reports)"

definition pruneCmd :: "'x podman_api \<Rightarrow> 'x docker_api \<Rightarrow> run_choices \<Rightarrow> string list \<Rightarrow> ('x cli, unit) ioe" where
  "pruneCmd A D ch args =
     try_bind (name_farm args) (\<lambda>_.
     try_bind (use_farm A ch) (\<lambda>f.
     io_bind globals (\<lambda>g.
     io_bind (on_farm (Farm_PruneImages (builders A D) f (cl_pruneOptions g))) (\<lambda>(err, report). case err of
        Some e \<Rightarrow> ret (Inl (WrapE ''prune: %w'' [] e))
      | None \<Rightarrow> print_out (prune_lines (rc_reports ch report))))))"

section \<open>build.go\<close>

definition set_options :: "(BuildOptions \<Rightarrow> BuildOptions) \<Rightarrow> ('x cli, unit) ioe" where
  "set_options f = assign (\<lambda>c. c\<lparr>cl_buildOpts := (cl_buildOpts c)\<lparr>co_buildOptions := f (co_buildOptions (cl_buildOpts c))\<rparr>\<rparr>)"

text \<open>The loop over the build arguments; the first makes the map.\<close>

fun build_args :: "string list \<Rightarrow> string_map option \<Rightarrow> string_map option" where
  "build_args [] m = m"
| "build_args (arg # rest) m =
     (let m1 = (case m of None \<Rightarrow> [] | Some m0 \<Rightarrow> m0);
          kv = str_splitn (CHR ''='') 2 arg
      in build_args rest (Some (if length kv > 1 then mput (kv ! 0) (kv ! 1) m1 else AList.delete (kv ! 0) m1)))"

text \<open>The loops over the cache references: what was appended, and the error that ended the loop.\<close>

fun parse_refs :: "(string \<Rightarrow> error + named_ref) \<Rightarrow> string list \<Rightarrow> named_ref list \<Rightarrow> named_ref list \<times> error option" where
  "parse_refs parse [] acc = (acc, None)"
| "parse_refs parse (r # rs) acc = (case parse r of
      Inl e \<Rightarrow> (acc, Some (WrapE ''parsing reference %q: %w'' [AStr r] e))
    | Inr nm \<Rightarrow> parse_refs parse rs (acc @ [nm]))"

definition stop_on :: "error option \<Rightarrow> ('x cli, unit) ioe" where
  "stop_on err = (case err of Some e \<Rightarrow> ret (Inl e) | None \<Rightarrow> ret (Inr ()))"

definition build_context :: "'x cli_api \<Rightarrow> string list \<Rightarrow> ('x cli, unit) ioe" where
  "build_context C args = (case args of
      [] \<Rightarrow> panic ''index out of range''
    | dir # _ \<Rightarrow>
        try_bind (set_options (\<lambda>b. b\<lparr>bo_ContextDirectory := dir\<rparr>)) (\<lambda>_.
        if dir = [] then ret (Inl (ErrNew ''expected location of build context''))
        else if \<not> IsAbs dir
        then try_bind (path_Abs C dir) (\<lambda>contextDir. set_options (\<lambda>b. b\<lparr>bo_ContextDirectory := contextDir\<rparr>))
        else ret (Inr ())))"

definition build_flags :: "'x cli_api \<Rightarrow> ('x cli, unit) ioe" where
  "build_flags C = io_bind globals (\<lambda>g.
     let o1 = cl_buildOpts g; b1 = co_buildOptions o1;
         (from, err1) = parse_refs (ca_ParseNamed C) (co_CacheFrom o1) (bo_CacheFrom b1);
         (to, err2) = parse_refs (ca_ParseNamed C) (co_CacheTo o1) (bo_CacheTo b1)
     in try_bind (set_options (\<lambda>b. b\<lparr>bo_Args := build_args (co_BuildArg o1) (bo_Args b), bo_CacheFrom := from\<rparr>)) (\<lambda>_.
        try_bind (stop_on err1) (\<lambda>_.
        try_bind (set_options (\<lambda>b. b\<lparr>bo_CacheTo := to\<rparr>)) (\<lambda>_.
        try_bind (stop_on err2) (\<lambda>_.
        if co_Network o1 = ''none'' then set_options (\<lambda>b. b\<lparr>bo_ConfigureNetwork := Some False\<rparr>)
        else ret (Inr ()))))))"

definition find_dockerfile :: "'x cli_api \<Rightarrow> ('x cli, unit) ioe" where
  "find_dockerfile C = io_bind globals (\<lambda>g.
     if length (co_dockerfiles (cl_buildOpts g)) = 0
     then try_bind (on_farm (ext_io (ca_DiscoverContainerfile C (bo_ContextDirectory (co_buildOptions (cl_buildOpts g)))))) (\<lambda>dockerfile.
          try_bind (if \<not> IsAbs dockerfile then path_Abs C dockerfile else ret (Inr dockerfile)) (\<lambda>absDockerfile.
          assign (\<lambda>c. c\<lparr>cl_buildOpts := (cl_buildOpts c)\<lparr>co_dockerfiles := co_dockerfiles (cl_buildOpts c) @ [absDockerfile]\<rparr>\<rparr>)))
     else ret (Inr ()))"

definition buildCmd :: "'x podman_api \<Rightarrow> 'x docker_api \<Rightarrow> 'x list_api \<Rightarrow> (string \<Rightarrow> string \<Rightarrow> string \<Rightarrow> plat) \<Rightarrow>
    'x cli_api \<Rightarrow> run_choices \<Rightarrow> string list \<Rightarrow> ('x cli, unit) ioe" where
  "buildCmd A D L norm C ch args = io_bind globals (\<lambda>g.
     if co_output (cl_buildOpts g) = []
     then ret (Inl (ErrNew ''no output specified: expected -t \"dir:/directory/path\" or -t \"registry.tld/repository/name:tag\"''))
     else
       try_bind (build_context C args) (\<lambda>_.
       try_bind (build_flags C) (\<lambda>_.
       try_bind (find_dockerfile C) (\<lambda>_.
       try_bind (use_farm A ch) (\<lambda>f.
       io_bind globals (\<lambda>g.
       try_bind (wrap_err (WrapE ''scheduling builds: %w'' [])
           (on_farm (Farm_Schedule (builders A D) f (co_platforms (cl_buildOpts g)) (rc_native ch) (rc_schedule ch)))) (\<lambda>schedule.
       wrap_err (WrapE ''build: %w'' [])
           (on_farm (Farm_Build (builders A D) (list_calls L) norm f (rc_build ch) (co_output (cl_buildOpts g)) schedule
              (co_dockerfiles (cl_buildOpts g)) (co_buildOptions (cl_buildOpts g)))))))))))"

section \<open>A run of the program\<close>

datatype command = BuildCommand | StatusCommand | PlatformsCommand | PruneCommand

text \<open>The field \<open>Args\<close> of the commands: \<open>ExactArgs(1)\<close> and \<open>MaximumNArgs(1)\<close>.\<close>

definition ValidateArgs :: "command \<Rightarrow> string list \<Rightarrow> error option" where
  "ValidateArgs cmd args = (case cmd of
      BuildCommand \<Rightarrow> if length args \<noteq> 1
        then Some (Errorf ''accepts %d arg(s), received %d'' [AInt 1, AInt (int (length args))]) else None
    | _ \<Rightarrow> if length args > 1
        then Some (Errorf ''accepts at most %d arg(s), received %d'' [AInt 1, AInt (int (length args))]) else None)"

text \<open>The rest of \<open>execute\<close>: the hooks of the root command around the command's function. The hook
  after it runs only when it returned no error.\<close>

definition cobra_execute :: "error option \<Rightarrow> ('x cli, unit) ioe \<Rightarrow> ('x cli, unit) ioe \<Rightarrow> ('x cli, unit) ioe \<Rightarrow> ('x cli, unit) ioe" where
  "cobra_execute invalid preRun run postRun = (case invalid of
      Some e \<Rightarrow> ret (Inl e)
    | None \<Rightarrow> try_bind preRun (\<lambda>_. try_bind run (\<lambda>_. postRun)))"

definition run_command :: "'x podman_api \<Rightarrow> 'x docker_api \<Rightarrow> 'x list_api \<Rightarrow> (string \<Rightarrow> string \<Rightarrow> string \<Rightarrow> plat) \<Rightarrow>
    'x cli_api \<Rightarrow> run_choices \<Rightarrow> command \<Rightarrow> string list \<Rightarrow> ('x cli, unit) ioe" where
  "run_command A D L norm C ch cmd args = (case cmd of
      BuildCommand \<Rightarrow> buildCmd A D L norm C ch args
    | StatusCommand \<Rightarrow> statusCmd A D ch args
    | PlatformsCommand \<Rightarrow> platformsCmd A D ch args
    | PruneCommand \<Rightarrow> pruneCmd A D ch args)"

definition Execute :: "'x podman_api \<Rightarrow> 'x docker_api \<Rightarrow> 'x list_api \<Rightarrow> (string \<Rightarrow> string \<Rightarrow> string \<Rightarrow> plat) \<Rightarrow>
    'x cli_api \<Rightarrow> run_choices \<Rightarrow> command \<Rightarrow> string list \<Rightarrow> ('x cli, unit) ioe" where
  "Execute A D L norm C ch cmd args =
     cobra_execute (ValidateArgs cmd args) (before A C) (run_command A D L norm C ch cmd args) (after A D C)"

text \<open>
  \<open>errors.As(err, &ee)\<close> with \<open>ee.Sys().(syscall.WaitStatus)\<close>: the exit status of the first
  \<open>exec.ExitError\<close> in the chain, depth first. Only an error of the outside can be one.
\<close>

fun exit_status_of :: "(string \<Rightarrow> int option) \<Rightarrow> error \<Rightarrow> int option" where
  "exit_status_of st (ExtE s) = st s"
| "exit_status_of st (WrapE f as e) = exit_status_of st e"
| "exit_status_of st (MultiE e es) =
     (case filter (\<lambda>c. c \<noteq> None) (map (exit_status_of st) (e # es)) of [] \<Rightarrow> None | c # _ \<Rightarrow> c)"
| "exit_status_of st _ = None"

definition main :: "'x podman_api \<Rightarrow> 'x docker_api \<Rightarrow> 'x list_api \<Rightarrow> (string \<Rightarrow> string \<Rightarrow> string \<Rightarrow> plat) \<Rightarrow>
    'x cli_api \<Rightarrow> run_choices \<Rightarrow> command \<Rightarrow> string list \<Rightarrow> ('x cli, int) io" where
  "main A D L norm C ch cmd args = io_bind (Execute A D L norm C ch cmd args) (\<lambda>r. case r of
      Inr _ \<Rightarrow> ret 0
    | Inl err \<Rightarrow>
        io_bind (assign (\<lambda>c. c\<lparr>cl_err := cl_err c @ [OStr ''Error: '', OErr err, OStr [CHR 0x0A]]\<rparr>)) (\<lambda>_.
        ret (case exit_status_of (ca_exit_status C) err of Some code \<Rightarrow> code | None \<Rightarrow> 1)))"

text \<open>The initialisers of the package run before \<open>main\<close>; one of them looks for storage.\<close>

definition program :: "'x podman_api \<Rightarrow> 'x docker_api \<Rightarrow> 'x list_api \<Rightarrow> (string \<Rightarrow> string \<Rightarrow> string \<Rightarrow> plat) \<Rightarrow>
    'x cli_api \<Rightarrow> run_choices \<Rightarrow> command \<Rightarrow> string list \<Rightarrow> ('x cli, int) io" where
  "program A D L norm C ch cmd args =
     io_bind (if pa_linux A then init_store C else ret (Inr ())) (\<lambda>_. main A D L norm C ch cmd args)"

end
