(* ===== verification/Later_Worlds.thy ===== *)
theory Later_Worlds
  imports Build_Order Command_Line Farm_Visits
begin

text \<open>
  What everything the farm and the list builders do keeps, stated for an arbitrary reflexive and
  transitive relation between the world before and after: when the outside's calls and the
  builders' methods keep it, so do the combinators, the groups of goroutines, the list builders
  and the operations of the farm. Two relations are used: the later world (builders go on
  existing, keep their names and the platforms they once answered), and connections that stay open.
\<close>

lemma list_calls_sel [simp]:
  "la_DefaultPolicy (list_calls L) = in_ext (la_DefaultPolicy L)"
  "la_NewPolicyContext (list_calls L) p = in_ext (la_NewPolicyContext L p)"
  "la_TempDir (list_calls L) = in_ext (la_TempDir L)"
  "la_RemoveAll (list_calls L) d = on_ext (la_RemoveAll L d)"
  "la_MkdirAll (list_calls L) d = in_ext (la_MkdirAll L d)"
  "la_TempFile (list_calls L) d i = in_ext (la_TempFile L d i)"
  "la_close (list_calls L) f = on_ext (la_close L f)"
  "la_manifests_Create (list_calls L) = in_ext (la_manifests_Create L)"
  "la_manifests_Add (list_calls L) l r = in_ext (la_manifests_Add L l r)"
  "la_Serialize (list_calls L) l f = in_ext (la_Serialize L l f)"
  "la_WriteFile (list_calls L) f c = in_ext (la_WriteFile L f c)"
  "la_copy_Image (list_calls L) p1 i r s m = in_ext (la_copy_Image L p1 i r s m)"
  "la_ReadCustomConfig (list_calls L) = in_ext (la_ReadCustomConfig L)"
  "la_NewImageEngine (list_calls L) pc = in_ext (la_NewImageEngine L pc)"
  "la_Shutdown (list_calls L) e = on_ext (la_Shutdown L e)"
  "la_RuntimeFromStoreOptions (list_calls L) s1 = in_ext (la_RuntimeFromStoreOptions L s1)"
  "la_runtime_Shutdown (list_calls L) rt = on_ext (la_runtime_Shutdown L rt)"
  "la_LookupManifestList (list_calls L) rt n = in_ext (la_LookupManifestList L rt n)"
  "la_CreateManifestList (list_calls L) rt n = in_ext (la_CreateManifestList L rt n)"
  "la_Inspect (list_calls L) l = in_ext (la_Inspect L l)"
  "la_RemoveInstance (list_calls L) l d = in_ext (la_RemoveInstance L l d)"
  "la_list_Add (list_calls L) l r = in_ext (la_list_Add L l r)"
  by (simp_all add: list_calls_def)

locale world_order = io_order R
  for R :: "'x farm_world \<Rightarrow> 'x farm_world \<Rightarrow> bool" +
  fixes A :: "'x podman_api" and D :: "'x docker_api"
  assumes R_ext: "R w (w\<lparr>ext := x\<rparr>)"
    and R_Name: "ib_Name (builders A D) b w = (r1, w') \<Longrightarrow> R w w'"
    and R_Status: "ib_Status (builders A D) b w = (r2, w') \<Longrightarrow> R w w'"
    and R_Info: "ib_Info (builders A D) b w = (r3, w') \<Longrightarrow> R w w'"
    and R_Native: "ib_NativePlatforms (builders A D) b w = (r4, w') \<Longrightarrow> R w w'"
    and R_Emulated: "ib_EmulatedPlatforms (builders A D) b w = (r4, w') \<Longrightarrow> R w w'"
    and R_Build: "ib_Build (builders A D) b ref files bo w = (r5, w') \<Longrightarrow> R w w'"
    and R_PullToFile: "ib_PullToFile (builders A D) b pf w = (r6, w') \<Longrightarrow> R w w'"
    and R_PullToLocal: "ib_PullToLocal (builders A D) b pl w = (r6, w') \<Longrightarrow> R w w'"
    and R_RemoveImage: "ib_RemoveImage (builders A D) b rm w = (r2, w') \<Longrightarrow> R w w'"
    and R_PruneImages: "ib_PruneImages (builders A D) b pr w = (r7, w') \<Longrightarrow> R w w'"
begin

lemma moves_in_ext [moves_intros]: "moves_on R (osc (in_ext m))"
  by (rule moves_onI) (auto simp: osc_def in_ext_def R_ext split: prod.splits)

lemma moves_ext_io [moves_intros]: "moves_on R (ext_io m)"
  by (rule moves_onI) (auto simp: ext_io_def R_ext split: prod.splits)

lemma moves_dispatch [moves_intros]:
  "moves_on R (ib_Name (builders A D) b)" "moves_on R (ib_Status (builders A D) b)" "moves_on R (ib_Info (builders A D) b)"
  "moves_on R (ib_NativePlatforms (builders A D) b)" "moves_on R (ib_EmulatedPlatforms (builders A D) b)"
  "moves_on R (ib_Build (builders A D) b ref files bo)" "moves_on R (ib_PullToFile (builders A D) b pf)"
  "moves_on R (ib_PullToLocal (builders A D) b pl)" "moves_on R (ib_RemoveImage (builders A D) b rm)"
  "moves_on R (ib_PruneImages (builders A D) b pr)"
  by (rule moves_onI, erule R_Name R_Status R_Info R_Native R_Emulated R_Build R_PullToFile R_PullToLocal
      R_RemoveImage R_PruneImages)+

lemma moves_status_group [moves_intros]: "moves_on R (fork_join (status_body (builders A D)) ks evs s)"
  by (rule moves_fork_join; simp add: status_body_def prod.case_eq_if del: builders_simps; intro moves_intros)

lemma moves_platforms_group [moves_intros]:
  "(\<And>b. moves_on R (q b)) \<Longrightarrow> moves_on R (fork_join (platforms_body q) ks evs s)"
  by (rule moves_fork_join; simp add: platforms_body_def prod.case_eq_if; intro moves_intros)

lemma moves_schedule_group [moves_intros]: "moves_on R (fork_join (schedule_body (builders A D)) ks evs s)"
  by (rule moves_fork_join; simp add: schedule_body_def prod.case_eq_if del: builders_simps; intro moves_intros)

lemma moves_queries [moves_intros]:
  "moves_on R (Farm_Status (builders A D) f evs)"
  "moves_on R (Farm_NativePlatforms (builders A D) f evs)"
  "moves_on R (Farm_EmulatedPlatforms (builders A D) f evs)"
  "moves_on R (Farm_Schedule (builders A D) f ps evs1 evs2)"
  unfolding Farm_NativePlatforms_def Farm_EmulatedPlatforms_def collect_platforms_def Farm_Status_def
    Farm_Schedule_def target_platforms_def prod.case_eq_if
  by (intro moves_intros)+

lemma moves_forEach:
  assumes "\<And>nm b s. moves_on R (fn nm b s)"
  shows "moves_on R (forEach (builders A D) f fn s0)"
proof -
  have "moves_on R (forEach_loop (builders A D) fn bs merr s)" for bs merr s
  proof (induction bs arbitrary: merr s)
    case Nil
    then show ?case by (simp only: forEach_loop.simps moves_ret)
  next
    case (Cons k bs)
    show ?case
      by (cases k, hypsubst, unfold forEach_loop.simps prod.case_eq_if)
         (intro moves_intros assms Cons.IH)
  qed
  then show ?thesis unfolding forEach_def prod.case_eq_if by (intro moves_intros)
qed

lemma moves_PruneImages [moves_intros]: "moves_on R (Farm_PruneImages (builders A D) f options)"
  unfolding Farm_PruneImages_def by (rule moves_forEach) (unfold prune_member_def, intro moves_intros)

end

text \<open>The list builders' calls are calls of the outside, so a whole build keeps the relation too.\<close>

sublocale world_order \<subseteq> build_order R "builders A D" "list_calls L" for L
proof (unfold_locales, goal_cases)
  case (26 m)
  then show ?case
    unfolding list_calls_sel by (intro moves_intros moves_defer) (simp_all add: on_ext_def R_ext)
qed (unfold list_calls_sel on_ext_def, (rule moves_intros R_ext)+)

section \<open>The relations\<close>

lemma later_ext: "later_world w (w\<lparr>ext := x\<rparr>)"
  by (simp add: later_def is_builder_def builder_name_def builder_info_def)

interpretation later: world_order later_world A D for A D
proof (unfold_locales, goal_cases)
  case 1
  then show ?case by (rule objs.later_refl)
next
  case 2
  then show ?case by (rule objs.later_trans)
next
  case 3
  then show ?case by (rule later_ext)
qed (simp, erule dispatch_later; intro stable_intros keeps_intros)+

text \<open>The connections that are open stay open, with the same engine.\<close>

definition remote_engine :: "podmanRemote \<Rightarrow> engine option" where
  "remote_engine r = open_engine (RemoteObj r)"

definition connected :: "'x farm_world \<Rightarrow> 'x farm_world \<Rightarrow> bool" where
  "connected w w' \<longleftrightarrow> (\<forall>b e. is_builder w b \<and> open_engine (heap w ! b) = Some e \<longrightarrow>
     is_builder w' b \<and> open_engine (heap w' ! b) = Some e)"

lemma dispatch_connected:
  assumes "dispatch ml mr md b w = (r, w')" and "stable remote_engine mr"
  shows "connected w w'"
proof -
  have "is_builder w' c \<and> open_engine (heap w' ! c) = Some e"
    if "is_builder w c" "open_engine (heap w ! c) = Some e" for c e
    using assms that
    by (cases "c = b")
       (auto simp: dispatch_def is_builder_def remote_engine_def open_engine_def
        split: builder_object.splits prod.splits if_splits dest: stableD)
  then show ?thesis by (simp add: connected_def)
qed

lemma remote_once_engine [stable_intros]: "stable remote_engine (remote_once A)"
  unfolding remote_once_def
  by (intro stable_io_bind stable_if stable_keeps [OF keeps_self] stable_keeps [OF keeps_ret]
        stable_keeps [OF keeps_remote_fetchInfo],
      simp add: stable_def remote_engine_def open_engine_def split: prod.splits option.splits)

lemma podmanRemote_engine_stable [stable_intros]:
  "stable remote_engine (podmanRemote_Info A)" "stable remote_engine (podmanRemote_NativePlatforms A)"
  "stable remote_engine (podmanRemote_EmulatedPlatforms A)" "stable remote_engine (podmanRemote_Status A)"
  unfolding podmanRemote_Info_def podmanRemote_NativePlatforms_def podmanRemote_EmulatedPlatforms_def
    podmanRemote_Status_def
  by (intro stable_intros keeps_intros)+

interpretation wired: world_order connected A D for A D
  by (unfold_locales; (simp, erule dispatch_connected, intro stable_intros keeps_intros)?)
     (simp_all add: connected_def is_builder_def)

end
