(* ===== verification/Sample_Cli.thy ===== *)
theory Sample_Cli
  imports Command_Line Farm_Members Build_Theorems
begin

text \<open>
  A concrete command line: a working directory, a parser of references, the options a user gives
  and the interleavings of a run on the farm of the local system and one connection.
\<close>

definition sample_cli :: "log cli_api" where
  "sample_cli = \<lparr>
     ca_Getwd = (\<lambda>x. (Inr ''/home/u'', x)),
     ca_ParseNamed = (\<lambda>s. if s = [] then Inl (ExtE ''repository name must have at least one component'') else Inr s),
     ca_DiscoverContainerfile = (\<lambda>d x. (Inr (d @ ''/Containerfile''), x)),
     ca_DefaultStoreOptions = (\<lambda>x. (Inr zero_StoreOptions, x)),
     ca_GetStore = (\<lambda>so x. (Inr 5, x)),
     ca_store_Shutdown = (\<lambda>st. logged ''store shutdown'' ()),
     ca_exit_status = (\<lambda>s. None)\<rparr>"

definition sample_start :: "log cli" where
  "sample_start = \<lparr>
     cl_settings = \<lparr>gs_debug = False, gs_local = True, gs_farmName = [], gs_adHocFarmNodes = []\<rparr>,
     cl_buildOpts = default_buildOpts\<lparr>co_output := ''dir:/out'', co_platforms := [''linux/amd64'', ''linux/arm64'']\<rparr>,
     cl_pruneOptions = \<lparr>pr_All = False\<rparr>,
     cl_storageOptions = Some zero_StoreOptions, cl_store = None, cl_farm = None, cl_out = [], cl_err = [],
     cl_world = empty_world\<rparr>"

abbreviation local_report :: "BuildReport \<times> builder" where
  "local_report \<equiv> (\<lparr>ImageID = ''image-amd64'', SaveFormat = ''oci-archive''\<rparr>, 1)"

abbreviation arm_report :: "BuildReport \<times> builder" where
  "arm_report \<equiv> (\<lparr>ImageID = ''image-arm64'', SaveFormat = ''oci-archive''\<rparr>, 0)"

definition sample_run :: run_choices where
  "sample_run = \<lparr>
     rc_new = overlap (RemoteNode ''arm'') LocalNode,
     rc_native = in_turn ([], 1) (''arm'', 0), rc_emulated = overlap ([], 1) (''arm'', 0),
     rc_status = overlap ([], 1) (''arm'', 0), rc_schedule = overlap ([], 1) (''arm'', 0),
     rc_build = sample_choices (''linux/amd64'', []) (''linux/arm64'', ''arm'') local_report arm_report,
     rc_reports = (\<lambda>m. m)\<rparr>"

lemma sample_config_ok: "config_ok sample_podman" "config_ok (sample_podman\<lparr>pa_linux := True\<rparr>)"
  by (simp_all add: config_ok_def sample_podman_def sample_config_def)

lemma sample_Getwd: "\<forall>x wd x'. ca_Getwd sample_cli x = (Inr wd, x') \<longrightarrow> IsAbs wd"
  by (simp add: sample_cli_def IsAbs_def has_prefix_def)

text \<open>The same run for a platform nobody has, and on Linux without the local system.\<close>

definition sample_start_mips :: "log cli" where
  "sample_start_mips = sample_start\<lparr>cl_buildOpts := (cl_buildOpts sample_start)\<lparr>co_platforms := [''linux/mips'']\<rparr>\<rparr>"

definition sample_start_remote :: "log cli" where
  "sample_start_remote = sample_start\<lparr>cl_settings := (cl_settings sample_start)\<lparr>gs_local := False\<rparr>,
     cl_buildOpts := (cl_buildOpts sample_start)\<lparr>co_output := ''quay.io/u/app'', co_platforms := [''linux/arm64'']\<rparr>\<rparr>"

definition alone :: "'g \<Rightarrow> 'g event list" where
  "alone a = [Spawn, Call a, Commit a, Join a]"

definition sample_run_remote :: run_choices where
  "sample_run_remote = sample_run\<lparr>rc_new := alone (RemoteNode ''arm''), rc_schedule := alone (''arm'', 0),
     rc_build := (sample_choices ([], []) ([], []) arm_report arm_report)\<lparr>ch_builds := alone (''linux/arm64'', ''arm''),
       ch_pull_files := alone (arm_report, ''/tmp/d/archive-1.tar''), ch_rm := alone arm_report\<rparr>\<rparr>"

section \<open>Runs\<close>

lemma status_succeeds: "fst (statusCmd sample_podman sample_docker sample_run [] sample_start) = Ret (Inr ())"
  by code_simp


lemma platforms_succeeds: "fst (platformsCmd sample_podman sample_docker sample_run [] sample_start) = Ret (Inr ())"
  by code_simp

lemma execute_succeeds:
  "fst (Execute sample_podman sample_docker sample_lists sample_norm sample_cli sample_run StatusCommand [] sample_start) =
     Ret (Inr ())"
  by code_simp

lemma build_succeeds:
  "fst (buildCmd sample_podman sample_docker sample_lists sample_norm sample_cli sample_run [''src''] sample_start) =
     Ret (Inr ())"
  by code_simp

lemma build_fails:
  "(case buildCmd sample_podman sample_docker sample_lists sample_norm sample_cli sample_run [''src''] sample_start_mips of
      (Ret (Inl e), c1) \<Rightarrow> map_option farm_builders (cl_farm c1) = Some [([], 1), (''arm'', 0)]
    | _ \<Rightarrow> False)"
  by code_simp

lemma remote_build_succeeds:
  "fst (Execute (sample_podman\<lparr>pa_linux := True\<rparr>) sample_docker sample_lists sample_norm sample_cli sample_run_remote
     BuildCommand [''src''] sample_start_remote) = Ret (Inr ())"
  by code_simp

lemma execute_build_succeeds:
  "fst (Execute sample_podman sample_docker sample_lists sample_norm sample_cli sample_run BuildCommand [''src''] sample_start) =
     Ret (Inr ())"
  by code_simp

end
