(* ===== verification/Command_Theorems.thy ===== *)
theory Command_Theorems
  imports Later_Worlds List_Theorems Sample_Cli
begin

text \<open>
  The properties of the command line: what the commands print, what they check before anything
  is contacted, what a successful build has done, and what is cleaned up after a command.
\<close>

section \<open>Inversion\<close>

lemma globals_Ret [io_split]: "globals c = (Ret g, c') \<longleftrightarrow> g = c \<and> c' = c"
  by (auto simp: globals_def)

lemma globals_bind [simp]: "io_bind globals f c = f c c"
  by (simp add: globals_def io_bind_def)

lemma assign_Ret [io_split]: "assign f c = (Ret r, c') \<longleftrightarrow> r = Inr () \<and> c' = f c"
  by (auto simp: assign_def)

lemma assign_simp [simp]: "assign f c = (Ret (Inr ()), f c)"
  by (simp add: assign_def)

lemma on_farm_Ret [io_split]: "on_farm m c = (r, c') \<longleftrightarrow> (\<exists>w. m (cl_world c) = (r, w) \<and> c' = c\<lparr>cl_world := w\<rparr>)"
  by (auto simp: on_farm_def split: prod.splits)

lemma getFarm_Inr:
  assumes "getFarm A ch c = (Ret (Inr f), c')"
  obtains sel w' where
    "newFarmWithBuilders A sel (cl_storageOptions c) None (rc_new ch) (cl_world c) = (Ret (Inr f), w')"
    "c' = c\<lparr>cl_world := w'\<rparr>"
proof -
  have "\<exists>sel w'. newFarmWithBuilders A sel (cl_storageOptions c) None (rc_new ch) (cl_world c) = (Ret (Inr f), w') \<and>
      c' = c\<lparr>cl_world := w'\<rparr>"
  proof (cases "gs_adHocFarmNodes (cl_settings c) = []")
    case False
    with assms have "on_farm (NewAdHocFarm A (gs_adHocFarmNodes (cl_settings c)) (cl_storageOptions c) None (rc_new ch)) c =
        (Ret (Inr f), c')"
      by (simp add: getFarm_def wrap_err_Inr)
    then show ?thesis unfolding NewAdHocFarm_def on_farm_Ret by blast
  next
    case True
    with assms have run: "on_farm (NewFarm A (gs_farmName (cl_settings c)) (cl_storageOptions c) None (rc_new ch)) c =
        (Ret (Inr f), c')"
      by (simp add: getFarm_def wrap_err_Inr)
    then have "gs_farmName (cl_settings c) = []"
      by (auto simp: NewFarm_def on_farm_Ret split: if_splits)
    with run show ?thesis unfolding NewFarm_def NewDefaultFarm_def on_farm_Ret by auto
  qed
  with that show thesis by blast
qed

lemma use_farm_Inr:
  assumes "use_farm A ch c = (Ret (Inr f), c')" and "config_ok A"
  shows "fresh_farm f (cl_world c') \<and> farm_storeOptions f = cl_storageOptions c \<and>
    c' = c\<lparr>cl_world := cl_world c', cl_farm := Some f\<rparr> \<and>
    (cl_storageOptions c = None \<longrightarrow> (\<forall>k\<in>set (farm_builders f). \<exists>r. heap (cl_world c') ! snd k = RemoteObj r))"
proof -
  obtain c1 where g: "getFarm A ch c = (Ret (Inr f), c1)" and c': "c' = c1\<lparr>cl_farm := Some f\<rparr>"
    using assms(1) by (auto simp: use_farm_def try_bind_Inr wrap_err_Inr assign_Ret)
  obtain sel w' where run: "newFarmWithBuilders A sel (cl_storageOptions c) None (rc_new ch) (cl_world c) = (Ret (Inr f), w')"
    and c1: "c1 = c\<lparr>cl_world := w'\<rparr>" using getFarm_Inr [OF g] .
  note fresh = newFarm_fresh [OF run assms(2)]
  have "\<exists>r. heap w' ! snd k = RemoteObj r" if none: "cl_storageOptions c = None" and k: "k \<in> set (farm_builders f)" for k
  proof -
    obtain n custom where "n \<in> set (farm_nodes sel (cl_storageOptions c) custom)" "built_for n (heap w' ! snd k)"
      using fresh k by blast
    then show ?thesis using none
      by (auto simp: farm_nodes_def built_for_def split: builder_object.splits)
  qed
  with fresh c' c1 show ?thesis by simp
qed

lemma name_farm_Ret: "name_farm args c = (Ret r, c') \<longleftrightarrow> r = Inr () \<and>
    c' = (case args of [] \<Rightarrow> c | nm # _ \<Rightarrow> c\<lparr>cl_settings := (cl_settings c)\<lparr>gs_farmName := nm\<rparr>\<rparr>)"
  by (auto simp: name_farm_def assign_Ret split: list.splits)

text \<open>The three commands that only query have the same beginning.\<close>

lemma named_farm_Inr:
  assumes "try_bind (name_farm args) (\<lambda>_. try_bind (use_farm A ch) rest) c = (Ret (Inr u), c')" and "config_ok A"
  obtains f c1 where "fresh_farm f (cl_world c1)" "cl_farm c1 = Some f" "cl_out c1 = cl_out c"
    "cl_pruneOptions c1 = cl_pruneOptions c" "cl_store c1 = cl_store c" "rest f c1 = (Ret (Inr u), c')"
proof -
  obtain c0 f c1 where c0: "name_farm args c = (Ret (Inr ()), c0)" and use: "use_farm A ch c0 = (Ret (Inr f), c1)"
    and rest: "rest f c1 = (Ret (Inr u), c')"
    using assms(1) by (auto simp: try_bind_Inr)
  have "cl_out c0 = cl_out c" "cl_pruneOptions c0 = cl_pruneOptions c" "cl_store c0 = cl_store c"
    using c0 by (auto simp: name_farm_Ret split: list.splits)
  with use_farm_Inr [OF use assms(2)] rest show thesis
    by (intro that [of f c1]) (auto, (metis cli.select_convs cli.update_convs cli.surjective)+)
qed

section \<open>What the queries print\<close>

text \<open>
  C20. \<open>status\<close> prints only when every member is well: a run that succeeds prints one line per member,
  sorted by name, that says it is ready, and nothing else. The branch that prints an error with
  a name is never taken.
\<close>

theorem status_prints_ready:
  assumes "statusCmd A D ch args c = (Ret (Inr u), c')" and "config_ok A"
  shows "\<exists>f names. cl_farm c' = Some f \<and> sorted names \<and> distinct names \<and>
    set names = (\<lambda>k. builder_name (cl_world c') (snd k)) ` set (farm_builders f) \<and>
    cl_out c' = cl_out c @ map (\<lambda>nm. OStr ((if nm = [] then ''local node'' else nm) @ '': ready'' @ [CHR 0x0A])) names"
proof -
  obtain f c1 where f: "fresh_farm f (cl_world c1)" "cl_farm c1 = Some f" "cl_out c1 = cl_out c"
    and rest: "io_bind (on_farm (Farm_Status (builders A D) f (rc_status ch))) (\<lambda>(status, err). case err of
        Some e \<Rightarrow> ret (Inl (WrapE ''status: %w'' [] e))
      | None \<Rightarrow> print_out (status_lines status)) c1 = (Ret (Inr u), c')"
    using named_farm_Inr [OF assms(1) [unfolded statusCmd_def] assms(2)] .
  obtain status err w where run: "Farm_Status (builders A D) f (rc_status ch) (cl_world c1) = (Ret (status, err), w)"
    and cont: "(case err of Some e \<Rightarrow> ret (Inl (WrapE ''status: %w'' [] e))
      | None \<Rightarrow> print_out (status_lines status)) (c1\<lparr>cl_world := w\<rparr>) = (Ret (Inr u), c')"
    using rest by (auto simp: io_bind_RetE on_farm_Ret)
  have err: "err = None" using cont by (cases err) auto
  have c': "c' = c1\<lparr>cl_world := w, cl_out := cl_out c1 @ status_lines status\<rparr>"
    using cont err by (simp add: print_out_def)
  have "members_ok is_builder f (cl_world c1)" using f(1) by (simp add: fresh_farm_def)
  note report = Farm_Status_report [OF run this]
  have ready: "status_line (nm, the (map_of status nm)) = [OStr ((if nm = [] then ''local node'' else nm) @ '': ready'' @ [CHR 0x0A])]"
    if mem: "nm \<in> set (sort (mkeys status))" for nm
  proof -
    obtain s where "(nm, s) \<in> set status" using mem by auto
    then have "map_of status nm = Some None" using report err by auto
    then show ?thesis by (simp add: status_line_def)
  qed
  then have "status_lines status = concat (map (\<lambda>nm. [OStr ((if nm = [] then ''local node'' else nm) @ '': ready'' @ [CHR 0x0A])]) (sort (mkeys status)))"
    unfolding status_lines_def by (intro arg_cong [where f = concat] map_cong) simp_all
  moreover have "concat (map (\<lambda>x. [g x]) xs) = map g xs" for g :: "string \<Rightarrow> out_item" and xs
    by (induction xs) simp_all
  ultimately have "status_lines status = map (\<lambda>nm. OStr ((if nm = [] then ''local node'' else nm) @ '': ready'' @ [CHR 0x0A])) (sort (mkeys status))"
    by simp
  moreover have "set (sort (mkeys status)) = (\<lambda>k. builder_name w (snd k)) ` set (farm_builders f)"
    and "sorted (sort (mkeys status))" "distinct (sort (mkeys status))"
    using report by simp_all
  ultimately show ?thesis using f c' by (intro exI [of _ f] exI [of _ "sort (mkeys status)"]) simp
qed

theorem status_prints_ready_witness:
  "\<exists>c' names. statusCmd sample_podman sample_docker sample_run [] sample_start = (Ret (Inr ()), c') \<and> sorted names \<and>
     cl_out c' = map (\<lambda>nm. OStr ((if nm = [] then ''local node'' else nm) @ '': ready'' @ [CHR 0x0A])) names"
proof -
  obtain c' where run: "statusCmd sample_podman sample_docker sample_run [] sample_start = (Ret (Inr ()), c')"
    using status_succeeds by (metis prod.collapse)
  moreover have "cl_out sample_start = []" by (simp add: sample_start_def)
  ultimately show ?thesis using status_prints_ready [OF run sample_config_ok(1)] by auto
qed

text \<open>
  C22. \<open>platforms\<close> prints the sorted native and emulated platforms of all members, after each title,
  or \<open>(none)\<close>.
\<close>

theorem platforms_printed:
  assumes "platformsCmd A D ch args c = (Ret (Inr u), c')" and "config_ok A"
  shows "\<exists>f native emulated. cl_farm c' = Some f \<and> all_answered builder_info f (cl_world c') \<and>
    cl_out c' = cl_out c @ platform_items ''Native: '' native @ platform_items ''Emulated: '' emulated \<and>
    sorted native \<and> distinct native \<and> set native = offered NativePlatforms builder_info f (cl_world c') \<and>
    sorted emulated \<and> distinct emulated \<and> set emulated = offered EmulatedPlatforms builder_info f (cl_world c')"
proof -
  obtain f c1 where f: "fresh_farm f (cl_world c1)" "cl_farm c1 = Some f" "cl_out c1 = cl_out c"
    and rest: "try_bind (wrap_err (WrapE ''getting native platforms: %w'' [])
         (on_farm (Farm_NativePlatforms (builders A D) f (rc_native ch)))) (\<lambda>native.
     try_bind (wrap_err (WrapE ''getting emulated platforms: %w'' [])
         (on_farm (Farm_EmulatedPlatforms (builders A D) f (rc_emulated ch)))) (\<lambda>emulated.
     try_bind (print_out (platform_items ''Native: '' native)) (\<lambda>_.
     print_out (platform_items ''Emulated: '' emulated)))) c1 = (Ret (Inr u), c')"
    using named_farm_Inr [OF assms(1) [unfolded platformsCmd_def] assms(2)] .
  obtain native w where n: "Farm_NativePlatforms (builders A D) f (rc_native ch) (cl_world c1) = (Ret (Inr native), w)"
    and "\<exists>emulated w'. Farm_EmulatedPlatforms (builders A D) f (rc_emulated ch) w = (Ret (Inr emulated), w') \<and>
      c' = c1\<lparr>cl_world := w', cl_out := cl_out c1 @ platform_items ''Native: '' native @ platform_items ''Emulated: '' emulated\<rparr>"
    using rest by (auto simp: try_bind_Inr wrap_err_Inr on_farm_Ret print_out_def assign_Ret)
  then obtain emulated w' where e: "Farm_EmulatedPlatforms (builders A D) f (rc_emulated ch) w = (Ret (Inr emulated), w')"
    and c': "c' = c1\<lparr>cl_world := w', cl_out := cl_out c1 @ platform_items ''Native: '' native @ platform_items ''Emulated: '' emulated\<rparr>"
    by blast
  have ok: "members_ok is_builder f (cl_world c1)" using f(1) by (simp add: fresh_farm_def)
  note nat = objs.NativePlatforms_Ret [OF n ok, unfolded sum.case]
  then have okw: "members_ok is_builder f w" by (elim conjE)
  note emu = objs.EmulatedPlatforms_Ret [OF e okw, unfolded sum.case]
  have "offered NativePlatforms builder_info f w' = offered NativePlatforms builder_info f w"
    using objs.targets_later [of "[]" f w w'] nat emu okw by (simp add: schedule_targets_def)
  moreover have "cl_world c' = w'" using c' by simp
  moreover have "cl_farm c' = Some f"
    "cl_out c' = cl_out c @ platform_items ''Native: '' native @ platform_items ''Emulated: '' emulated"
    using f(2,3) c' by simp_all
  ultimately show ?thesis using nat emu by metis
qed

theorem platforms_printed_witness:
  "\<exists>c' native emulated. platformsCmd sample_podman sample_docker sample_run [] sample_start = (Ret (Inr ()), c') \<and>
     sorted native \<and> sorted emulated \<and>
     cl_out c' = platform_items ''Native: '' native @ platform_items ''Emulated: '' emulated"
proof -
  obtain c' where run: "platformsCmd sample_podman sample_docker sample_run [] sample_start = (Ret (Inr ()), c')"
    using platforms_succeeds by (metis prod.collapse)
  moreover have "cl_out sample_start = []" by (simp add: sample_start_def)
  ultimately show ?thesis using platforms_printed [OF run sample_config_ok(1)] by auto
qed

section \<open>Nothing is printed by a command that fails\<close>

definition silent :: "('x cli, 'a) io \<Rightarrow> bool" where
  "silent m \<longleftrightarrow> (\<forall>c. cl_out (snd (m c)) = cl_out c)"

definition quiet :: "('x cli, unit) ioe \<Rightarrow> bool" where
  "quiet m \<longleftrightarrow> (\<forall>c e c'. m c = (Ret (Inl e), c') \<longrightarrow> cl_out c' = cl_out c)"

named_theorems silent_intros \<open>computations that print nothing\<close>

lemma silentD: "silent m \<Longrightarrow> m c = (r, c') \<Longrightarrow> cl_out c' = cl_out c"
  by (metis silent_def snd_conv)

lemma silent_basic [silent_intros]:
  "silent (ret a)" "silent (panic s)" "silent (on_farm m)" "silent globals"
  by (simp_all add: silent_def on_farm_def globals_def split: prod.splits)

lemma silent_assign [silent_intros]: "(\<And>c. cl_out (f c) = cl_out c) \<Longrightarrow> silent (assign f)"
  by (simp add: silent_def)

lemma silent_io_bind [silent_intros]:
  assumes "silent m" and "\<And>a. silent (f a)"
  shows "silent (io_bind m f)"
  unfolding silent_def
proof
  fix c
  obtain o1 c1 where m: "m c = (o1, c1)" by fastforce
  with silentD [OF assms(1) m] assms(2) show "cl_out (snd (io_bind m f c)) = cl_out c"
    by (cases o1) (simp_all add: silent_def)
qed

lemma silent_case_sum [silent_intros]:
  "(\<And>a. silent (f a)) \<Longrightarrow> (\<And>b. silent (g b)) \<Longrightarrow> silent (case r of Inl a \<Rightarrow> f a | Inr b \<Rightarrow> g b)"
  by (cases r) auto

lemma silent_case_option [silent_intros]:
  "silent m \<Longrightarrow> (\<And>a. silent (f a)) \<Longrightarrow> silent (case v of None \<Rightarrow> m | Some a \<Rightarrow> f a)"
  by (cases v) auto

lemma silent_case_list [silent_intros]:
  "silent m \<Longrightarrow> (\<And>a as. silent (f a as)) \<Longrightarrow> silent (case v of [] \<Rightarrow> m | a # as \<Rightarrow> f a as)"
  by (cases v) auto

lemma silent_if [silent_intros]: "silent m \<Longrightarrow> silent n \<Longrightarrow> silent (if b then m else n)"
  by simp

lemma silent_try_bind [silent_intros]: "silent m \<Longrightarrow> (\<And>a. silent (f a)) \<Longrightarrow> silent (try_bind m f)"
  unfolding try_bind_def by (intro silent_intros)

lemma silent_wrap_err [silent_intros]: "silent m \<Longrightarrow> silent (wrap_err g m)"
  unfolding wrap_err_def by (intro silent_intros)

lemma silent_steps [silent_intros]:
  "silent (name_farm args)" "silent (use_farm A ch)" "silent (path_Abs C p)" "silent (set_options g)"
  unfolding name_farm_def use_farm_def getFarm_def path_Abs_def set_options_def
  by (intro silent_intros; simp)+

lemma silent_buildCmd: "silent (buildCmd A D L norm C ch args)"
  unfolding buildCmd_def build_context_def build_flags_def find_dockerfile_def stop_on_def Let_def prod.case_eq_if
  by (intro silent_intros; simp)

lemma quiet_silent: "silent m \<Longrightarrow> quiet m"
  by (auto simp: quiet_def dest: silentD)

lemma quiet_io_bind: "silent m \<Longrightarrow> (\<And>a. quiet (f a)) \<Longrightarrow> quiet (io_bind m f)"
  unfolding quiet_def io_bind_RetE by (metis silentD)

lemma quiet_try_bind: "silent m \<Longrightarrow> (\<And>a. quiet (f a)) \<Longrightarrow> quiet (try_bind m f)"
  unfolding quiet_def try_bind_Inl by (metis silentD)

lemma quiet_print: "quiet (print_out items)" "quiet (try_bind (print_out items) (\<lambda>_. print_out items'))"
  by (simp_all add: quiet_def print_out_def)

lemma quiet_outcome: "quiet (case err of Some e \<Rightarrow> ret (Inl (g e)) | None \<Rightarrow> print_out items)"
  by (cases err) (simp_all add: quiet_print quiet_silent silent_intros)



section \<open>Options of a build\<close>

definition arg_key :: "string \<Rightarrow> string" where
  "arg_key a = fst (str_cut (CHR ''='') a)"

text \<open>
  The last \<open>--build-arg\<close> of a name decides: with a value, the argument is set to it; without an
  equals sign, the argument is removed, even if an earlier one had set it.
\<close>

theorem build_args_last:
  "map_of (the (build_args args (Some m))) k =
     (case filter (\<lambda>a. arg_key a = k) args of [] \<Rightarrow> map_of m k | as \<Rightarrow> snd (str_cut (CHR ''='') (last as)))"
proof (induction args arbitrary: m)
  case (Cons a args)
  obtain key v where a: "str_cut (CHR ''='') a = (key, v)" by fastforce
  have step: "build_args (a # args) (Some m) =
      build_args args (Some (case v of Some x \<Rightarrow> mput key x m | None \<Rightarrow> AList.delete key m))"
    by (cases v) (simp_all add: str_splitn_2 a)
  have "map_of (case v of Some x \<Rightarrow> mput key x m | None \<Rightarrow> AList.delete key m) k = (if k = key then v else map_of m k)"
    by (cases v) (simp_all add: delete_conv')
  then show ?case
    unfolding step Cons.IH by (auto simp: arg_key_def a split: list.splits)
qed simp

lemma path_Join_abs: "IsAbs a \<Longrightarrow> IsAbs (path_Join a b)"
  by (cases a) (auto simp: path_Join_def path_Clean_def IsAbs_def has_prefix_def Let_def)

lemma path_Abs_Inr:
  assumes "path_Abs C p c = (Ret (Inr q), c')" and "\<forall>x wd x'. ca_Getwd C x = (Inr wd, x') \<longrightarrow> IsAbs wd"
  shows "IsAbs q"
  using assms path_Join_abs
  by (auto simp: path_Abs_def try_bind_Inr on_farm_Ret ext_io_def path_Clean_def IsAbs_def has_prefix_def Let_def
      split: if_splits prod.splits)

text \<open>What the three steps before the farm change: the options, and the outside of the world.\<close>

definition options_only :: "'x cli \<Rightarrow> 'x cli \<Rightarrow> bool" where
  "options_only c c' \<longleftrightarrow> cl_farm c' = cl_farm c \<and> cl_storageOptions c' = cl_storageOptions c \<and>
     cl_store c' = cl_store c \<and> heap (cl_world c') = heap (cl_world c) \<and>
     co_output (cl_buildOpts c') = co_output (cl_buildOpts c) \<and>
     co_platforms (cl_buildOpts c') = co_platforms (cl_buildOpts c)"

lemma path_Abs_only: "path_Abs C p c = (Ret r, c') \<Longrightarrow> options_only c c' \<and> cl_buildOpts c' = cl_buildOpts c"
  by (auto simp: path_Abs_def try_bind_def io_bind_RetE on_farm_Ret ext_io_def options_only_def
      split: if_splits prod.splits sum.splits)

lemma build_context_Inr:
  assumes "build_context C args c = (Ret (Inr u), c')" and "\<forall>x wd x'. ca_Getwd C x = (Inr wd, x') \<longrightarrow> IsAbs wd"
  shows "options_only c c'" and "IsAbs (bo_ContextDirectory (co_buildOptions (cl_buildOpts c')))"
proof -
  obtain dir rest where args: "args = dir # rest" using assms(1) by (cases args) (auto simp: build_context_def)
  let ?c = "c\<lparr>cl_buildOpts := (cl_buildOpts c)\<lparr>co_buildOptions := (co_buildOptions (cl_buildOpts c))\<lparr>bo_ContextDirectory := dir\<rparr>\<rparr>\<rparr>"
  have "options_only c c' \<and> IsAbs (bo_ContextDirectory (co_buildOptions (cl_buildOpts c')))"
  proof (cases "IsAbs dir")
    case True
    then have "c' = ?c" using assms(1) args
      by (auto simp: build_context_def set_options_def try_bind_Inr assign_Ret IsAbs_def has_prefix_def split: if_splits)
    with True show ?thesis by (simp add: options_only_def)
  next
    case False
    then obtain q c1 where q: "path_Abs C dir ?c = (Ret (Inr q), c1)"
      and c': "c' = c1\<lparr>cl_buildOpts := (cl_buildOpts c1)\<lparr>co_buildOptions := (co_buildOptions (cl_buildOpts c1))\<lparr>bo_ContextDirectory := q\<rparr>\<rparr>\<rparr>"
      using assms(1) args by (auto simp: build_context_def set_options_def try_bind_Inr assign_Ret split: if_splits)
    have "options_only ?c c1" using path_Abs_only [OF q] by simp
    then show ?thesis using path_Abs_Inr [OF q assms(2)] c' by (simp add: options_only_def)
  qed
  then show "options_only c c'" "IsAbs (bo_ContextDirectory (co_buildOptions (cl_buildOpts c')))" by simp_all
qed

lemma build_flags_Inr:
  assumes "build_flags C c = (Ret (Inr u), c')"
  shows "options_only c c'"
    and "bo_ContextDirectory (co_buildOptions (cl_buildOpts c')) = bo_ContextDirectory (co_buildOptions (cl_buildOpts c))"
    and "bo_Args (co_buildOptions (cl_buildOpts c')) = build_args (co_BuildArg (cl_buildOpts c)) (bo_Args (co_buildOptions (cl_buildOpts c)))"
  using assms
  by (auto simp: build_flags_def set_options_def stop_on_def try_bind_Inr assign_Ret options_only_def Let_def
      split: if_splits prod.splits option.splits)

lemma find_dockerfile_Inr:
  assumes "find_dockerfile C c = (Ret (Inr u), c')"
  shows "options_only c c' \<and> co_buildOptions (cl_buildOpts c') = co_buildOptions (cl_buildOpts c) \<and>
    co_dockerfiles (cl_buildOpts c') \<noteq> []"
proof (cases "co_dockerfiles (cl_buildOpts c) = []")
  case True
  then obtain d c1 q c2 where d: "on_farm (ext_io (ca_DiscoverContainerfile C (bo_ContextDirectory (co_buildOptions (cl_buildOpts c))))) c =
      (Ret (Inr d), c1)"
    and q: "(if \<not> IsAbs d then path_Abs C d else ret (Inr d)) c1 = (Ret (Inr q), c2)"
    and c': "c' = c2\<lparr>cl_buildOpts := (cl_buildOpts c2)\<lparr>co_dockerfiles := co_dockerfiles (cl_buildOpts c2) @ [q]\<rparr>\<rparr>"
    using assms by (auto simp: find_dockerfile_def try_bind_Inr assign_Ret)
  have "options_only c c1 \<and> cl_buildOpts c1 = cl_buildOpts c"
    using d by (auto simp: on_farm_Ret ext_io_def options_only_def split: prod.splits)
  moreover have "options_only c1 c2 \<and> cl_buildOpts c2 = cl_buildOpts c1"
    using q path_Abs_only by (fastforce simp: options_only_def split: if_splits)
  ultimately show ?thesis using c' by (simp add: options_only_def)
qed (use assms in \<open>auto simp: find_dockerfile_def options_only_def\<close>)

text \<open>The stages of a build command that succeeds.\<close>

lemma buildCmd_Inr:
  assumes "buildCmd A D L norm C ch args c = (Ret (Inr u), c')" and "config_ok A"
    and "\<forall>x wd x'. ca_Getwd C x = (Inr wd, x') \<longrightarrow> IsAbs wd"
  obtains f s w1 w2 where "fresh_farm f w1" "farm_storeOptions f = cl_storageOptions c" "cl_farm c' = Some f"
    "cl_storageOptions c = None \<Longrightarrow> \<forall>k\<in>set (farm_builders f). \<exists>r. heap w1 ! snd k = RemoteObj r"
    "Farm_Schedule (builders A D) f (co_platforms (cl_buildOpts c)) (rc_native ch) (rc_schedule ch) w1 = (Ret (Inr s), w2)"
    "Farm_Build (builders A D) (list_calls L) norm f (rc_build ch) (co_output (cl_buildOpts c)) s
      (co_dockerfiles (cl_buildOpts c')) (co_buildOptions (cl_buildOpts c')) w2 = (Ret (Inr ()), cl_world c')"
    "IsAbs (bo_ContextDirectory (co_buildOptions (cl_buildOpts c')))" "co_dockerfiles (cl_buildOpts c') \<noteq> []"
    "bo_Args (co_buildOptions (cl_buildOpts c')) = build_args (co_BuildArg (cl_buildOpts c)) (bo_Args (co_buildOptions (cl_buildOpts c)))"
    "cl_store c' = cl_store c"
proof -
  obtain c1 c2 c3 f c4 s w2 w3 where
    c1: "build_context C args c = (Ret (Inr ()), c1)" and c2: "build_flags C c1 = (Ret (Inr ()), c2)"
    and c3: "find_dockerfile C c2 = (Ret (Inr ()), c3)" and f: "use_farm A ch c3 = (Ret (Inr f), c4)"
    and s: "Farm_Schedule (builders A D) f (co_platforms (cl_buildOpts c4)) (rc_native ch) (rc_schedule ch) (cl_world c4) = (Ret (Inr s), w2)"
    and b: "Farm_Build (builders A D) (list_calls L) norm f (rc_build ch) (co_output (cl_buildOpts c4)) s
      (co_dockerfiles (cl_buildOpts c4)) (co_buildOptions (cl_buildOpts c4)) w2 = (Ret (Inr ()), w3)"
    and c': "c' = c4\<lparr>cl_world := w3\<rparr>"
    using assms(1) by (auto simp: buildCmd_def try_bind_Inr wrap_err_Inr on_farm_Ret split: if_splits)
  have args: "co_BuildArg (cl_buildOpts c1) = co_BuildArg (cl_buildOpts c)"
    "bo_Args (co_buildOptions (cl_buildOpts c1)) = bo_Args (co_buildOptions (cl_buildOpts c))"
    using c1 path_Abs_only
    by (fastforce simp: build_context_def set_options_def try_bind_Inr assign_Ret split: list.splits if_splits)+
  note ctx = build_context_Inr [OF c1 assms(3)] and flags = build_flags_Inr [OF c2]
    and files = find_dockerfile_Inr [OF c3] and farm = use_farm_Inr [OF f assms(2)]
  have only: "options_only c c3" using ctx(1) flags(1) files by (simp add: options_only_def)
  have c4: "cl_buildOpts c4 = cl_buildOpts c3" "cl_store c4 = cl_store c3" "cl_farm c4 = Some f"
    using farm by (metis cli.select_convs(2,5,6) cli.surjective cli.update_convs(6,9))+
  show thesis
    by (rule that [of f "cl_world c4" s w2])
       (use farm only s b c' c4 ctx(2) flags(2,3) files args in \<open>simp_all add: options_only_def\<close>)
qed

text \<open>
  A build command that succeeds has scheduled and built on a fresh farm: the schedule assigns
  exactly the requested platforms, each to a member that can build for it, \<open>Build\<close> succeeded with
  that schedule for the requested output, the context directory is absolute and there is a
  container file.
\<close>

theorem build_command_success:
  assumes "buildCmd A D L norm C ch args c = (Ret (Inr u), c')" and "config_ok A"
    and "\<forall>x wd x'. ca_Getwd C x = (Inr wd, x') \<longrightarrow> IsAbs wd"
  shows "\<exists>f s w1 w2. fresh_farm f w1 \<and> cl_farm c' = Some f \<and>
    Farm_Schedule (builders A D) f (co_platforms (cl_buildOpts c)) (rc_native ch) (rc_schedule ch) w1 = (Ret (Inr s), w2) \<and>
    schedule_spec (farm_builders f) (answer builder_info w2)
      (schedule_targets builder_info f (co_platforms (cl_buildOpts c)) w2) (map_of (platformBuilders s)) \<and>
    Farm_Build (builders A D) (list_calls L) norm f (rc_build ch) (co_output (cl_buildOpts c)) s
      (co_dockerfiles (cl_buildOpts c')) (co_buildOptions (cl_buildOpts c')) w2 = (Ret (Inr ()), cl_world c') \<and>
    IsAbs (bo_ContextDirectory (co_buildOptions (cl_buildOpts c'))) \<and> co_dockerfiles (cl_buildOpts c') \<noteq> []"
proof (rule buildCmd_Inr [OF assms])
  fix f s w1 w2
  assume r: "fresh_farm f w1" "cl_farm c' = Some f"
    "Farm_Schedule (builders A D) f (co_platforms (cl_buildOpts c)) (rc_native ch) (rc_schedule ch) w1 = (Ret (Inr s), w2)"
    "Farm_Build (builders A D) (list_calls L) norm f (rc_build ch) (co_output (cl_buildOpts c)) s
      (co_dockerfiles (cl_buildOpts c')) (co_buildOptions (cl_buildOpts c')) w2 = (Ret (Inr ()), cl_world c')"
    "IsAbs (bo_ContextDirectory (co_buildOptions (cl_buildOpts c')))" "co_dockerfiles (cl_buildOpts c') \<noteq> []"
  have "members_ok is_builder f w1" using r(1) by (simp add: fresh_farm_def)
  from objs.Schedule_Inr [OF r(3) this] r show ?thesis by blast
qed

theorem build_command_success_witness:
  "\<exists>c' f. buildCmd sample_podman sample_docker sample_lists sample_norm sample_cli sample_run [''src''] sample_start =
     (Ret (Inr ()), c') \<and> cl_farm c' = Some f \<and> IsAbs (bo_ContextDirectory (co_buildOptions (cl_buildOpts c')))"
proof -
  obtain c' where run: "buildCmd sample_podman sample_docker sample_lists sample_norm sample_cli sample_run [''src''] sample_start =
      (Ret (Inr ()), c')"
    using build_succeeds by (metis prod.collapse)
  with build_command_success [OF run sample_config_ok(1) sample_Getwd] show ?thesis by blast
qed

end
