(* ===== verification/Command_Cleanup.thy ===== *)
theory Command_Cleanup
  imports Command_Theorems
begin

text \<open>
  What a run of the program leaves behind: the members of its farm after a command, the hook that
  closes them and the store, and the exit code.
\<close>

section \<open>The farm of a command\<close>

text \<open>Steps that leave the farm of the run alone, and commands that make one.\<close>

definition farm_kept :: "('x farm_world \<Rightarrow> 'x farm_world \<Rightarrow> bool) \<Rightarrow> ('x cli, 'a) io \<Rightarrow> bool" where
  "farm_kept R m \<longleftrightarrow> (\<forall>c. cl_farm (snd (m c)) = cl_farm c \<and> R (cl_world c) (cl_world (snd (m c))))"

definition makes_farm :: "('x farm_world \<Rightarrow> 'x farm_world \<Rightarrow> bool) \<Rightarrow> ('x cli, unit) ioe \<Rightarrow> bool" where
  "makes_farm R m \<longleftrightarrow> (\<forall>c r c'. m c = (Ret r, c') \<longrightarrow>
     (\<exists>f w0. fresh_farm f w0 \<and> cl_farm c' = Some f \<and> R w0 (cl_world c')) \<or>
     (\<exists>e. r = Inl e \<and> cl_farm c' = cl_farm c))"

named_theorems kept_intros \<open>steps that leave the farm of the run alone\<close>

lemma farm_keptD: "farm_kept R m \<Longrightarrow> m c = (r, c') \<Longrightarrow> cl_farm c' = cl_farm c \<and> R (cl_world c) (cl_world c')"
  by (metis farm_kept_def snd_conv)

lemma makes_farmD:
  "makes_farm R m \<Longrightarrow> m c = (Ret r, c') \<Longrightarrow>
     (\<exists>f w0. fresh_farm f w0 \<and> cl_farm c' = Some f \<and> R w0 (cl_world c')) \<or> (\<exists>e. r = Inl e \<and> cl_farm c' = cl_farm c)"
  unfolding makes_farm_def by blast

lemma makes_if: "makes_farm R m \<Longrightarrow> makes_farm R n \<Longrightarrow> makes_farm R (if b then m else n)"
  by simp

lemma makes_ret_Inl: "makes_farm R (ret (Inl e))"
  by (simp add: makes_farm_def)

lemma makes_try_bind:
  assumes "farm_kept R m" and "\<And>a. makes_farm R (f a)"
  shows "makes_farm R (try_bind m f)"
  unfolding makes_farm_def
proof (intro allI impI)
  fix c r c'
  assume run: "try_bind m f c = (Ret r, c')"
  then obtain v c1 where m: "m c = (Ret v, c1)"
    and k: "(case v of Inl e \<Rightarrow> ret (Inl e) | Inr a \<Rightarrow> f a) c1 = (Ret r, c')"
    unfolding try_bind_def io_bind_RetE by blast
  have c1: "cl_farm c1 = cl_farm c" using farm_keptD [OF assms(1) m] by simp
  show "(\<exists>f w0. fresh_farm f w0 \<and> cl_farm c' = Some f \<and> R w0 (cl_world c')) \<or> (\<exists>e. r = Inl e \<and> cl_farm c' = cl_farm c)"
    using k makes_farmD [OF assms(2), of _ c1 r c'] c1 by (cases v) auto
qed

lemma makes_globals: "(\<And>g. makes_farm R (f g)) \<Longrightarrow> makes_farm R (io_bind globals f)"
  unfolding makes_farm_def globals_bind by blast

lemma getFarm_farm: "getFarm A ch c = (Ret r, c') \<Longrightarrow> cl_farm c' = cl_farm c"
  by (auto simp: getFarm_def wrap_err_def io_bind_RetE on_farm_Ret split: if_splits sum.splits)

context world_order
begin

lemma kept_ret [kept_intros]: "farm_kept R (ret a)"
  by (simp add: farm_kept_def R_refl)

lemma kept_panic [kept_intros]: "farm_kept R (panic s)"
  by (simp add: farm_kept_def R_refl)

lemma kept_globals [kept_intros]: "farm_kept R globals"
  by (simp add: farm_kept_def globals_def R_refl)

lemma kept_assign [kept_intros]:
  "(\<And>c. cl_farm (f c) = cl_farm c \<and> cl_world (f c) = cl_world c) \<Longrightarrow> farm_kept R (assign f)"
  by (simp add: farm_kept_def R_refl)

lemma kept_on_farm [kept_intros]: "moves_on R m \<Longrightarrow> farm_kept R (on_farm m)"
  by (auto simp: farm_kept_def on_farm_def moves_on_def split: prod.splits) (metis snd_conv)

lemma kept_io_bind [kept_intros]:
  assumes "farm_kept R m" and "\<And>a. farm_kept R (f a)"
  shows "farm_kept R (io_bind m f)"
  unfolding farm_kept_def
proof
  fix c
  obtain o1 c1 where m: "m c = (o1, c1)" by fastforce
  have "R (cl_world c1) (cl_world (snd (f a c1))) \<and> cl_farm (snd (f a c1)) = cl_farm c1" for a
    using assms(2) by (simp add: farm_kept_def)
  with farm_keptD [OF assms(1) m]
  show "cl_farm (snd (io_bind m f c)) = cl_farm c \<and> R (cl_world c) (cl_world (snd (io_bind m f c)))"
    using m by (cases o1) (auto intro: R_trans)
qed

lemma kept_case_sum [kept_intros]:
  "(\<And>a. farm_kept R (f a)) \<Longrightarrow> (\<And>b. farm_kept R (g b)) \<Longrightarrow> farm_kept R (case r of Inl a \<Rightarrow> f a | Inr b \<Rightarrow> g b)"
  by (cases r) auto

lemma kept_case_option [kept_intros]:
  "farm_kept R m \<Longrightarrow> (\<And>a. farm_kept R (f a)) \<Longrightarrow> farm_kept R (case v of None \<Rightarrow> m | Some a \<Rightarrow> f a)"
  by (cases v) auto

lemma kept_case_list [kept_intros]:
  "farm_kept R m \<Longrightarrow> (\<And>a as. farm_kept R (f a as)) \<Longrightarrow> farm_kept R (case v of [] \<Rightarrow> m | a # as \<Rightarrow> f a as)"
  by (cases v) auto

lemma kept_if [kept_intros]: "farm_kept R m \<Longrightarrow> farm_kept R n \<Longrightarrow> farm_kept R (if b then m else n)"
  by simp

lemma kept_try_bind [kept_intros]: "farm_kept R m \<Longrightarrow> (\<And>a. farm_kept R (f a)) \<Longrightarrow> farm_kept R (try_bind m f)"
  unfolding try_bind_def by (intro kept_intros)

lemma kept_wrap_err [kept_intros]: "farm_kept R m \<Longrightarrow> farm_kept R (wrap_err g m)"
  unfolding wrap_err_def by (intro kept_intros)

lemma kept_steps [kept_intros]:
  "farm_kept R (name_farm args)" "farm_kept R (print_out items)" "farm_kept R (path_Abs C p)"
  "farm_kept R (build_context C args)" "farm_kept R (build_flags C)" "farm_kept R (find_dockerfile C)"
  unfolding name_farm_def print_out_def path_Abs_def build_context_def build_flags_def find_dockerfile_def
    set_options_def stop_on_def Let_def prod.case_eq_if
  by (intro kept_intros moves_intros; simp)+

lemma makes_use_farm:
  assumes "config_ok A" and "\<And>f. farm_kept R (rest f)"
  shows "makes_farm R (try_bind (use_farm A ch) rest)"
  unfolding makes_farm_def
proof (intro allI impI)
  fix c r c'
  assume run: "try_bind (use_farm A ch) rest c = (Ret r, c')"
  then obtain v c1 where use: "use_farm A ch c = (Ret v, c1)"
    and k: "(case v of Inl e \<Rightarrow> ret (Inl e) | Inr a \<Rightarrow> rest a) c1 = (Ret r, c')"
    unfolding try_bind_def io_bind_RetE by blast
  show "(\<exists>f w0. fresh_farm f w0 \<and> cl_farm c' = Some f \<and> R w0 (cl_world c')) \<or> (\<exists>e. r = Inl e \<and> cl_farm c' = cl_farm c)"
  proof (cases v)
    case (Inl e)
    then have "\<exists>e'. getFarm A ch c = (Ret (Inl e'), c1)"
      using use by (auto simp: use_farm_def try_bind_Inl wrap_err_Inl assign_Ret)
    with k Inl getFarm_farm show ?thesis by fastforce
  next
    case (Inr f)
    note farm = use_farm_Inr [OF use [unfolded Inr] assms(1)]
    then have "cl_farm c1 = Some f" by (metis cli.select_convs(6) cli.surjective cli.update_convs(6))
    moreover have "cl_farm c' = cl_farm c1 \<and> R (cl_world c1) (cl_world c')"
      using k Inr farm_keptD [OF assms(2)] by auto
    ultimately show ?thesis using farm by (intro disjI1 exI [of _ f] exI [of _ "cl_world c1"]) simp
  qed
qed

lemma makes_run_command:
  assumes "config_ok A"
  shows "makes_farm R (run_command A D L norm C ch cmd args)"
proof -
  note rules = makes_if makes_ret_Inl makes_globals makes_use_farm [OF assms] makes_try_bind
  have "makes_farm R (buildCmd A D L norm C ch args)"
    unfolding buildCmd_def by (rule rules kept_intros moves_intros | simp)+
  moreover have "makes_farm R (statusCmd A D ch args)"
    unfolding statusCmd_def prod.case_eq_if by (rule rules kept_intros moves_intros)+
  moreover have "makes_farm R (platformsCmd A D ch args)"
    unfolding platformsCmd_def by (rule rules kept_intros moves_intros)+
  moreover have "makes_farm R (pruneCmd A D ch args)"
    unfolding pruneCmd_def prod.case_eq_if by (rule rules kept_intros moves_intros)+
  ultimately show ?thesis unfolding run_command_def by (cases cmd) simp_all
qed

end

text \<open>The two relations give the state of the members after a command.\<close>

lemma fresh_later:
  "fresh_farm f w \<Longrightarrow> later_world w w' \<Longrightarrow> members_ok is_builder f w' \<and> distinct (map snd (farm_builders f))"
  unfolding fresh_farm_def members_ok_def using objs.later_valid by blast

lemma fresh_connected:
  assumes "fresh_farm f w" and "connected w w'" and "k \<in> set (farm_builders f)" and "fst k \<noteq> []"
  shows "open_engine (heap w' ! snd k) \<noteq> None"
proof -
  obtain n where "fst k = node_key n" and built: "built_for n (heap w ! snd k)" and ok: "is_builder w (snd k)"
    using assms(1,3) by (auto simp: fresh_farm_def members_ok_def)
  with assms(4) have "n \<noteq> LocalNode" by (cases n) (simp_all add: node_key_def)
  with built obtain e where "open_engine (heap w ! snd k) = Some e"
    by (auto simp: built_for_def open_engine_def split: builder_object.splits)
  with assms(2) ok show ?thesis by (auto simp: connected_def)
qed

lemma run_command_members:
  assumes "run_command A D L norm C ch cmd args c = (Ret r, c')" and "config_ok A"
  shows "(\<exists>f. cl_farm c' = Some f \<and> members_ok is_builder f (cl_world c') \<and> distinct (map snd (farm_builders f)) \<and>
      (\<forall>k\<in>set (farm_builders f). fst k \<noteq> [] \<longrightarrow> open_engine (heap (cl_world c') ! snd k) \<noteq> None)) \<or>
    (\<exists>e. r = Inl e \<and> cl_farm c' = cl_farm c)"
  using makes_farmD [OF later.makes_run_command [OF assms(2)] assms(1)]
    makes_farmD [OF wired.makes_run_command [OF assms(2)] assms(1)] fresh_later fresh_connected
  by (metis option.inject)

section \<open>The hook after a command\<close>

lemma Execute_Inr:
  assumes "Execute A D L norm C ch cmd args c = (Ret (Inr u), c')"
  obtains c0 c1 where "ValidateArgs cmd args = None" "before A C c = (Ret (Inr ()), c0)"
    "run_command A D L norm C ch cmd args c0 = (Ret (Inr ()), c1)" "after A D C c1 = (Ret (Inr ()), c')"
  using assms unfolding Execute_def cobra_execute_def
  by (cases "ValidateArgs cmd args") (auto simp: try_bind_Inr)

lemma after_Inr:
  assumes "after A D C c = (Ret (Inr u), c')" and "cl_farm c = Some f" and "members_ok is_builder f (cl_world c)"
  shows "c' = c\<lparr>cl_world := cl_world c'\<rparr> \<and>
    heap (cl_world c') = heap (close_all A (farm_builders f) (cl_world c)) \<and>
    (case (if pa_linux A then cl_store c else None) of
        None \<Rightarrow> ext (cl_world c') = ext (close_all A (farm_builders f) (cl_world c))
      | Some st \<Rightarrow> ca_store_Shutdown C st (ext (close_all A (farm_builders f) (cl_world c))) = (Inr (), ext (cl_world c')))"
  using assms(1,2) Farm_Done_eq [OF assms(3), of A D]
  by (auto simp: after_def try_bind_Inr io_bind_RetE on_farm_Ret storeAfter_def storeAfter_other_def ext_io_def
      split: if_splits option.splits prod.splits)

text \<open>A command that succeeded, followed by the hook.\<close>

lemma after_run:
  assumes r: "run_command A D L norm C ch cmd args c0 = (Ret (Inr ()), c1)" and a: "after A D C c1 = (Ret (Inr ()), c')"
    and "config_ok A"
  shows "\<exists>f. cl_farm c1 = Some f \<and> c' = c1\<lparr>cl_world := cl_world c'\<rparr> \<and>
    (\<forall>k\<in>set (farm_builders f). open_engine (heap (cl_world c') ! snd k) = None) \<and>
    (let x = fold (pa_Shutdown A) (List.map_filter (\<lambda>k. open_engine (heap (cl_world c1) ! snd k)) (farm_builders f))
               (ext (cl_world c1))
     in case (if pa_linux A then cl_store c1 else None) of
          None \<Rightarrow> ext (cl_world c') = x
        | Some st \<Rightarrow> ca_store_Shutdown C st x = (Inr (), ext (cl_world c')))"
proof -
  obtain f where f: "cl_farm c1 = Some f" "members_ok is_builder f (cl_world c1)" "distinct (map snd (farm_builders f))"
    using run_command_members [OF r assms(3)] by auto
  have bs: "\<forall>k\<in>set (farm_builders f). is_builder (cl_world c1) (snd k)" using f(2) by (simp add: members_ok_def)
  note closed = close_all_heap [OF f(3) bs, of A]
  have "fold (\<lambda>k. shutdown A (heap w ! snd k)) bs x =
      fold (pa_Shutdown A) (List.map_filter (\<lambda>k. open_engine (heap w ! snd k)) bs) x" for w and bs :: "(string \<times> builder) list" and x
    by (induction bs arbitrary: x) (simp_all add: shutdown_def map_filter_simps split: option.splits)
  note engines = this
  have "\<forall>k\<in>set (farm_builders f). open_engine (heap (cl_world c') ! snd k) = None"
    using after_Inr [OF a f(1,2)] closed by simp
  moreover have "ext (close_all A (farm_builders f) (cl_world c1)) =
      fold (pa_Shutdown A) (List.map_filter (\<lambda>k. open_engine (heap (cl_world c1) ! snd k)) (farm_builders f)) (ext (cl_world c1))"
    using closed engines by simp
  ultimately show ?thesis
    using after_Inr [OF a f(1,2)] f(1) unfolding Let_def by metis
qed

text \<open>
  C6. A run that succeeds has cleaned up after itself: the farm the command used has no open
  connection left, the engine of each connection that was open was shut down once, in the order
  of the map, and after that the store was shut down when one was opened.
\<close>

theorem command_cleans_up:
  assumes "Execute A D L norm C ch cmd args c = (Ret (Inr u), c')" and "config_ok A"
  shows "\<exists>c0 c1 f. before A C c = (Ret (Inr ()), c0) \<and> run_command A D L norm C ch cmd args c0 = (Ret (Inr ()), c1) \<and>
    cl_farm c1 = Some f \<and> c' = c1\<lparr>cl_world := cl_world c'\<rparr> \<and>
    (\<forall>k\<in>set (farm_builders f). open_engine (heap (cl_world c') ! snd k) = None) \<and>
    (let x = fold (pa_Shutdown A) (List.map_filter (\<lambda>k. open_engine (heap (cl_world c1) ! snd k)) (farm_builders f))
               (ext (cl_world c1))
     in case (if pa_linux A then cl_store c1 else None) of
          None \<Rightarrow> ext (cl_world c') = x
        | Some st \<Rightarrow> ca_store_Shutdown C st x = (Inr (), ext (cl_world c')))"
proof -
  obtain c0 c1 where b: "before A C c = (Ret (Inr ()), c0)"
    and r: "run_command A D L norm C ch cmd args c0 = (Ret (Inr ()), c1)" and a: "after A D C c1 = (Ret (Inr ()), c')"
    using Execute_Inr [OF assms(1)] by metis
  from after_run [OF r a assms(2)] b r show ?thesis by blast
qed

theorem command_cleans_up_witness:
  "\<exists>c' f. Execute sample_podman sample_docker sample_lists sample_norm sample_cli sample_run StatusCommand [] sample_start =
     (Ret (Inr ()), c') \<and> cl_farm c' = Some f \<and> (\<forall>k\<in>set (farm_builders f). open_engine (heap (cl_world c') ! snd k) = None)"
proof -
  obtain c' where run: "Execute sample_podman sample_docker sample_lists sample_norm sample_cli sample_run StatusCommand [] sample_start =
      (Ret (Inr ()), c')"
    using execute_succeeds by (metis prod.collapse)
  from command_cleans_up [OF run sample_config_ok(1)] obtain c1 f where "cl_farm c1 = Some f"
    and c': "c' = c1\<lparr>cl_world := cl_world c'\<rparr>"
    and closed: "\<forall>k\<in>set (farm_builders f). open_engine (heap (cl_world c') ! snd k) = None" by blast
  then have "cl_farm c' = Some f" by (metis cli.select_convs(6) cli.surjective cli.update_convs(9))
  with run closed show ?thesis by blast
qed

text \<open>
  C19. The hook does not run when the command fails: the run ends in the command's state, and if
  the command had made its farm, every connection of the farm is still open.
\<close>

theorem failed_run_leaves_open:
  assumes "ValidateArgs cmd args = None" and "before A C c = (Ret (Inr ()), c0)" and "cl_farm c0 = None"
    and "run_command A D L norm C ch cmd args c0 = (Ret (Inl e), c1)" and "config_ok A"
  shows "Execute A D L norm C ch cmd args c = (Ret (Inl e), c1) \<and>
    (\<forall>f. cl_farm c1 = Some f \<longrightarrow>
      (\<forall>k\<in>set (farm_builders f). fst k \<noteq> [] \<longrightarrow> open_engine (heap (cl_world c1) ! snd k) \<noteq> None))"
proof -
  have "Execute A D L norm C ch cmd args c = (Ret (Inl e), c1)"
    unfolding Execute_def cobra_execute_def using assms(1,2,4) by (simp add: try_bind_Inl try_bind_Inr)
  then show ?thesis using run_command_members [OF assms(4,5)] assms(3) by auto
qed

theorem failed_run_leaves_open_witness:
  "\<exists>e c1. Execute sample_podman sample_docker sample_lists sample_norm sample_cli sample_run BuildCommand [''src''] sample_start_mips =
     (Ret (Inl e), c1) \<and> open_engine (heap (cl_world c1) ! 0) \<noteq> None"
proof -
  obtain e c1 where run: "buildCmd sample_podman sample_docker sample_lists sample_norm sample_cli sample_run [''src''] sample_start_mips =
      (Ret (Inl e), c1)" and farm: "map_option farm_builders (cl_farm c1) = Some [([], 1), (''arm'', 0)]"
    using build_fails by (auto split: prod.splits outcome.splits sum.splits)
  have b: "before sample_podman sample_cli sample_start_mips = (Ret (Inr ()), sample_start_mips)"
    by (simp add: before_def sample_podman_def storeBefore_other_def try_bind_def io_bind_def)
  have "ValidateArgs BuildCommand [''src''] = None" "cl_farm sample_start_mips = None"
    by (simp_all add: ValidateArgs_def sample_start_mips_def sample_start_def)
  from failed_run_leaves_open [OF this(1) b this(2), of sample_docker sample_lists sample_norm sample_run e c1]
    run farm sample_config_ok(1)
  show ?thesis unfolding run_command_def command.case by force
qed

text \<open>
  C23. On Linux, a build without \<open>--local\<close> uses no local builder: every member is a remote
  connection. The farm then has no storage options, so whatever \<open>-t\<close> names, also a registry, the
  list of images is a directory with that name (a prefix \<open>dir:\<close> dropped).
\<close>

theorem without_local_flag:
  assumes "Execute A D L norm C ch BuildCommand args c = (Ret (Inr u), c')" and "pa_linux A"
    and "\<not> gs_local (cl_settings c)" and "config_ok A"
    and "\<forall>x wd x'. ca_Getwd C x = (Inr wd, x') \<longrightarrow> IsAbs wd"
  shows "\<exists>f. cl_farm c' = Some f \<and> (\<forall>k\<in>set (farm_builders f). \<exists>r. heap (cl_world c') ! snd k = RemoteObj r) \<and>
    (\<forall>ref options. choose_list_builder (list_calls L) f ref options =
       ret (map_sum id FilesList (NewFileListBuilder (trim_prefix ref ''dir:'') (list_builder_options options))))"
proof -
  obtain c0 c1 where "before A C c = (Ret (Inr ()), c0)" and r: "buildCmd A D L norm C ch args c0 = (Ret (Inr ()), c1)"
    and a: "after A D C c1 = (Ret (Inr ()), c')"
    using Execute_Inr [OF assms(1)] unfolding run_command_def command.case by metis
  then have none: "cl_storageOptions c0 = None"
    using assms(2,3) by (auto simp: before_def storeBefore_def try_bind_Inr)
  show ?thesis
  proof (rule buildCmd_Inr [OF r assms(4,5)])
    fix f s w1 w2
    assume f: "fresh_farm f w1" "farm_storeOptions f = cl_storageOptions c0" "cl_farm c1 = Some f"
      "cl_storageOptions c0 = None \<Longrightarrow> \<forall>k\<in>set (farm_builders f). \<exists>r. heap w1 ! snd k = RemoteObj r"
      "Farm_Schedule (builders A D) f (co_platforms (cl_buildOpts c0)) (rc_native ch) (rc_schedule ch) w1 = (Ret (Inr s), w2)"
      "Farm_Build (builders A D) (list_calls L) norm f (rc_build ch) (co_output (cl_buildOpts c0)) s
        (co_dockerfiles (cl_buildOpts c1)) (co_buildOptions (cl_buildOpts c1)) w2 = (Ret (Inr ()), cl_world c1)"
    have con: "connected w1 (cl_world c1)" and lat: "later_world w1 (cl_world c1)"
      using moves_onD [OF wired.moves_queries(4) f(5)] moves_onD [OF wired.moves_Farm_Build f(6)] wired.R_trans
        moves_onD [OF later.moves_queries(4) f(5)] moves_onD [OF later.moves_Farm_Build f(6)] objs.later_trans by blast+
    note ok = fresh_later [OF f(1) lat]
    have "\<exists>r. heap (cl_world c') ! snd k = RemoteObj r" if k: "k \<in> set (farm_builders f)" for k
    proof -
      obtain r where r: "heap w1 ! snd k = RemoteObj r" using f(4) [OF none] k by blast
      obtain n where b: "built_for n (heap w1 ! snd k)" "is_builder w1 (snd k)"
        using f(1) k by (auto simp: fresh_farm_def members_ok_def)
      with r obtain e where "open_engine (heap w1 ! snd k) = Some e" by (auto simp: built_for_def open_engine_def)
      with con b(2) have "open_engine (heap (cl_world c1) ! snd k) = Some e" by (simp add: connected_def)
      then obtain r' where r': "heap (cl_world c1) ! snd k = RemoteObj r'"
        by (auto simp: open_engine_def split: builder_object.splits)
      have "\<forall>k\<in>set (farm_builders f). is_builder (cl_world c1) (snd k)" using ok by (simp add: members_ok_def)
      from close_all_heap [OF conjunct2 [OF ok] this, of A] after_Inr [OF a f(3) conjunct1 [OF ok]] r' k
      show ?thesis by (auto simp: close_object_def)
    qed
    moreover have "cl_farm c' = Some f" using after_Inr [OF a f(3) conjunct1 [OF ok]] f(3) by (metis cli.select_convs(6) cli.surjective cli.update_convs(9))
    moreover have "farm_storeOptions f = None" using f(2) none by simp
    ultimately show ?thesis by (simp add: choose_list_builder_def)
  qed
qed

theorem without_local_flag_witness:
  "\<exists>c' f. Execute (sample_podman\<lparr>pa_linux := True\<rparr>) sample_docker sample_lists sample_norm sample_cli sample_run_remote
     BuildCommand [''src''] sample_start_remote = (Ret (Inr ()), c') \<and> cl_farm c' = Some f \<and>
     fst (choose_list_builder (list_calls (sample_lists :: log list_api)) f ''quay.io/u/app'' zero_BuildOptions (cl_world c')) =
       Ret (Inr (FilesList \<lparr>lf_directory = ''quay.io/u/app'', lf_options = list_builder_options zero_BuildOptions\<rparr>))"
proof -
  obtain c' where run: "Execute (sample_podman\<lparr>pa_linux := True\<rparr>) sample_docker sample_lists sample_norm sample_cli
      sample_run_remote BuildCommand [''src''] sample_start_remote = (Ret (Inr ()), c')"
    using remote_build_succeeds by (metis prod.collapse)
  have "pa_linux (sample_podman\<lparr>pa_linux := True\<rparr>)" "\<not> gs_local (cl_settings sample_start_remote)"
    by (simp_all add: sample_start_remote_def)
  from without_local_flag [OF run this sample_config_ok(2) sample_Getwd] run
  show ?thesis by (auto simp: NewFileListBuilder_def trim_prefix_def has_prefix_def)
qed

section \<open>The exit code\<close>

lemma exit_status_nonzero:
  assumes "\<forall>s. st s \<noteq> Some 0"
  shows "exit_status_of st e \<noteq> Some 0"
  using assms
proof (induction st e rule: exit_status_of.induct)
  case (3 st e es)
  let ?found = "filter (\<lambda>c. c \<noteq> None) (map (exit_status_of st) (e # es))"
  have "hd ?found \<noteq> Some 0" if "?found \<noteq> []"
  proof -
    from hd_in_set [OF that] have "hd ?found \<in> exit_status_of st ` set (e # es)"
      unfolding set_filter set_map mem_Collect_eq by (rule conjunct1)
    then obtain e' where "e' \<in> set (e # es)" "hd ?found = exit_status_of st e'" unfolding image_iff by blast
    with 3 show ?thesis by auto
  qed
  then show ?case by (cases ?found) simp_all
qed auto

lemma main_outcome:
  assumes "main A D L norm C ch cmd args c = (Ret code, c')" and "\<forall>s. ca_exit_status C s \<noteq> Some 0"
  shows "(code = 0 \<longleftrightarrow> fst (Execute A D L norm C ch cmd args c) = Ret (Inr ())) \<and>
    (\<forall>e c1. Execute A D L norm C ch cmd args c = (Ret (Inl e), c1) \<longrightarrow>
       c' = c1\<lparr>cl_err := cl_err c1 @ [OStr ''Error: '', OErr e, OStr [CHR 0x0A]]\<rparr>)"
proof -
  obtain r c1 where run: "Execute A D L norm C ch cmd args c = (Ret r, c1)"
    and rest: "(case r of Inr _ \<Rightarrow> ret 0 | Inl err \<Rightarrow>
        io_bind (assign (\<lambda>c. c\<lparr>cl_err := cl_err c @ [OStr ''Error: '', OErr err, OStr [CHR 0x0A]]\<rparr>)) (\<lambda>_.
        ret (case exit_status_of (ca_exit_status C) err of Some code \<Rightarrow> code | None \<Rightarrow> 1))) c1 = (Ret code, c')"
    using assms(1) unfolding main_def io_bind_RetE by blast
  show ?thesis
  proof (cases r)
    case (Inl err)
    with rest exit_status_nonzero [OF assms(2), of err] run show ?thesis
      by (auto simp: io_bind_RetE assign_Ret split: option.splits)
  qed (use run rest in simp)
qed

text \<open>
  C24. The exit code is 0 exactly when the command, its hooks included, succeeded; otherwise the error
  is printed last on the standard error.
\<close>

theorem exit_code_zero:
  assumes "main A D L norm C ch cmd args c = (Ret code, c')" and "\<forall>s. ca_exit_status C s \<noteq> Some 0"
  shows "(code = 0 \<longleftrightarrow> fst (Execute A D L norm C ch cmd args c) = Ret (Inr ())) \<and>
    (\<forall>e c1. Execute A D L norm C ch cmd args c = (Ret (Inl e), c1) \<longrightarrow>
       c' = c1\<lparr>cl_err := cl_err c1 @ [OStr ''Error: '', OErr e, OStr [CHR 0x0A]]\<rparr>)"
  by (rule main_outcome [OF assms])

theorem exit_code_zero_witness:
  "\<exists>code c'. main sample_podman sample_docker sample_lists sample_norm sample_cli sample_run BuildCommand [''src'']
     sample_start_mips = (Ret code, c') \<and> code \<noteq> 0"
proof -
  let ?exec = "Execute sample_podman sample_docker sample_lists sample_norm sample_cli sample_run BuildCommand [''src'']
      sample_start_mips"
  obtain e c1 where exec: "?exec = (Ret (Inl e), c1)"
    using build_fails
    by (auto simp: Execute_def cobra_execute_def ValidateArgs_def before_def sample_podman_def storeBefore_other_def
        run_command_def try_bind_def io_bind_def split: prod.splits outcome.splits sum.splits)
  have "\<exists>code c'. main sample_podman sample_docker sample_lists sample_norm sample_cli sample_run BuildCommand [''src'']
     sample_start_mips = (Ret code, c')"
    by (simp add: main_def io_bind_def exec)
  then obtain code c' where run: "main sample_podman sample_docker sample_lists sample_norm sample_cli sample_run
      BuildCommand [''src''] sample_start_mips = (Ret code, c')" by blast
  have "\<forall>s. ca_exit_status sample_cli s \<noteq> Some 0" by (simp add: sample_cli_def)
  from exit_code_zero [OF run this] exec run show ?thesis by auto
qed

end
