(* ===== verification/Calm_Io.thy ===== *)
theory Calm_Io
  imports Fork_Join
begin

text \<open>
  Triples for computations: from a world with the invariant, a computation never panics, keeps the
  invariant whatever its outcome, and what it returns has the postcondition; unless \<open>N\<close> allows it,
  it does not wait for ever either. The triples go through the combinators and the groups of
  goroutines, which wait on an interleaving that does not fit them.
\<close>

definition calm :: "bool \<Rightarrow> ('w \<Rightarrow> bool) \<Rightarrow> ('w, 'a) io \<Rightarrow> ('a \<Rightarrow> bool) \<Rightarrow> bool" where
  "calm N I m Q \<longleftrightarrow> (\<forall>w. I w \<longrightarrow> I (snd (m w)) \<and> (\<forall>s. fst (m w) \<noteq> Panic s) \<and>
     (N \<or> fst (m w) \<noteq> Blocked) \<and> (\<forall>a. fst (m w) = Ret a \<longrightarrow> Q a))"

definition okay :: "('a \<Rightarrow> bool) \<Rightarrow> error + 'a \<Rightarrow> bool" where
  "okay P r \<longleftrightarrow> (\<forall>a. r = Inr a \<longrightarrow> P a)"

abbreviation (input) safe :: "bool \<Rightarrow> ('w \<Rightarrow> bool) \<Rightarrow> ('w, 'a) io \<Rightarrow> bool" where
  "safe N I m \<equiv> calm N I m (\<lambda>_. True)"

named_theorems calm_intros \<open>computations that do not panic\<close>

lemma okay_simps [simp]: "okay P (Inr a) \<longleftrightarrow> P a" "okay P (Inl e)"
  by (simp_all add: okay_def)

lemma okay_True [simp]: "okay (\<lambda>_. True) r"
  by (simp add: okay_def)

lemma calmI:
  "(\<And>w r w'. I w \<Longrightarrow> m w = (r, w') \<Longrightarrow> I w' \<and> (\<forall>s. r \<noteq> Panic s) \<and> (N \<or> r \<noteq> Blocked) \<and> (\<forall>a. r = Ret a \<longrightarrow> Q a)) \<Longrightarrow> calm N I m Q"
  unfolding calm_def by (metis prod.collapse)

lemma calm_waitI:
  "(\<And>w r w'. I w \<Longrightarrow> m w = (r, w') \<Longrightarrow> I w' \<and> (\<forall>s. r \<noteq> Panic s) \<and> (\<forall>a. r = Ret a \<longrightarrow> Q a)) \<Longrightarrow> calm True I m Q"
  by (rule calmI) simp

lemma calmD:
  "calm N I m Q \<Longrightarrow> I w \<Longrightarrow> m w = (r, w') \<Longrightarrow> I w' \<and> (\<forall>s. r \<noteq> Panic s) \<and> (N \<or> r \<noteq> Blocked) \<and> (\<forall>a. r = Ret a \<longrightarrow> Q a)"
  unfolding calm_def by (metis fst_conv snd_conv)

lemma calm_weaken: "calm N I m P \<Longrightarrow> (\<And>a. P a \<Longrightarrow> Q a) \<Longrightarrow> calm N I m Q"
  unfolding calm_def by blast

lemma calm_safe: "calm N I m P \<Longrightarrow> safe N I m"
  by (simp add: calm_def)

lemma calm_ret: "Q a \<Longrightarrow> calm N I (ret a) Q"
  by (simp add: calm_def)

lemma calm_io_bind:
  assumes "calm N I m P" and "\<And>a. P a \<Longrightarrow> calm N I (f a) Q"
  shows "calm N I (io_bind m f) Q"
proof (rule calmI)
  fix w r w'
  assume I: "I w" and run: "io_bind m f w = (r, w')"
  obtain o1 w1 where m: "m w = (o1, w1)" by fastforce
  note first = calmD [OF assms(1) I m]
  show "I w' \<and> (\<forall>s. r \<noteq> Panic s) \<and> (N \<or> r \<noteq> Blocked) \<and> (\<forall>a. r = Ret a \<longrightarrow> Q a)"
  proof (cases o1)
    case (Ret a)
    then show ?thesis using first run m calmD [OF assms(2), of a w1 r w'] by simp
  qed (use first run m in auto)
qed

lemma calm_case_sum:
  "(\<And>a. v = Inl a \<Longrightarrow> calm N I (f a) Q) \<Longrightarrow> (\<And>b. v = Inr b \<Longrightarrow> calm N I (g b) Q) \<Longrightarrow>
     calm N I (case v of Inl a \<Rightarrow> f a | Inr b \<Rightarrow> g b) Q"
  by (cases v) auto

lemma calm_try_bind:
  assumes "calm N I m (okay P)" and "\<And>a. P a \<Longrightarrow> calm N I (f a) (okay Q)"
  shows "calm N I (try_bind m f) (okay Q)"
  unfolding try_bind_def by (rule calm_io_bind [OF assms(1)]) (auto intro!: calm_case_sum calm_ret assms(2))

lemma map_sum_eq: "map_sum g (\<lambda>a. a) v = Inr b \<longleftrightarrow> v = Inr b"
  by (cases v) simp_all

lemma calm_wrap_err: "calm N I m (okay P) \<Longrightarrow> calm N I (wrap_err g m) (okay P)"
  unfolding wrap_err_def
  by (rule calm_io_bind, assumption, rule calm_ret) (simp add: okay_def map_sum_eq)

text \<open>Without a postcondition.\<close>

lemma safe_ret [calm_intros]: "safe N I (ret a)"
  by (simp add: calm_ret)

lemma safe_io_bind [calm_intros]: "safe N I m \<Longrightarrow> (\<And>a. safe N I (f a)) \<Longrightarrow> safe N I (io_bind m f)"
  by (rule calm_io_bind)

lemma safe_try_bind [calm_intros]: "safe N I m \<Longrightarrow> (\<And>a. safe N I (f a)) \<Longrightarrow> safe N I (try_bind m f)"
  unfolding try_bind_def by (intro safe_io_bind calm_case_sum) (simp_all add: calm_ret)

lemma safe_wrap_err [calm_intros]: "safe N I m \<Longrightarrow> safe N I (wrap_err g m)"
  unfolding wrap_err_def by (intro safe_io_bind) (simp_all add: calm_ret)

lemma safe_if [calm_intros]: "safe N I m \<Longrightarrow> safe N I n \<Longrightarrow> safe N I (if b then m else n)"
  by simp

lemma safe_cases [calm_intros]:
  "(\<And>a. safe N I (f a)) \<Longrightarrow> (\<And>b. safe N I (g b)) \<Longrightarrow> safe N I (case v of Inl a \<Rightarrow> f a | Inr b \<Rightarrow> g b)"
  "safe N I m \<Longrightarrow> (\<And>a. safe N I (h a)) \<Longrightarrow> safe N I (case u of None \<Rightarrow> m | Some a \<Rightarrow> h a)"
  by (cases v; cases u; auto)+

lemma calm_defer: "calm N I m Q \<Longrightarrow> (\<And>w. I w \<Longrightarrow> I (f w)) \<Longrightarrow> calm N I (defer_io f m) Q"
  unfolding calm_def defer_io_def prod.case_eq_if by simp

text \<open>A group: \<open>G\<close> holds of the goroutines, \<open>P\<close> of what they return, and \<open>S\<close> of the shared data.\<close>

definition group_calm :: "('w \<Rightarrow> bool) \<Rightarrow> 'k set \<Rightarrow> ('g \<Rightarrow> bool) \<Rightarrow> ('g \<Rightarrow> 'r \<Rightarrow> bool) \<Rightarrow> ('s \<Rightarrow> bool) \<Rightarrow>
    ('k, 'g, 'r, 's, 'w) group \<Rightarrow> bool" where
  "group_calm I K G P S g \<longleftrightarrow> I (world g) \<and> set (todo g) \<subseteq> K \<and> S (shared g) \<and>
     (\<forall>x p. (x, p) \<in> set (routines g) \<longrightarrow> G x \<and> (\<forall>r. p = Called r \<longrightarrow> P x r))"

lemma mput_in: "(y, q) \<in> set (mput x v m) \<Longrightarrow> (y, q) = (x, v) \<or> (y, q) \<in> set m"
  by (induction m) (auto split: if_splits)

lemma calm_step:
  assumes spawned: "\<And>k. k \<in> K \<Longrightarrow> calm True I (spawn B k) (okay G)" and called: "\<And>x. G x \<Longrightarrow> calm True I (call B x) (P x)"
    and committed: "\<And>x r s. G x \<Longrightarrow> P x r \<Longrightarrow> S s \<Longrightarrow> S (fst (commit B x r s))"
    and inv: "group_calm I K G P S g" and run: "group_step B ev g = (r, g')"
  shows "group_calm I K G P S g' \<and> (\<forall>s. r \<noteq> Panic s)"
proof (cases ev)
  case Spawn
  show ?thesis
  proof (cases "todo g")
    case (Cons k ks)
    obtain o1 w1 where s: "spawn B k (world g) = (o1, w1)" by fastforce
    have "k \<in> K" "I (world g)" using inv Cons by (auto simp: group_calm_def)
    from calmD [OF spawned [OF this(1)] this(2) s] run inv Spawn Cons s show ?thesis
      by (auto simp: group_calm_def okay_def split: outcome.splits sum.splits)
  qed (use run inv Spawn in auto)
next
  case (Call x)
  show ?thesis
  proof (cases "map_of (routines g) x = Some Spawned")
    case True
    obtain o1 w1 where c: "call B x (world g) = (o1, w1)" by fastforce
    have G: "G x" and I: "I (world g)" using inv map_of_SomeD [OF True] by (auto simp: group_calm_def)
    from calmD [OF called [OF G] I c] run inv Call True c G show ?thesis
      by (auto simp: group_calm_def split: outcome.splits dest!: mput_in)
  qed (use run inv Call in \<open>auto split: option.splits phase.splits\<close>)
next
  case (Commit x)
  show ?thesis
  proof (cases "\<exists>v. map_of (routines g) x = Some (Called v)")
    case True
    then obtain v where v: "map_of (routines g) x = Some (Called v)" by blast
    then have G: "G x" "P x v" "S (shared g)" using inv map_of_SomeD [OF v] by (auto simp: group_calm_def)
    from committed [OF this] run inv Commit v G show ?thesis
      by (auto simp: group_calm_def split: prod.splits dest!: mput_in)
  qed (use run inv Commit in \<open>auto split: option.splits phase.splits\<close>)
next
  case (Join x)
  show ?thesis
  proof (cases "\<exists>v. map_of (routines g) x = Some (Returned v)")
    case True
    then obtain v where v: "map_of (routines g) x = Some (Returned v)" by blast
    then have "G x" using inv map_of_SomeD [OF v] by (auto simp: group_calm_def)
    with run inv Join v show ?thesis by (auto simp: group_calm_def dest!: mput_in)
  qed (use run inv Join in \<open>auto split: option.splits phase.splits\<close>)
qed

lemma calm_fork_join:
  assumes "\<And>k. k \<in> set ks \<Longrightarrow> calm True I (spawn B k) (okay G)" and "\<And>x. G x \<Longrightarrow> calm True I (call B x) (P x)"
    and "\<And>x r s. G x \<Longrightarrow> P x r \<Longrightarrow> S s \<Longrightarrow> S (fst (commit B x r s))" and "S s0"
  shows "calm True I (fork_join B ks evs s0) (\<lambda>(_, xs, _, s). S s \<and> (\<forall>x\<in>set xs. G x))"
proof (rule calm_waitI)
  fix w r w'
  assume I: "I w" and run: "fork_join B ks evs s0 w = (r, w')"
  have "group_calm I (set ks) G P S g' \<and> (\<forall>s. o1 \<noteq> Panic s)"
    if "group_run B evs g = (o1, g')" "group_calm I (set ks) G P S g" for evs g o1 g'
    using that
  proof (induction evs arbitrary: g)
    case (Cons ev evs)
    obtain o2 g2 where step: "group_step B ev g = (o2, g2)" by fastforce
    note first = calm_step [where K = "set ks", OF assms(1-3) Cons.prems(2) step]
    show ?case
    proof (cases o2)
      case (Ret a)
      then show ?thesis using Cons.prems(1) step first Cons.IH [of g2] by simp
    qed (use Cons.prems(1) step first in auto)
  qed auto
  note steps = this
  obtain o1 g' where g: "group_run B evs (group_init ks s0 w) = (o1, g')" by fastforce
  have "group_calm I (set ks) G P S (group_init ks s0 w)"
    using I assms(4) by (simp add: group_calm_def group_init_def)
  note final = steps [OF g this]
  have "I (world g')" "S (shared g')" "\<forall>x\<in>set (map fst (routines g')). G x"
    using final by (auto simp: group_calm_def)
  then show "I w' \<and> (\<forall>s. r \<noteq> Panic s) \<and> (\<forall>a. r = Ret a \<longrightarrow> (case a of (_, xs, _, s) \<Rightarrow> S s \<and> (\<forall>x\<in>set xs. G x)))"
    using run g final unfolding fork_join_def by (cases o1) (auto split: if_splits)
qed

lemma safe_plain_group:
  assumes "spawn B = plain_spawn" and "\<And>k. k \<in> set ks \<Longrightarrow> safe True I (call B k)"
  shows "safe True I (fork_join B ks evs s0)"
  by (rule calm_safe, rule calm_fork_join [where G = "\<lambda>k. k \<in> set ks" and P = "\<lambda>_ _. True" and S = "\<lambda>_. True"])
     (simp_all add: assms(1) calm_def assms(2) [unfolded calm_def, simplified])

end
