(* ===== verification/Completion.thy ===== *)
theory Completion
  imports Calm_Io
begin

text \<open>
  Computations that come to an end for some choice of the interleavings: from every world with the
  invariant there is a choice for which they return, and what they return has the postcondition.
\<close>

definition completes :: "('w \<Rightarrow> bool) \<Rightarrow> ('c \<Rightarrow> ('w, 'a) io) \<Rightarrow> ('a \<Rightarrow> bool) \<Rightarrow> bool" where
  "completes I m Q \<longleftrightarrow> (\<forall>w. I w \<longrightarrow> (\<exists>c a w'. m c w = (Ret a, w') \<and> I w' \<and> Q a))"

lemma completesE:
  assumes "completes I m Q" and "I w"
  obtains c a w' where "m c w = (Ret a, w')" "I w'" "Q a"
  using assms unfolding completes_def by blast

lemma completes_weaken: "completes I m P \<Longrightarrow> (\<And>a. P a \<Longrightarrow> Q a) \<Longrightarrow> completes I m Q"
  unfolding completes_def by blast

text \<open>A choice that is not all of what is chosen.\<close>

lemma completes_part: "completes I m Q \<Longrightarrow> (\<And>c. \<exists>d. g d = c) \<Longrightarrow> completes I (\<lambda>d. m (g d)) Q"
  unfolding completes_def by metis

lemma calm_returns:
  assumes "calm False I m Q" and "I w"
  obtains a w' where "m w = (Ret a, w')" "I w'" "Q a"
proof -
  obtain r w' where m: "m w = (r, w')" by fastforce
  from calmD [OF assms m] m that show thesis by (cases r) auto
qed

lemma safe_returns: "safe False (\<lambda>_. True) m \<Longrightarrow> \<exists>a w'. m w = (Ret a, w')"
  by (erule calm_returns [where w = w]) auto

text \<open>Computations without a choice.\<close>

lemma completes_calm: "calm False I m Q \<Longrightarrow> completes I (\<lambda>_. m) Q"
  unfolding completes_def by (meson calm_returns)

lemma completes_ret: "Q a \<Longrightarrow> completes I (\<lambda>_. ret a) Q"
  by (simp add: completes_def)

lemma completes_then:
  assumes "calm False I m P" and "\<And>a. P a \<Longrightarrow> completes I (\<lambda>c. f c a) Q"
  shows "completes I (\<lambda>c. io_bind m (f c)) Q"
  unfolding completes_def
proof (intro allI impI)
  fix w
  assume "I w"
  from calm_returns [OF assms(1) this] obtain a w1 where m: "m w = (Ret a, w1)" "I w1" "P a" .
  from assms(2) [OF m(3)] m(2) obtain c b w' where "f c a w1 = (Ret b, w')" "I w'" "Q b" by (rule completesE)
  with m show "\<exists>c a w'. io_bind m (f c) w = (Ret a, w') \<and> I w' \<and> Q a" by (intro exI [of _ c]) simp
qed

lemma completes_first:
  assumes "completes I m P" and "\<And>a. P a \<Longrightarrow> calm False I (f a) Q"
  shows "completes I (\<lambda>c. io_bind (m c) f) Q"
  unfolding completes_def
proof (intro allI impI)
  fix w
  assume "I w"
  with assms(1) obtain c a w1 where m: "m c w = (Ret a, w1)" "I w1" "P a" by (rule completesE)
  from calm_returns [OF assms(2) [OF m(3)] m(2)] obtain b w' where "f a w1 = (Ret b, w')" "I w'" "Q b" .
  with m show "\<exists>c a w'. io_bind (m c) f w = (Ret a, w') \<and> I w' \<and> Q a" by (intro exI [of _ c]) simp
qed

text \<open>Both parts have a choice.\<close>

lemma completes_both:
  assumes "completes I m P" and "\<And>a. P a \<Longrightarrow> completes I (\<lambda>d. f d a) Q"
  shows "completes I (\<lambda>c. io_bind (m (fst c)) (f (snd c))) Q"
  unfolding completes_def
proof (intro allI impI)
  fix w
  assume "I w"
  with assms(1) obtain c a w1 where m: "m c w = (Ret a, w1)" "I w1" "P a" by (rule completesE)
  from assms(2) [OF m(3)] m(2) obtain d b w' where "f d a w1 = (Ret b, w')" "I w'" "Q b" by (rule completesE)
  with m show "\<exists>c a w'. io_bind (m (fst c)) (f (snd c)) w = (Ret a, w') \<and> I w' \<and> Q a"
    by (intro exI [of _ "(c, d)"]) simp
qed

lemma completes_case_sum:
  "(\<And>a. v = Inl a \<Longrightarrow> completes I (\<lambda>c. f c a) Q) \<Longrightarrow> (\<And>b. v = Inr b \<Longrightarrow> completes I (\<lambda>c. g c b) Q) \<Longrightarrow>
     completes I (\<lambda>c. case v of Inl a \<Rightarrow> f c a | Inr b \<Rightarrow> g c b) Q"
  by (cases v) auto

lemma completes_case_option:
  "(v = None \<Longrightarrow> completes I m Q) \<Longrightarrow> (\<And>a. v = Some a \<Longrightarrow> completes I (\<lambda>c. f c a) Q) \<Longrightarrow>
     completes I (\<lambda>c. case v of None \<Rightarrow> m c | Some a \<Rightarrow> f c a) Q"
  by (cases v) auto

lemma completes_if: "completes I m Q \<Longrightarrow> completes I n Q \<Longrightarrow> completes I (\<lambda>c. if b then m c else n c) Q"
  by (cases b) simp_all

lemma completes_defer: "completes I m Q \<Longrightarrow> (\<And>w. I w \<Longrightarrow> I (f w)) \<Longrightarrow> completes I (\<lambda>c. defer_io f (m c)) Q"
  unfolding completes_def by (metis defer_io_simp)

text \<open>The same for computations that may return an error; the postcondition is of the other results.\<close>

lemma completes_try_then:
  "calm False I m (okay P) \<Longrightarrow> (\<And>a. P a \<Longrightarrow> completes I (\<lambda>c. f c a) (okay Q)) \<Longrightarrow>
     completes I (\<lambda>c. try_bind m (f c)) (okay Q)"
  unfolding try_bind_def
  by (rule completes_then, assumption) (auto intro!: completes_case_sum completes_ret)

lemma completes_try_first:
  "completes I m (okay P) \<Longrightarrow> (\<And>a. P a \<Longrightarrow> calm False I (f a) (okay Q)) \<Longrightarrow>
     completes I (\<lambda>c. try_bind (m c) f) (okay Q)"
  unfolding try_bind_def
  by (rule completes_first, assumption) (auto intro!: calm_case_sum calm_ret)

lemma completes_try_both:
  "completes I m (okay P) \<Longrightarrow> (\<And>a. P a \<Longrightarrow> completes I (\<lambda>d. f d a) (okay Q)) \<Longrightarrow>
     completes I (\<lambda>c. try_bind (m (fst c)) (f (snd c))) (okay Q)"
  unfolding try_bind_def
  by (rule completes_both [where f = "\<lambda>d r. case r of Inl e \<Rightarrow> ret (Inl e) | Inr a \<Rightarrow> f d a"], assumption)
     (auto intro!: completes_case_sum completes_ret)

lemma completes_wrap_err: "completes I m (okay P) \<Longrightarrow> completes I (\<lambda>c. wrap_err g (m c)) (okay P)"
  unfolding wrap_err_def
  by (rule completes_first, assumption, rule calm_ret) (simp add: okay_def map_sum_eq)

section \<open>Groups\<close>

lemma calm_total:
  assumes spawned: "\<And>k. k \<in> K \<Longrightarrow> calm False I (spawn B k) (okay (Gen k))"
    and inj: "\<And>k k' x. Gen k x \<Longrightarrow> Gen k' x \<Longrightarrow> k = k'"
    and called: "\<And>k x. k \<in> K \<Longrightarrow> Gen k x \<Longrightarrow> safe False I (call B x)"
  shows "fork_join_total B K I Gen (\<lambda>_ _ _. True)"
proof (unfold_locales, goal_cases)
  case (1 k w v w')
  then show ?case using calmD [OF spawned] by blast
next
  case (2 k w x w')
  then show ?case using calmD [OF spawned, of k w "Ret (Inr x)" w'] by simp
next
  case (5 k w x r w')
  then show ?case using calmD [OF called] by blast
next
  case (8 k w)
  then show ?case using calm_returns [OF spawned] by metis
next
  case (9 k w x)
  then show ?case using calm_returns [OF called] by metis
qed (use inj in blast)+

lemma calm_may_wait: "calm False I m Q \<Longrightarrow> calm True I m Q"
  by (simp add: calm_def)

text \<open>An interleaving that has begun can be brought to its end; the empty one has.\<close>

lemma extends_fork_join:
  assumes spawned: "\<And>k. k \<in> set ks \<Longrightarrow> calm False I (spawn B k) (okay (Gen k))"
    and inj: "\<And>k k' x. Gen k x \<Longrightarrow> Gen k' x \<Longrightarrow> k = k'"
    and called: "\<And>k x. k \<in> set ks \<Longrightarrow> Gen k x \<Longrightarrow> calm False I (call B x) (P x)"
    and committed: "\<And>x r s. P x r \<Longrightarrow> S s \<Longrightarrow> S (fst (commit B x r s))" and "S s0" and "distinct ks"
    and begun: "group_run B evs (group_init ks s0 w) = (Ret u, g)" and I: "I w"
  obtains evs' a w' where "fork_join B ks (evs @ evs') s0 w = (Ret a, w')" "I w'" "case a of (_, _, _, s) \<Rightarrow> S s"
proof -
  have "fork_join_total B (set ks) I Gen (\<lambda>_ _ _. True)"
    by (rule calm_total [OF spawned inj]) (use called calm_safe in blast)+
  from fork_join_total.fork_join_extends [OF this I assms(6) subset_refl begun]
  obtain evs' a w' where run: "fork_join B ks (evs @ evs') s0 w = (Ret a, w')" by blast
  have "calm True I (fork_join B ks (evs @ evs') s0) (\<lambda>(_, xs, _, s). S s \<and> (\<forall>x\<in>set xs. \<exists>k\<in>set ks. Gen k x))"
    by (rule calm_fork_join [where P = P], rule calm_may_wait, rule calm_weaken [OF spawned])
       (use called committed assms(5) in \<open>auto simp: okay_def intro: calm_may_wait\<close>)
  from calmD [OF this I run] run show thesis by (intro that) auto
qed

lemma completes_fork_join:
  assumes "\<And>k. k \<in> set ks \<Longrightarrow> calm False I (spawn B k) (okay (Gen k))"
    and "\<And>k k' x. Gen k x \<Longrightarrow> Gen k' x \<Longrightarrow> k = k'"
    and "\<And>k x. k \<in> set ks \<Longrightarrow> Gen k x \<Longrightarrow> calm False I (call B x) (P x)"
    and "\<And>x r s. P x r \<Longrightarrow> S s \<Longrightarrow> S (fst (commit B x r s))" and "S s0" and "distinct ks"
  shows "completes I (\<lambda>evs. fork_join B ks evs s0) (\<lambda>(_, _, _, s). S s)"
  unfolding completes_def
proof (intro allI impI)
  fix w
  assume I: "I w"
  have "group_run B [] (group_init ks s0 w) = (Ret (), group_init ks s0 w)" by simp
  note extends = extends_fork_join [where Gen = Gen, OF assms this I]
  show "\<exists>evs a w'. fork_join B ks evs s0 w = (Ret a, w') \<and> I w' \<and> (case a of (_, _, _, s) \<Rightarrow> S s)"
  proof (rule extends, assumption+)
    fix evs a w'
    assume "fork_join B ks ([] @ evs) s0 w = (Ret a, w')" "I w'" "case a of (_, _, _, s) \<Rightarrow> S s"
    then show ?thesis by (intro exI [of _ evs] exI [of _ a] exI [of _ w']) simp
  qed
qed

lemma extends_plain_group:
  assumes "spawn B = plain_spawn" and "\<And>k. k \<in> set ks \<Longrightarrow> calm False I (call B k) (P k)"
    and "\<And>x r s. P x r \<Longrightarrow> S s \<Longrightarrow> S (fst (commit B x r s))" and "S s0" and "distinct ks"
    and "group_run B evs (group_init ks s0 w) = (Ret u, g)" and "I w"
  obtains evs' a w' where "fork_join B ks (evs @ evs') s0 w = (Ret a, w')" "I w'" "case a of (_, _, _, s) \<Rightarrow> S s"
proof -
  have spawned: "calm False I (spawn B k) (okay (\<lambda>x. x = k))" for k
    by (simp add: assms(1) plain_spawn_def okay_def calm_ret)
  show thesis
    by (rule extends_fork_join [where Gen = "\<lambda>k x. x = k" and P = P and S = S, OF spawned _ _ _ assms(4,5,6,7) that])
       (use assms(2,3) in simp_all)
qed

lemma completes_plain_group:
  assumes "spawn B = plain_spawn" and "\<And>k. k \<in> set ks \<Longrightarrow> calm False I (call B k) (P k)"
    and "\<And>x r s. P x r \<Longrightarrow> S s \<Longrightarrow> S (fst (commit B x r s))" and "S s0" and "distinct ks"
  shows "completes I (\<lambda>evs. fork_join B ks evs s0) (\<lambda>(_, _, _, s). S s)"
  by (rule completes_fork_join [where Gen = "\<lambda>k x. x = k" and P = P])
     (simp_all add: assms plain_spawn_def okay_def calm_ret)

end
