(* ===== verification/Members_At_Work.thy ===== *)
theory Members_At_Work
  imports Calm_Io Farm_Liveness Later_Worlds
begin

text \<open>
  Nothing panics while the members of a farm are at work: the farm has no docker member, the
  remote members have their connection and engine, and the detection of emulation returns.
\<close>

section \<open>Methods\<close>

definition remote_usable :: "podmanRemote \<Rightarrow> bool" where
  "remote_usable r \<longleftrightarrow> pmr_connCtx r \<noteq> None \<and> pmr_engine r \<noteq> None"

definition usable :: "builder_object \<Rightarrow> bool" where
  "usable ob = (case ob of LocalObj l \<Rightarrow> True | RemoteObj r \<Rightarrow> remote_usable r | DockerObj d \<Rightarrow> False)"

definition at_work :: "'x podman_api \<Rightarrow> builder set \<Rightarrow> 'x farm_world \<Rightarrow> bool" where
  "at_work A B w \<longleftrightarrow> detects A \<and> (\<forall>b\<in>B. is_builder w b \<and> usable (heap w ! b))"

abbreviation (input) on_local :: "'x podman_api \<Rightarrow> podmanLocal \<times> 'x \<Rightarrow> bool" where
  "on_local A \<equiv> \<lambda>_. detects A"

abbreviation (input) on_remote :: "podmanRemote \<times> 'x \<Rightarrow> bool" where
  "on_remote \<equiv> \<lambda>ox. remote_usable (fst ox)"

lemma safe_sys [calm_intros]: "safe N (\<lambda>ox. J (fst ox)) (sys m)" "safe N (\<lambda>_. c) (sys m)"
  by (simp_all add: calm_def sys_def prod.case_eq_if)

lemma safe_outside [calm_intros]:
  "safe N (\<lambda>ox. J (fst ox)) m \<Longrightarrow> safe N (\<lambda>ox. J (fst ox)) (defer_io (outside f) m)"
  "safe N (\<lambda>_. c) m' \<Longrightarrow> safe N (\<lambda>_. c) (defer_io (outside f) m')"
  by (auto intro: calm_defer simp: outside_def)

lemma calm_self: "calm N (\<lambda>ox. J (fst ox)) self J" "safe N (\<lambda>_. c) self"
  by (simp_all add: calm_def self_def)

lemma safe_self_bind [calm_intros]:
  "(\<And>r. J r \<Longrightarrow> safe N (\<lambda>ox. J (fst ox)) (f r)) \<Longrightarrow> safe N (\<lambda>ox. J (fst ox)) (io_bind self f)"
  "(\<And>l. safe N (\<lambda>_. c) (g l)) \<Longrightarrow> safe N (\<lambda>_. c) (io_bind self g)"
  by (rule calm_io_bind [OF calm_self(1)], simp) (rule calm_io_bind [OF calm_self(2)], simp)

lemma safe_on_engine [calm_intros]:
  "remote_usable r \<Longrightarrow> (\<And>e. safe N on_remote (f e)) \<Longrightarrow> safe N on_remote (on_engine r f)"
  by (auto simp: on_engine_def remote_usable_def)

lemma safe_local_once [calm_intros]: "safe N (on_local A) (local_once A)"
proof (rule calmI)
  fix lx r lx'
  assume "detects A" and run: "local_once A lx = (r, lx')"
  then have "local_ready A (fst lx)" by (simp add: local_ready_def)
  from local_once_returns [OF this, of "snd lx"] run \<open>detects A\<close>
  show "detects A \<and> (\<forall>s. r \<noteq> Panic s) \<and> (N \<or> r \<noteq> Blocked) \<and> (\<forall>a. r = Ret a \<longrightarrow> True)" by auto
qed

lemma safe_remote_once [calm_intros]: "safe N on_remote (remote_once A)"
proof (rule calmI)
  fix rx r rx'
  assume J: "on_remote rx" and run: "remote_once A rx = (r, rx')"
  then have "remote_ready (fst rx)" by (simp add: remote_ready_def remote_usable_def)
  moreover have "on_remote rx'"
    using J run keepsD [OF keeps_remote_fetchInfo, of A rx]
    by (auto simp: remote_once_def io_bind_def self_def remote_usable_def split: prod.splits outcome.splits if_splits)
  ultimately show "on_remote rx' \<and> (\<forall>s. r \<noteq> Panic s) \<and> (N \<or> r \<noteq> Blocked) \<and> (\<forall>a. r = Ret a \<longrightarrow> True)"
    using remote_once_returns [of "fst rx" A "snd rx"] run by auto
qed

lemma safe_podmanLocal [calm_intros]:
  "safe N (on_local A) podmanLocal_Name" "safe N (on_local A) (podmanLocal_Status A)" "safe N (on_local A) (podmanLocal_Info A)"
  "safe N (on_local A) (podmanLocal_NativePlatforms A)" "safe N (on_local A) (podmanLocal_EmulatedPlatforms A)"
  "safe N (on_local A) (podmanLocal_Build A ref files bo)" "safe N (on_local A) (podmanLocal_PullToFile A pf)"
  "safe N (on_local A) (podmanLocal_PullToLocal A pl)" "safe N (on_local A) (podmanLocal_RemoveImage A rm)"
  "safe N (on_local A) (podmanLocal_PruneImages A pr)"
  unfolding podmanLocal_Name_def podmanLocal_Status_def podmanLocal_Info_def podmanLocal_NativePlatforms_def
    podmanLocal_EmulatedPlatforms_def podmanLocal_Build_def podmanLocal_PullToFile_def podmanLocal_PullToLocal_def
    podmanLocal_RemoveImage_def podmanLocal_PruneImages_def Let_def prod.case_eq_if
  by (intro calm_intros)+

lemma safe_podmanRemote [calm_intros]:
  "safe N on_remote podmanRemote_Name" "safe N on_remote (podmanRemote_Status A)" "safe N on_remote (podmanRemote_Info A)"
  "safe N on_remote (podmanRemote_NativePlatforms A)" "safe N on_remote (podmanRemote_EmulatedPlatforms A)"
  "safe N on_remote (podmanRemote_Build A ref files bo)" "safe N on_remote (podmanRemote_PullToFile A pf)"
  "safe N on_remote (podmanRemote_PullToLocal A pl)" "safe N on_remote (podmanRemote_RemoveImage A rm)"
  "safe N on_remote (podmanRemote_PruneImages A pr)"
  unfolding podmanRemote_Name_def podmanRemote_Status_def podmanRemote_Info_def podmanRemote_NativePlatforms_def
    podmanRemote_EmulatedPlatforms_def podmanRemote_Build_def podmanRemote_PullToFile_def podmanRemote_PullToLocal_def
    podmanRemote_RemoveImage_def podmanRemote_PruneImages_def Let_def prod.case_eq_if
  by (intro calm_intros; assumption)+

lemma safe_dispatch:
  assumes "b \<in> B" and "safe N (on_local A) ml" and "safe N on_remote mr"
  shows "safe N (at_work A B) (dispatch ml mr md b)"
proof (rule calmI)
  fix w r w'
  assume I: "at_work A B w" and run: "dispatch ml mr md b w = (r, w')"
  have b: "b < length (heap w)" "usable (heap w ! b)" and det: "detects A"
    using I assms(1) by (auto simp: at_work_def is_builder_def)
  have "usable (heap w' ! b) \<and> (\<forall>s. r \<noteq> Panic s) \<and> (N \<or> r \<noteq> Blocked)"
  proof (cases "heap w ! b")
    case (LocalObj l)
    obtain o1 l' x' where m: "ml (l, ext w) = (o1, (l', x'))" by (metis prod.collapse)
    with calmD [OF assms(2) det m] run b LocalObj show ?thesis by (auto simp: dispatch_def usable_def)
  next
    case (RemoteObj l)
    obtain o1 l' x' where m: "mr (l, ext w) = (o1, (l', x'))" by (metis prod.collapse)
    with calmD [OF assms(3) _ m] run b RemoteObj show ?thesis by (auto simp: dispatch_def usable_def)
  qed (use b in \<open>simp add: usable_def\<close>)
  moreover have "length (heap w') = length (heap w)" "\<And>c. c \<noteq> b \<Longrightarrow> heap w' ! c = heap w ! c"
    using run b by (auto simp: dispatch_def split: builder_object.splits prod.splits)
  ultimately show "at_work A B w' \<and> (\<forall>s. r \<noteq> Panic s) \<and> (N \<or> r \<noteq> Blocked) \<and> (\<forall>a. r = Ret a \<longrightarrow> True)"
    using I by (auto simp: at_work_def is_builder_def) metis+
qed

lemma safe_builders [calm_intros]:
  assumes "b \<in> B"
  shows "safe N (at_work A B) (ib_Name (builders A D) b)" "safe N (at_work A B) (ib_Status (builders A D) b)"
    "safe N (at_work A B) (ib_Info (builders A D) b)" "safe N (at_work A B) (ib_NativePlatforms (builders A D) b)"
    "safe N (at_work A B) (ib_EmulatedPlatforms (builders A D) b)" "safe N (at_work A B) (ib_Build (builders A D) b ref files bo)"
    "safe N (at_work A B) (ib_PullToFile (builders A D) b pf)" "safe N (at_work A B) (ib_PullToLocal (builders A D) b pl)"
    "safe N (at_work A B) (ib_RemoveImage (builders A D) b rm)" "safe N (at_work A B) (ib_PruneImages (builders A D) b pr)"
  unfolding builders_simps by (intro safe_dispatch assms calm_intros)+

section \<open>The outside\<close>

lemma at_work_ext [simp]: "at_work A B (w\<lparr>ext := x\<rparr>) = at_work A B w" "at_work A B (on_ext g w) = at_work A B w"
  by (simp_all add: at_work_def is_builder_def on_ext_def)

lemma safe_ext [calm_intros]: "safe N (at_work A B) (ext_io m)" "safe N (at_work A B) (osc (in_ext n))"
  by (simp_all add: calm_def ext_io_def osc_def in_ext_def prod.case_eq_if)

lemma at_work_closed [simp]: "at_work A B (fold (\<lambda>g. on_ext (h g)) gs w) = at_work A B w"
  by (induction gs arbitrary: w) simp_all

lemma safe_closing [calm_intros]:
  "safe N (at_work A B) m \<Longrightarrow> safe N (at_work A B) (defer_io (on_ext g) m)"
  "safe N (at_work A B) m \<Longrightarrow> safe N (at_work A B) (defer_io (fold (\<lambda>g. on_ext (h g)) gs) m)"
  by (auto intro!: calm_defer)

lemma safe_for_each [calm_intros]: "(\<And>x. safe N I (f x)) \<Longrightarrow> safe N I (for_each_err f xs)"
  by (induction xs) (auto intro: calm_intros)

section \<open>The farm\<close>

text \<open>The methods are called on members of the set only.\<close>

abbreviation (input) members_in :: "'b Farm \<Rightarrow> 'b set \<Rightarrow> bool" where
  "members_in f B \<equiv> snd ` set (farm_builders f) \<subseteq> B"

lemma safe_farm_groups [calm_intros]:
  fixes ks :: "(string \<times> builder) list"
  assumes "snd ` set ks \<subseteq> B"
  shows "safe True (at_work A B) (fork_join (status_body (builders A D)) ks evs s)"
    "safe True (at_work A B) (fork_join (schedule_body (builders A D)) ks evs1 ne)"
    "safe True (at_work A B) (fork_join (platforms_body (ib_NativePlatforms (builders A D))) ks evs2 m)"
    "safe True (at_work A B) (fork_join (platforms_body (ib_EmulatedPlatforms (builders A D))) ks evs2 m)"
  using assms
  by (intro safe_plain_group;
      auto simp: status_body_def schedule_body_def platforms_body_def simp del: builders_simps
        intro!: calm_intros)+

lemma safe_rm_group [calm_intros]:
  assumes "snd ` set images \<subseteq> B"
  shows "safe True (at_work A B) (fork_join (rm_body (builders A D)) images evs u)"
  using assms
  by (intro safe_plain_group; auto simp: rm_body_def simp del: builders_simps intro!: calm_intros)

lemma safe_queries [calm_intros]:
  assumes "members_in f B"
  shows "safe True (at_work A B) (Farm_Status (builders A D) f evs)"
    "safe True (at_work A B) (Farm_NativePlatforms (builders A D) f evs)"
    "safe True (at_work A B) (Farm_EmulatedPlatforms (builders A D) f evs)"
    "safe True (at_work A B) (Farm_Schedule (builders A D) f ps evs1 evs2)"
  unfolding Farm_NativePlatforms_def Farm_EmulatedPlatforms_def collect_platforms_def Farm_Status_def
    Farm_Schedule_def target_platforms_def prod.case_eq_if
  by (intro calm_intros assms)+

lemma safe_forEach_loop:
  assumes "\<And>nm b s. b \<in> B \<Longrightarrow> safe N (at_work A B) (fn nm b s)" and "snd ` set bs \<subseteq> B"
  shows "safe N (at_work A B) (forEach_loop (builders A D) fn bs merr s)"
  using assms(2)
proof (induction bs arbitrary: merr s)
  case Nil
  then show ?case by (simp only: forEach_loop.simps safe_ret)
next
  case (Cons k bs)
  then have "snd k \<in> B" "snd ` set bs \<subseteq> B" by auto
  then show ?case
    by (cases k, hypsubst, unfold forEach_loop.simps prod.case_eq_if) (intro calm_intros assms(1) Cons.IH; simp)
qed

lemma safe_PruneImages [calm_intros]:
  assumes "members_in f B"
  shows "safe N (at_work A B) (Farm_PruneImages (builders A D) f options)"
  unfolding Farm_PruneImages_def forEach_def prod.case_eq_if
  by (intro calm_intros safe_forEach_loop assms) (unfold prune_member_def, intro calm_intros)

section \<open>The list builders\<close>

lemma safe_rm_targets:
  assumes "snd ` set images \<subseteq> B"
  shows "calm N (at_work A B) (rm_targets (builders A D) images) (\<lambda>ts. set ts \<subseteq> set images \<and> (distinct images \<longrightarrow> distinct ts))"
  using assms
proof (induction images)
  case (Cons x images)
  obtain img engine where x: "x = (img, engine)" by fastforce
  with Cons.prems have B: "engine \<in> B" "snd ` set images \<subseteq> B" by auto
  show ?case
    unfolding x rm_targets.simps
    by (rule calm_io_bind [OF safe_builders(1) [OF B(1)]], rule calm_io_bind [OF Cons.IH [OF B(2)]], rule calm_ret) auto
qed (simp add: calm_ret)

lemma safe_remove_images [calm_intros]:
  "snd ` set images \<subseteq> B \<Longrightarrow> safe True (at_work A B) (remove_images (builders A D) evs images)"
  unfolding remove_images_def prod.case_eq_if by (intro calm_intros)

lemma safe_pull_groups [calm_intros]:
  assumes "snd ` set images \<subseteq> B"
  shows "safe True (at_work A B) (fork_join (pull_local_body (builders A D) e) images evs m)"
    "safe True (at_work A B) (fork_join (pull_file_body (builders A D) (list_calls L) d) images evs1 s)"
proof -
  show "safe True (at_work A B) (fork_join (pull_local_body (builders A D) e) images evs m)"
    using assms
    by (intro safe_plain_group; auto simp: pull_local_body_def simp del: builders_simps intro!: calm_intros)
  have "calm True (at_work A B) (pull_file_spawn (list_calls L) d k) (okay (\<lambda>g. snd (fst g) \<in> B))" if "k \<in> set images" for k
    unfolding pull_file_spawn_def list_calls_sel
    by (rule calm_try_bind [where P = "\<lambda>_. True"], rule calm_weaken [OF safe_ext(2)])
       (use assms that in \<open>auto simp: okay_def intro!: calm_ret\<close>)
  then show "safe True (at_work A B) (fork_join (pull_file_body (builders A D) (list_calls L) d) images evs1 s)"
    by (intro calm_safe [OF calm_fork_join [where G = "\<lambda>g. snd (fst g) \<in> B" and P = "\<lambda>_ _. True" and S = "\<lambda>_. True"]])
       (auto simp: pull_file_body_def pull_file_call_def simp del: builders_simps intro!: calm_intros)
qed

lemma safe_ListBuilder_Build [calm_intros]:
  assumes "snd ` set images \<subseteq> B"
  shows "safe True (at_work A B) (ListBuilder_Build (builders A D) (list_calls L) ch lb images)"
proof -
  have rm: "safe True (at_work A B) (io_bind (rm_targets (builders A D) images) (remove_images (builders A D) evs))" for evs
    by (rule calm_io_bind [OF safe_rm_targets [OF assms]], rule safe_remove_images) (use assms in blast)
  show ?thesis
    unfolding ListBuilder_Build_def listFiles_Build_def files_assemble_def listLocal_Build_def local_assemble_def
      find_list_def list_calls_sel Let_def prod.case_eq_if
    by (cases lb) (simp_all only: list_builder.case, (intro calm_intros rm assms)+)
qed

section \<open>Builds\<close>

lemma per_arch_distinct: "distinct (per_arch_builds results)"
proof -
  have "wf_map (fold (\<lambda>(_, report, builder) m. mput report builder m) results m)" if "wf_map m" for m
    using that by (induction results arbitrary: m) auto
  then show ?thesis by (simp add: per_arch_builds_def wf_map_distinct)
qed

lemma build_jobs_members:
  assumes "build_jobs norm bs pbs jobs0 = Inr jobs" and "snd ` set bs \<subseteq> B" and "\<forall>j\<in>snd ` set jobs0. job_builder j \<in> B"
  shows "\<forall>j\<in>snd ` set jobs. job_builder j \<in> B"
  using assms
proof (induction norm bs pbs jobs0 rule: build_jobs.induct)
  case (2 norm bs pf nm rest jobs0)
  then obtain b where b: "map_of bs nm = Some b" by (auto split: option.splits)
  with 2(3) have "b \<in> B" by (force dest: map_of_SomeD)
  then have "\<forall>j\<in>snd ` set (mput nm (make_job norm pf b) jobs0). job_builder j \<in> B"
    using 2(4) by (auto simp: make_job_def split: prod.splits dest!: mput_in)
  with 2 b show ?case by simp
qed simp

lemma per_arch_members:
  assumes "\<forall>v\<in>set results. snd (snd v) \<in> B"
  shows "snd ` set (per_arch_builds results) \<subseteq> B"
proof -
  have "snd ` set (fold (\<lambda>(_, report, builder) m. mput report builder m) results m) \<subseteq> B" if "snd ` set m \<subseteq> B" for m
    using assms that
  proof (induction results arbitrary: m)
    case (Cons r results)
    obtain pf rep b where r: "r = (pf, rep, b)" by (metis prod.exhaust)
    with Cons.prems have "snd ` set (mput rep b m) \<subseteq> B" by (auto dest!: mput_in)
    then show ?case using Cons by (simp add: r)
  qed simp
  then show ?thesis by (simp add: per_arch_builds_def)
qed

lemma build_call_members:
  assumes "\<forall>j\<in>snd ` set jobs. job_builder j \<in> B"
  shows "calm N (at_work A B) (build_call (builders A D) jobs files options k) (okay (\<lambda>v. snd v \<in> B))"
proof (cases "map_of jobs (snd k)")
  case (Some j)
  then have "job_builder j \<in> B" using assms by (force dest: map_of_SomeD)
  then show ?thesis
    unfolding build_call_def prod.case_eq_if Some option.case
    by (intro calm_try_bind [where P = "\<lambda>_. True"] calm_weaken [OF safe_wrap_err [OF safe_builders(6)]])
       (auto intro!: calm_ret)
qed (auto simp: build_call_def prod.case_eq_if intro!: calm_ret)

lemma build_body_sel:
  "spawn (build_body ops jobs files options) = plain_spawn" "call (build_body ops jobs files options) = build_call ops jobs files options"
  by (simp_all add: build_body_def)

lemma build_commit_members:
  assumes "okay (\<lambda>v. snd v \<in> B) r" and "\<forall>v\<in>set m. snd (snd v) \<in> B"
  shows "\<forall>v\<in>set (fst (commit (build_body ops jobs files options) k r m)). snd (snd v) \<in> B"
  using assms by (cases r) (auto dest!: mput_in)

lemma safe_run_builds:
  assumes jobs: "\<forall>j\<in>snd ` set jobs. job_builder j \<in> B" and range: "\<And>m. set (ch_results ch m) \<subseteq> set m"
  shows "safe True (at_work A B) (run_builds (builders A D) (list_calls L) ch jobs pbs files options lb)"
proof -
  have "calm True (at_work A B) (fork_join (build_body (builders A D) jobs files options) pbs evs [])
      (\<lambda>(_, _, _, results). \<forall>v\<in>set results. snd (snd v) \<in> B)" for evs
    by (rule calm_weaken, rule calm_fork_join [where G = "\<lambda>_. True" and P = "\<lambda>_. okay (\<lambda>v. snd v \<in> B)"
          and S = "\<lambda>m. \<forall>v\<in>set m. snd (snd v) \<in> B"])
       (simp_all add: build_body_sel plain_spawn_def calm_ret build_call_members [OF jobs] build_commit_members split: prod.splits)
  then show ?thesis
    unfolding run_builds_def
    by (rule calm_io_bind)
       (use range in \<open>fastforce split: option.splits intro!: calm_intros per_arch_members\<close>)
qed

lemma safe_Farm_Build [calm_intros]:
  assumes "members_in f B" and range: "\<And>m. set (ch_results ch m) \<subseteq> set m"
  shows "safe True (at_work A B) (Farm_Build (builders A D) (list_calls L) norm f ch ref s files options)"
proof (cases "build_jobs norm (farm_builders f) (platformBuilders s) []")
  case (Inr jobs)
  have "\<forall>j\<in>snd ` set jobs. job_builder j \<in> B" using build_jobs_members [OF Inr assms(1)] by simp
  note runs = safe_run_builds [OF this range]
  show ?thesis
    unfolding Farm_Build_def Inr sum.case Let_def choose_list_builder_def NewPodmanLocalListBuilder_def list_calls_sel
    by (intro calm_intros runs)
qed (auto simp: Farm_Build_def Let_def calm_ret split: sum.splits)

end
