(* ===== verification/No_Panic.thy ===== *)
theory No_Panic
  imports Members_At_Work Command_Cleanup
begin

text \<open>
  A run of the program does not panic where the detection of emulation returns: its farm has been
  made by the run itself, so every remote member has its connection until the hook closes it, and
  the arguments of \<open>build\<close> have been counted before the first is read.
\<close>

section \<open>New farms\<close>

lemma safe_constructors:
  "safe N (\<lambda>_. c) (NewPodmanRemoteImageBuilder A flags dest)" "safe N (\<lambda>_. c) (NewPodmanLocalImageBuilder A flags so)"
  unfolding NewPodmanRemoteImageBuilder_def NewPodmanLocalImageBuilder_def connect_def Let_def
  by (intro calm_intros)+

lemma safe_alloc: "safe N (\<lambda>_. c) m \<Longrightarrow> safe N (\<lambda>_. c) (alloc mk m)"
  by (auto simp: calm_def alloc_def split: prod.splits outcome.splits sum.splits) (metis fst_conv prod.exhaust)+

lemma safe_outside_io [calm_intros]: "safe N (\<lambda>_. c) (ext_io m)"
  by (simp add: calm_def ext_io_def prod.case_eq_if)

lemma safe_newFarm [calm_intros]: "safe True (\<lambda>_. c) (newFarmWithBuilders A sel so flags evs)"
proof -
  have "safe True (\<lambda>_. c) (fork_join (new_farm_body A fl so) ns evs s)" for fl ns s
    by (rule safe_plain_group; simp add: new_farm_body_def node_call_def safe_alloc safe_constructors split: node.splits)
  then show ?thesis unfolding newFarmWithBuilders_def Let_def prod.case_eq_if by (intro calm_intros)
qed

section \<open>Commands\<close>

text \<open>The world of the farm has the members at work, whatever the variables of the package are.\<close>

abbreviation (input) running :: "'x podman_api \<Rightarrow> builder set \<Rightarrow> 'x cli \<Rightarrow> bool" where
  "running A B \<equiv> \<lambda>c. at_work A B (cl_world c)"

lemma safe_on_farm [calm_intros]:
  "safe N (at_work A B) m \<Longrightarrow> safe N (running A B) (on_farm m)" "safe N (\<lambda>_. d) m' \<Longrightarrow> safe N (\<lambda>_. d) (on_farm m')"
  by (simp_all add: calm_def on_farm_def prod.case_eq_if)

lemma safe_globals [calm_intros]: "safe N I globals"
  by (simp add: calm_def globals_def)

lemma safe_assign [calm_intros]: "(\<And>c. cl_world (f c) = cl_world c) \<Longrightarrow> safe N (running A B) (assign f)" "safe N (\<lambda>_. d) (assign f)"
  by (simp_all add: calm_def assign_def)

lemma safe_print [calm_intros]: "safe N (running A B) (print_out items)"
  unfolding print_out_def by (intro calm_intros) simp

lemma safe_name_farm [calm_intros]: "safe N (\<lambda>_. d) (name_farm args)"
  unfolding name_farm_def by (cases args) (auto intro: calm_intros)

lemma safe_getFarm [calm_intros]: "safe True (\<lambda>_. d) (getFarm A ch)"
  unfolding getFarm_def NewAdHocFarm_def NewFarm_def NewDefaultFarm_def by (intro calm_intros)

lemma safe_use_farm [calm_intros]: "safe True (\<lambda>_. d) (use_farm A ch)"
  unfolding use_farm_def by (intro calm_intros)

lemma fresh_at_work:
  assumes "fresh_farm f w" and "detects A"
  shows "at_work A (snd ` set (farm_builders f)) w"
  unfolding at_work_def
proof (intro conjI ballI assms(2))
  fix b
  assume "b \<in> snd ` set (farm_builders f)"
  then obtain n where "built_for n (heap w ! b)" "is_builder w b"
    using assms(1) by (auto simp: fresh_farm_def members_ok_def)
  then show "is_builder w b" "usable (heap w ! b)"
    by (auto simp: built_for_def usable_def remote_usable_def split: builder_object.splits)
qed

text \<open>What a command does with its new farm runs with the farm's members at work.\<close>

lemma safe_with_farm:
  assumes ok: "config_ok A" and rest: "\<And>f. safe True (running A (snd ` set (farm_builders f))) (rest f)"
  shows "safe True (\<lambda>_. detects A) (try_bind (use_farm A ch) rest)"
proof (rule calm_waitI)
  fix c r c'
  assume det: "detects A" and run: "try_bind (use_farm A ch) rest c = (r, c')"
  obtain o1 c1 where use: "use_farm A ch c = (o1, c1)" by fastforce
  note first = calmD [OF safe_use_farm [where d = True] TrueI use]
  have "r \<noteq> Panic s" for s
  proof (cases o1)
    case (Ret v)
    show ?thesis
    proof (cases v)
      case (Inr f)
      have "running A (snd ` set (farm_builders f)) c1"
        using fresh_at_work [OF _ det] use_farm_Inr [OF use [unfolded Ret Inr] ok] by blast
      from calmD [OF rest this] run use Ret Inr show ?thesis by (simp add: try_bind_def)
    qed (use run use Ret in \<open>auto simp: try_bind_def\<close>)
  qed (use run use first in \<open>auto simp: try_bind_def\<close>)
  with det show "detects A \<and> (\<forall>s. r \<noteq> Panic s) \<and> (\<forall>a. r = Ret a \<longrightarrow> True)" by simp
qed

lemma safe_build_steps [calm_intros]:
  "args \<noteq> [] \<Longrightarrow> safe N (\<lambda>_. d) (build_context C args)" "safe N (\<lambda>_. d) (build_flags C)" "safe N (\<lambda>_. d) (find_dockerfile C)"
proof -
  have path: "safe N (\<lambda>_. d) (path_Abs C p)" for p unfolding path_Abs_def by (intro calm_intros)
  show "safe N (\<lambda>_. d) (build_context C args)" if "args \<noteq> []"
  proof -
    obtain dir rest where "args = dir # rest" using \<open>args \<noteq> []\<close> by (meson list.exhaust)
    then show ?thesis
      unfolding build_context_def set_options_def by (simp only: list.case) (intro calm_intros path)
  qed
  show "safe N (\<lambda>_. d) (build_flags C)" "safe N (\<lambda>_. d) (find_dockerfile C)"
    unfolding build_flags_def find_dockerfile_def set_options_def stop_on_def Let_def prod.case_eq_if
    by (intro calm_intros path)+
qed

lemma safe_run_command:
  assumes "config_ok A" and "ValidateArgs cmd args = None" and "\<And>m. set (ch_results (rc_build ch) m) \<subseteq> set m"
  shows "safe True (\<lambda>_. detects A) (run_command A D L norm C ch cmd args)"
proof -
  note rules = calm_intros safe_with_farm assms(1,3) subset_refl
  have "args \<noteq> [] \<Longrightarrow> safe True (\<lambda>_. detects A) (buildCmd A D L norm C ch args)"
    unfolding buildCmd_def by (intro rules)
  moreover have "cmd = BuildCommand \<Longrightarrow> args \<noteq> []"
    using assms(2) by (auto simp: ValidateArgs_def)
  moreover have "safe True (\<lambda>_. detects A) (statusCmd A D ch args)"
    unfolding statusCmd_def prod.case_eq_if by (intro rules)
  moreover have "safe True (\<lambda>_. detects A) (platformsCmd A D ch args)"
    unfolding platformsCmd_def by (intro rules)
  moreover have "safe True (\<lambda>_. detects A) (pruneCmd A D ch args)"
    unfolding pruneCmd_def prod.case_eq_if by (intro rules)
  ultimately show ?thesis unfolding run_command_def by (cases cmd) simp_all
qed

section \<open>A whole run\<close>

lemma safe_store_hooks [calm_intros]:
  "safe N (\<lambda>_. d) (init_store C)" "safe N (\<lambda>_. d) (before A C)" "safe N (\<lambda>_. d) (storeAfter C)" "safe N (\<lambda>_. d) storeAfter_other"
  unfolding init_store_def before_def storeBefore_def storeBefore_other_def storeAfter_def storeAfter_other_def
  by (intro calm_intros)+

lemma after_farm:
  assumes "cl_farm c = Some f" and "members_ok is_builder f (cl_world c)"
  shows "after A D C c = try_bind (if pa_linux A then storeAfter C else storeAfter_other) (\<lambda>_. ret (Inr ()))
    (c\<lparr>cl_world := close_all A (farm_builders f) (cl_world c)\<rparr>)"
proof -
  have "on_farm (Farm_Done (builders A D) f) c = (Ret None, c\<lparr>cl_world := close_all A (farm_builders f) (cl_world c)\<rparr>)"
    by (simp add: on_farm_def Farm_Done_eq [OF assms(2)])
  then show ?thesis by (simp add: after_def assms(1) try_bind_def)
qed

lemma after_no_panic:
  assumes "cl_farm c = Some f" and "members_ok is_builder f (cl_world c)"
  shows "fst (after A D C c) \<noteq> Panic m"
proof -
  have "safe True (\<lambda>_. True) (try_bind (if pa_linux A then storeAfter C else storeAfter_other) (\<lambda>_. ret (Inr ())))"
    by (intro calm_intros)
  then show ?thesis unfolding after_farm [OF assms] by (simp add: calm_def)
qed

lemma Execute_no_panic:
  assumes "config_ok A" and "detects A" and "\<And>m. set (ch_results (rc_build ch) m) \<subseteq> set m"
  shows "fst (Execute A D L norm C ch cmd args c) \<noteq> Panic m"
proof (cases "ValidateArgs cmd args")
  case None
  obtain o1 c0 where b: "before A C c = (o1, c0)" by fastforce
  obtain o2 c1 where r: "run_command A D L norm C ch cmd args c0 = (o2, c1)" by fastforce
  note first = calmD [OF safe_store_hooks(2) [where d = True] TrueI b]
    and second = calmD [OF safe_run_command [OF assms(1) None assms(3)] assms(2) r]
  show ?thesis
  proof (cases "o1 = Ret (Inr ()) \<and> o2 = Ret (Inr ())")
    case True
    then obtain f where "cl_farm c1 = Some f" "members_ok is_builder f (cl_world c1)"
      using run_command_members [OF _ assms(1)] r by blast
    from after_no_panic [OF this] True b r None show ?thesis
      by (simp add: Execute_def cobra_execute_def try_bind_def)
  qed (use first second b r None in
      \<open>auto simp: Execute_def cobra_execute_def try_bind_def io_bind_def split: outcome.splits sum.splits\<close>)
qed (simp add: Execute_def cobra_execute_def)

text \<open>
  C15. A run of the program does not panic, whatever the command, the arguments, the options and the
  interleaving of its goroutines, when the detection of emulation does not (see \<open>detection_returns\<close>):
  no method reads a connection that is missing, and no argument is read that was not given.
\<close>

theorem program_never_panics:
  assumes "config_ok A" and "detects A" and "\<And>m. set (ch_results (rc_build ch) m) \<subseteq> set m"
  shows "fst (program A D L norm C ch cmd args c) \<noteq> Panic m"
proof -
  obtain o1 c0 where init: "(if pa_linux A then init_store C else ret (Inr ())) c = (o1, c0)" by fastforce
  have "safe True (\<lambda>_. True) (if pa_linux A then init_store C else ret (Inr ()))" by (intro calm_intros)
  from calmD [OF this TrueI init] Execute_no_panic [OF assms, of D L norm C cmd args c0 m] init show ?thesis
    by (auto simp: program_def main_def io_bind_def split: prod.splits outcome.splits sum.splits)
qed

theorem program_never_panics_witness:
  "fst (program sample_podman sample_docker sample_lists sample_norm sample_cli sample_run BuildCommand [''src''] sample_start)
     \<noteq> Panic nil_deref"
proof (rule program_never_panics [OF sample_config_ok(1)])
  show "detects sample_podman" by (simp add: detects_def sample_podman_def)
  show "set (ch_results (rc_build sample_run) m) \<subseteq> set m" for m
    by (simp add: sample_run_def sample_choices_def)
qed

end
