(* ===== verification/Run_Ends.thy ===== *)
theory Run_Ends
  imports Completion No_Panic
begin

text \<open>
  A run of the program can always come to its end: whatever the outside answers and in whatever
  order maps are visited, there are interleavings of the goroutines on which the run returns an exit
  code. The groups' keys are different, and every method of a member at work returns.
\<close>

section \<open>Queries\<close>

lemma completes_query_group:
  assumes "spawn Bd = plain_spawn" and "\<And>k. k \<in> set ks \<Longrightarrow> safe False I (call Bd k)" and "distinct ks"
  shows "completes I (\<lambda>evs. fork_join Bd ks evs s0) (\<lambda>_. True)"
  by (rule completes_weaken, rule completes_plain_group [where P = "\<lambda>_ _. True" and S = "\<lambda>_. True"])
     (use assms in simp_all)

lemma completes_queries:
  assumes "members_in f B" and "wf_map (farm_builders f)"
  shows "completes (at_work A B) (Farm_Status (builders A D) f) (\<lambda>_. True)"
    "completes (at_work A B) (Farm_NativePlatforms (builders A D) f) (okay (\<lambda>_. True))"
    "completes (at_work A B) (Farm_EmulatedPlatforms (builders A D) f) (okay (\<lambda>_. True))"
proof -
  note d = wf_map_distinct [OF assms(2)]
  have "completes (at_work A B) (\<lambda>evs. fork_join (status_body (builders A D)) (farm_builders f) evs []) (\<lambda>_. True)"
    by (rule completes_query_group)
       (use assms(1) d in \<open>auto simp: status_body_def simp del: builders_simps intro!: calm_intros\<close>)
  then show "completes (at_work A B) (Farm_Status (builders A D) f) (\<lambda>_. True)"
    unfolding Farm_Status_def prod.case_eq_if by (rule completes_first) (intro calm_intros)
  have "completes (at_work A B) (\<lambda>evs. fork_join (platforms_body q) (farm_builders f) evs []) (\<lambda>_. True)"
    if "\<And>b. b \<in> B \<Longrightarrow> safe False (at_work A B) (q b)" for q
    by (rule completes_query_group) (use assms(1) d that in \<open>auto simp: platforms_body_def\<close>)
  then have "completes (at_work A B) (collect_platforms q f) (okay (\<lambda>_. True))"
    if "\<And>b. b \<in> B \<Longrightarrow> safe False (at_work A B) (q b)" for q
    unfolding collect_platforms_def prod.case_eq_if
    by (rule completes_first) (use that in \<open>auto simp: okay_def intro!: calm_ret split: option.splits\<close>)
  then show "completes (at_work A B) (Farm_NativePlatforms (builders A D) f) (okay (\<lambda>_. True))"
    "completes (at_work A B) (Farm_EmulatedPlatforms (builders A D) f) (okay (\<lambda>_. True))"
    unfolding Farm_NativePlatforms_def Farm_EmulatedPlatforms_def by (simp_all del: builders_simps add: safe_builders)
qed

lemma finish_schedule_wf: "okay (\<lambda>s. wf_map (platformBuilders s)) (finish_schedule errs ne targets)"
  using assign_platforms_Inr [of ne targets "[]"]
  by (auto simp: okay_def finish_schedule_def split: option.splits sum.splits)

lemma completes_Schedule:
  assumes "members_in f B" and "wf_map (farm_builders f)"
  shows "completes (at_work A B) (\<lambda>c. Farm_Schedule (builders A D) f ps (fst c) (snd c)) (okay (\<lambda>s. wf_map (platformBuilders s)))"
proof -
  have targets: "completes (at_work A B) (target_platforms (builders A D) f ps) (okay (\<lambda>_. True))"
    unfolding target_platforms_def
    by (intro completes_if completes_wrap_err completes_queries assms completes_ret) simp
  have "completes (at_work A B) (\<lambda>evs. fork_join (schedule_body (builders A D)) (farm_builders f) evs ([], [])) (\<lambda>_. True)"
    by (rule completes_query_group)
       (use assms(1) wf_map_distinct [OF assms(2)] in
         \<open>auto simp: schedule_body_def simp del: builders_simps intro!: calm_intros\<close>)
  then have "completes (at_work A B) (\<lambda>evs. io_bind (fork_join (schedule_body (builders A D)) (farm_builders f) evs ([], []))
      (\<lambda>(_, _, errs, ne). ret (finish_schedule errs ne qs))) (okay (\<lambda>s. wf_map (platformBuilders s)))" for qs
    unfolding prod.case_eq_if by (rule completes_first) (intro calm_ret finish_schedule_wf)
  then show ?thesis unfolding Farm_Schedule_def by (rule completes_try_both [OF targets])
qed

section \<open>List builders\<close>

lemma completes_remove_images:
  assumes "snd ` set images \<subseteq> B" and "distinct images"
  shows "completes (at_work A B) (\<lambda>evs. remove_images (builders A D) evs images) (okay (\<lambda>_. True))"
proof -
  have "completes (at_work A B) (\<lambda>evs. fork_join (rm_body (builders A D)) images evs ()) (\<lambda>_. True)"
    by (rule completes_query_group)
       (use assms in \<open>auto simp: rm_body_def simp del: builders_simps intro!: calm_intros\<close>)
  then show ?thesis
    unfolding remove_images_def prod.case_eq_if
    by (rule completes_first) (auto simp: okay_def intro!: calm_ret split: option.splits)
qed

lemma completes_pull_groups:
  assumes "snd ` set images \<subseteq> B" and "distinct images"
  shows "completes (at_work A B) (\<lambda>evs. fork_join (pull_local_body (builders A D) e) images evs m) (\<lambda>_. True)"
    "completes (at_work A B) (\<lambda>evs. fork_join (pull_file_body (builders A D) (list_calls L) d) images evs s) (\<lambda>_. True)"
proof -
  show "completes (at_work A B) (\<lambda>evs. fork_join (pull_local_body (builders A D) e) images evs m) (\<lambda>_. True)"
    by (rule completes_query_group)
       (use assms in \<open>auto simp: pull_local_body_def simp del: builders_simps intro!: calm_intros\<close>)
  have "calm False (at_work A B) (pull_file_spawn (list_calls L) d k) (okay (\<lambda>g. fst g = k))" for k
    unfolding pull_file_spawn_def list_calls_sel
    by (rule calm_try_bind [where P = "\<lambda>_. True"], rule calm_weaken [OF safe_ext(2)]) (auto simp: okay_def intro!: calm_ret)
  then show "completes (at_work A B) (\<lambda>evs. fork_join (pull_file_body (builders A D) (list_calls L) d) images evs s) (\<lambda>_. True)"
    by (intro completes_weaken [OF completes_fork_join [where Gen = "\<lambda>k g. fst g = k" and P = "\<lambda>_ _. True" and S = "\<lambda>_. True"]])
       (use assms in \<open>auto simp: pull_file_body_def pull_file_call_def simp del: builders_simps intro!: calm_intros\<close>)
qed

lemma safe_okay: "safe N I m \<Longrightarrow> calm N I m (okay (\<lambda>_. True))"
  by (erule calm_weaken) simp

lemma completes_listFiles:
  assumes "snd ` set images \<subseteq> B" and "distinct images"
  shows "completes (at_work A B) (\<lambda>c. listFiles_Build (builders A D) (list_calls L) m (fst c) (snd c) order images) (okay (\<lambda>_. True))"
proof -
  note removing = completes_if [OF completes_remove_images [OF assms] completes_ret]
  have assemble: "safe False (at_work A B) (files_assemble (list_calls L) m order h d r out lst s)" for h d r out lst s
    unfolding files_assemble_def list_calls_sel Let_def prod.case_eq_if by (intro calm_intros)
  show ?thesis
    unfolding listFiles_Build_def Let_def prod.case_eq_if list_calls_sel
    by (rule completes_try_then [OF safe_okay] completes_then [OF safe_ext(2)] completes_both [OF completes_pull_groups(2) [OF assms]]
        completes_try_first [OF removing] completes_defer completes_case_sum completes_case_option completes_ret
        safe_okay [OF assemble] safe_ext | simp)+
qed

lemma completes_listLocal:
  assumes "snd ` set images \<subseteq> B" and "distinct images"
  shows "completes (at_work A B) (\<lambda>c. listLocal_Build (builders A D) (list_calls L) l (fst c) (snd c) order images) (okay (\<lambda>_. True))"
proof -
  have "completes (at_work A B) (\<lambda>evs. io_bind (rm_targets (builders A D) images) (\<lambda>ts. remove_images (builders A D) evs ts)) (okay (\<lambda>_. True))"
    by (rule completes_then [OF safe_rm_targets [OF assms(1)]], rule completes_remove_images) (use assms in auto)
  note removing = completes_if [OF this completes_ret]
  have assemble: "safe False (at_work A B) (local_assemble (list_calls L) l order h refs)" for h refs
    unfolding local_assemble_def list_calls_sel by (intro calm_intros)
  have find: "safe False (at_work A B) (find_list (list_calls L) h s)" for h s
    unfolding find_list_def list_calls_sel by (intro calm_intros)
  show ?thesis
    unfolding listLocal_Build_def Let_def prod.case_eq_if list_calls_sel
    by (rule completes_try_then [OF safe_okay] completes_both [OF completes_pull_groups(1) [OF assms]]
        completes_try_first [OF removing] completes_defer completes_case_option completes_ret
        safe_okay [OF assemble] find safe_wrap_err safe_ext | simp)+
qed

lemma completes_ListBuilder:
  assumes "snd ` set images \<subseteq> B" and "distinct images"
  shows "completes (at_work A B) (\<lambda>c. ListBuilder_Build (builders A D) (list_calls L)
      (ch\<lparr>ch_pull_files := fst c, ch_pull_local := fst (snd c), ch_rm := snd (snd c)\<rparr>) lb images) (okay (\<lambda>_. True))"
proof (cases lb)
  case (FilesList m)
  have "\<exists>d :: (_ \<times> 'c list \<times> _). (fst d, snd (snd d)) = c" for c :: "_ \<times> _" by (metis fst_conv snd_conv prod.collapse)
  from completes_part [OF completes_listFiles [OF assms] this] show ?thesis
    by (simp add: FilesList ListBuilder_Build_def)
next
  case (LocalList l)
  have "\<exists>d. snd d = c" for c :: "_ \<times> _" by (metis snd_conv)
  from completes_part [OF completes_listLocal [OF assms] this] show ?thesis
    by (simp add: LocalList ListBuilder_Build_def)
qed

section \<open>Builds\<close>

text \<open>The interleavings of a build, with the orders of \<open>ch\<close>.\<close>

definition build_events :: "'b choices \<Rightarrow> (string \<times> string) event list \<times> ((BuildReport \<times> 'b) \<times> string) event list \<times>
    (BuildReport \<times> 'b) event list \<times> (BuildReport \<times> 'b) event list \<Rightarrow> 'b choices" where
  "build_events ch c = ch\<lparr>ch_builds := fst c, ch_pull_files := fst (snd c), ch_pull_local := fst (snd (snd c)),
     ch_rm := snd (snd (snd c))\<rparr>"

lemma completes_builds:
  assumes jobs: "\<forall>j\<in>snd ` set jobs. job_builder j \<in> B" and "distinct pbs"
  shows "completes (at_work A B) (\<lambda>evs. fork_join (build_body (builders A D) jobs files options) pbs evs [])
    (\<lambda>(_, _, _, results). \<forall>v\<in>set results. snd (snd v) \<in> B)"
  by (rule completes_plain_group [where P = "\<lambda>_. okay (\<lambda>v. snd v \<in> B)"])
     (simp_all add: build_body_sel assms(2) build_call_members [OF jobs] build_commit_members)

text \<open>What is left after the builds, of which the outcome is \<open>x\<close>.\<close>

definition after_builds :: "('b, 'w) ImageBuilder \<Rightarrow> 'w list_api \<Rightarrow> 'b choices \<Rightarrow> list_builder \<Rightarrow>
    error option \<times> (string \<times> string) list \<times> error list \<times> (string \<times> BuildReport \<times> 'b) list \<Rightarrow> ('w, unit) ioe" where
  "after_builds ops L ch lb x = (case x of (_, _, errs, results) \<Rightarrow>
     case error_or_nil errs of
       Some err \<Rightarrow> ret (Inl (WrapE ''building: %w'' [] err))
     | None \<Rightarrow> try_bind (ListBuilder_Build ops L ch lb (per_arch_builds (ch_results ch results))) (\<lambda>location. ret (Inr ())))"

lemma run_builds_tail:
  "run_builds ops L ch jobs pbs files options lb =
     io_bind (fork_join (build_body ops jobs files options) pbs (ch_builds ch) []) (after_builds ops L ch lb)"
  by (simp add: run_builds_def after_builds_def [abs_def])

lemma build_events_results: "ch_results (build_events ch c) = ch_results ch"
  by (simp add: build_events_def)

lemma run_builds_after:
  "run_builds ops L (build_events ch (evs, d)) jobs pbs files options lb =
     io_bind (fork_join (build_body ops jobs files options) pbs evs []) (after_builds ops L (build_events ch ([], d)) lb)"
proof -
  have "ListBuilder_Build ops L (build_events ch (evs, d)) lb = ListBuilder_Build ops L (build_events ch ([], d)) lb"
    by (cases lb) (simp_all add: fun_eq_iff ListBuilder_Build_def build_events_def)
  then have "after_builds ops L (build_events ch (evs, d)) lb = after_builds ops L (build_events ch ([], d)) lb"
    by (intro ext) (simp only: after_builds_def build_events_results)
  moreover have "run_builds ops L (build_events ch (evs, d)) jobs pbs files options lb =
     io_bind (fork_join (build_body ops jobs files options) pbs evs []) (after_builds ops L (build_events ch (evs, d)) lb)"
    by (simp add: run_builds_tail) (simp add: build_events_def)
  ultimately show ?thesis by simp
qed

lemma completes_after_builds:
  assumes "case x of (_, _, _, results) \<Rightarrow> \<forall>v\<in>set results. snd (snd v) \<in> B"
    and range: "\<And>m. set (ch_results ch m) \<subseteq> set m"
  shows "completes (at_work A B) (\<lambda>d. after_builds (builders A D) (list_calls L) (build_events ch ([], d)) lb x) (okay (\<lambda>_. True))"
proof -
  have lists: "completes (at_work A B) (\<lambda>c. ListBuilder_Build (builders A D) (list_calls L) (build_events ch ([], c)) lb
      (per_arch_builds (ch_results ch results))) (okay (\<lambda>_. True))"
    if "\<forall>v\<in>set results. snd (snd v) \<in> B" for results
    using completes_ListBuilder [OF per_arch_members per_arch_distinct, of "ch_results ch results" B] that range
    unfolding build_events_def by simp blast
  from assms(1) show ?thesis
    unfolding after_builds_def build_events_results
    by (cases x) (simp, auto intro!: completes_case_option completes_ret completes_try_first [OF lists] calm_ret)
qed

lemma completes_run_builds:
  assumes jobs: "\<forall>j\<in>snd ` set jobs. job_builder j \<in> B" and "distinct pbs" and range: "\<And>m. set (ch_results ch m) \<subseteq> set m"
  shows "completes (at_work A B)
    (\<lambda>c. run_builds (builders A D) (list_calls L) (build_events ch c) jobs pbs files options lb) (okay (\<lambda>_. True))"
proof -
  have eq: "run_builds (builders A D) (list_calls L) (build_events ch c) jobs pbs files options lb =
      io_bind (fork_join (build_body (builders A D) jobs files options) pbs (fst c) [])
        (after_builds (builders A D) (list_calls L) (build_events ch ([], snd c)) lb)" for c
    by (cases c) (simp only: run_builds_after fst_conv snd_conv)
  show ?thesis
    unfolding eq
    by (rule completes_both [where f = "\<lambda>d. after_builds (builders A D) (list_calls L) (build_events ch ([], d)) lb",
          OF completes_builds [OF assms(1,2)] completes_after_builds [OF _ range]])
qed

lemma completes_Farm_Build:
  assumes "members_in f B" and "wf_map (platformBuilders s)" and range: "\<And>m. set (ch_results ch m) \<subseteq> set m"
  shows "completes (at_work A B)
    (\<lambda>c. Farm_Build (builders A D) (list_calls L) norm f (build_events ch c) ref s files options) (okay (\<lambda>_. True))"
proof (cases "build_jobs norm (farm_builders f) (platformBuilders s) []")
  case (Inr jobs)
  have "\<forall>j\<in>snd ` set jobs. job_builder j \<in> B" using build_jobs_members [OF Inr assms(1)] by simp
  note runs = completes_run_builds [OF this wf_map_distinct [OF assms(2)] range]
  show ?thesis
    unfolding Farm_Build_def Inr sum.case Let_def choose_list_builder_def NewPodmanLocalListBuilder_def list_calls_sel
    by (rule completes_case_sum, rule completes_ret, simp)
       (intro completes_try_then [OF safe_okay] calm_intros runs)
qed (auto simp: Farm_Build_def Let_def intro!: completes_ret completes_case_sum)

section \<open>New farms\<close>

lemma completes_newFarm:
  assumes "config_ok A"
  shows "completes (\<lambda>_. d) (newFarmWithBuilders A sel so flags) (okay (\<lambda>_. True))"
proof -
  have "calm False (\<lambda>_. d) (ext_io (pa_ReadCustomConfig A)) (okay (\<lambda>c. wf_map (ServiceDestinations c)))"
    using assms by (auto simp: calm_def ext_io_def config_ok_def okay_def split: prod.splits)
  note config = calm_wrap_err [OF this]
  have group: "completes (\<lambda>_. d) (\<lambda>evs. fork_join (new_farm_body A fl so) (farm_nodes sel so custom) evs []) (\<lambda>_. True)"
    if "wf_map (ServiceDestinations custom)" for fl custom
    by (rule completes_query_group [OF _ _ farm_nodes_distinct [OF that]])
       (simp_all add: new_farm_body_def node_call_def safe_alloc safe_constructors split: node.splits)
  show ?thesis
    unfolding newFarmWithBuilders_def Let_def prod.case_eq_if
    by (rule completes_try_then [OF config], rule completes_first [OF group])
       (auto intro!: calm_ret split: option.splits)
qed

lemma completes_on_farm:
  fixes J :: "'x farm_world \<Rightarrow> bool"
  assumes "completes J m Q"
  shows "completes (\<lambda>c. J (cl_world c)) (\<lambda>e. on_farm (m e)) Q"
  unfolding completes_def
proof (intro allI impI)
  fix c :: "'x cli"
  assume "J (cl_world c)"
  with assms obtain e a w where "m e (cl_world c) = (Ret a, w)" "J w" "Q a" by (rule completesE)
  then show "\<exists>e a c'. on_farm (m e) c = (Ret a, c') \<and> J (cl_world c') \<and> Q a"
    by (intro exI [of _ e] exI [of _ a] exI [of _ "c\<lparr>cl_world := w\<rparr>"]) (simp add: on_farm_def)
qed

lemma completes_use_farm:
  assumes "config_ok A" and new: "\<And>evs. rc_new (mk evs) = evs"
  shows "completes (\<lambda>_. d) (\<lambda>evs. use_farm A (mk evs)) (okay (\<lambda>_. True))"
proof -
  have "completes (\<lambda>_. d) (\<lambda>evs. on_farm (newFarmWithBuilders A sel so None evs)) (okay (\<lambda>_. True))" for sel so
    by (rule completes_on_farm [OF completes_newFarm [OF assms(1)]])
  note farms = this [of "Some _"] this [of None]
  have "completes (\<lambda>_. d) (\<lambda>evs. getFarm A (mk evs)) (okay (\<lambda>_. True))"
    unfolding getFarm_def NewAdHocFarm_def NewFarm_def NewDefaultFarm_def new if_distrib [of on_farm]
    by (intro completes_then [OF safe_globals] completes_wrap_err completes_if farms completes_calm safe_okay calm_intros)
  then show ?thesis
    unfolding use_farm_def
    by (rule completes_try_first [OF completes_wrap_err]) (intro safe_okay calm_intros)
qed

lemma use_farm_cong: "rc_new ch = rc_new ch' \<Longrightarrow> use_farm A ch = use_farm A ch'"
  by (simp only: use_farm_def getFarm_def)

text \<open>A command makes its farm and goes on with the farm's members at work.\<close>

lemma completes_with_farm:
  assumes ok: "config_ok A" and new: "\<And>c. rc_new (mk c) = fst c"
    and rest: "\<And>f. wf_map (farm_builders f) \<Longrightarrow>
      completes (running A (snd ` set (farm_builders f))) (\<lambda>d. rest d f) (okay (\<lambda>_. True))"
  shows "completes (\<lambda>_. detects A) (\<lambda>c. try_bind (use_farm A (mk c)) (rest (snd c))) (okay (\<lambda>_. True))"
  unfolding completes_def
proof (intro allI impI)
  fix w :: "'a cli"
  assume det: "detects A"
  have same: "use_farm A (mk (evs, d)) = use_farm A (mk (evs, d'))" for evs d d'
    by (rule use_farm_cong) (simp add: new)
  have "completes (\<lambda>_. True) (\<lambda>evs. use_farm A (mk (evs, undefined))) (okay (\<lambda>_. True))"
    by (rule completes_use_farm [OF ok]) (simp add: new)
  then obtain evs v w1 where "use_farm A (mk (evs, undefined)) w = (Ret v, w1)" by (rule completesE) simp
  then have use: "use_farm A (mk (evs, d)) w = (Ret v, w1)" for d using same [of evs d undefined] by simp
  show "\<exists>c a w'. try_bind (use_farm A (mk c)) (rest (snd c)) w = (Ret a, w') \<and> detects A \<and> okay (\<lambda>_. True) a"
  proof (cases v)
    case (Inl e)
    with use det show ?thesis by (intro exI [of _ "(evs, undefined)"]) simp
  next
    case (Inr f)
    have "fresh_farm f (cl_world w1)" using use_farm_Inr [OF use [unfolded Inr] ok] by simp
    then have "wf_map (farm_builders f)" "running A (snd ` set (farm_builders f)) w1"
      using fresh_at_work [OF _ det] by (simp_all add: fresh_farm_def members_ok_def)
    from rest [OF this(1)] this(2) obtain d a w' where "rest d f w1 = (Ret a, w')" by (rule completesE)
    with use Inr det show ?thesis by (intro exI [of _ "(evs, d)"]) simp
  qed
qed

section \<open>Commands\<close>

text \<open>The interleavings of a run, with the orders of \<open>ch\<close>.\<close>

definition run_events where
  "run_events ch new native emulated status schedule b = ch\<lparr>rc_new := new, rc_native := native, rc_emulated := emulated,
     rc_status := status, rc_schedule := schedule, rc_build := build_events (rc_build ch) b\<rparr>"

lemma run_events_sel:
  "rc_new (run_events ch n1 n2 n3 n4 n5 b) = n1" "rc_native (run_events ch n1 n2 n3 n4 n5 b) = n2"
  "rc_emulated (run_events ch n1 n2 n3 n4 n5 b) = n3" "rc_status (run_events ch n1 n2 n3 n4 n5 b) = n4"
  "rc_schedule (run_events ch n1 n2 n3 n4 n5 b) = n5" "rc_reports (run_events ch n1 n2 n3 n4 n5 b) = rc_reports ch"
  "rc_build (run_events ch n1 n2 n3 n4 n5 b) = build_events (rc_build ch) b"
  by (simp_all add: run_events_def)

lemma completes_status:
  assumes "config_ok A"
  shows "completes (\<lambda>_. detects A) (\<lambda>c. statusCmd A D (run_events ch (fst c) [] [] (snd c) [] b) args) (okay (\<lambda>_. True))"
  unfolding statusCmd_def prod.case_eq_if run_events_sel
  by (rule completes_try_then [OF safe_okay [OF safe_name_farm]], rule completes_with_farm [OF assms], rule run_events_sel,
      rule completes_first [OF completes_on_farm [OF completes_queries(1)]])
     (auto intro!: safe_okay calm_intros)

lemma completes_platforms:
  assumes "config_ok A"
  shows "completes (\<lambda>_. detects A) (\<lambda>c. platformsCmd A D
    (run_events ch (fst c) (fst (snd c)) (snd (snd c)) [] [] b) args) (okay (\<lambda>_. True))"
  unfolding platformsCmd_def run_events_sel
  by (rule completes_try_then [OF safe_okay [OF safe_name_farm]], rule completes_with_farm [OF assms], rule run_events_sel,
      rule completes_try_both [OF completes_wrap_err [OF completes_on_farm [OF completes_queries(2)]]], rule subset_refl, assumption,
      rule completes_try_first [OF completes_wrap_err [OF completes_on_farm [OF completes_queries(3)]]])
     (auto intro!: safe_okay calm_intros)

lemma completes_prune:
  assumes "config_ok A"
  shows "completes (\<lambda>_. detects A) (\<lambda>c. pruneCmd A D (run_events ch (fst c) [] [] [] [] b) args) (okay (\<lambda>_. True))"
  unfolding pruneCmd_def prod.case_eq_if run_events_sel
  by (rule completes_try_then [OF safe_okay [OF safe_name_farm]], rule completes_with_farm [OF assms], rule run_events_sel,
      rule completes_calm, rule safe_okay)
     (intro calm_intros subset_refl)

lemma completes_build:
  assumes "config_ok A" and "args \<noteq> []" and range: "\<And>m. set (ch_results (rc_build ch) m) \<subseteq> set m"
  shows "completes (\<lambda>_. detects A) (\<lambda>c. buildCmd A D L norm C
    (run_events ch (fst c) (fst (fst (snd c))) [] [] (snd (fst (snd c))) (snd (snd c))) args) (okay (\<lambda>_. True))"
  unfolding buildCmd_def run_events_sel
  by (rule completes_then [OF safe_globals], rule completes_if, rule completes_ret, simp,
      rule completes_try_then [OF safe_okay [OF safe_build_steps(1) [OF assms(2)]]],
      rule completes_try_then [OF safe_okay [OF safe_build_steps(2)]],
      rule completes_try_then [OF safe_okay [OF safe_build_steps(3)]],
      rule completes_with_farm [OF assms(1)], rule run_events_sel,
      rule completes_then [OF safe_globals],
      rule completes_try_both [OF completes_wrap_err [OF completes_on_farm [OF completes_Schedule]]], rule subset_refl, assumption,
      rule completes_wrap_err [OF completes_on_farm [OF completes_Farm_Build]], rule subset_refl, assumption, rule range)

section \<open>A whole run\<close>

lemma run_command_ends:
  assumes "config_ok A" and "detects A" and "ValidateArgs cmd args = None" and "\<And>m. set (ch_results (rc_build ch) m) \<subseteq> set m"
  shows "\<exists>n1 n2 n3 n4 n5 b r c'. run_command A D L norm C (run_events ch n1 n2 n3 n4 n5 b) cmd args c = (Ret r, c')"
proof (cases cmd)
  case BuildCommand
  then have "args \<noteq> []" using assms(3) by (auto simp: ValidateArgs_def)
  from completesE [OF completes_build [OF assms(1) this assms(4)] assms(2)] show ?thesis
    unfolding run_command_def BuildCommand command.case by metis
next
  case StatusCommand
  from completesE [OF completes_status [OF assms(1)] assms(2)] show ?thesis
    unfolding run_command_def StatusCommand command.case by metis
next
  case PlatformsCommand
  from completesE [OF completes_platforms [OF assms(1)] assms(2)] show ?thesis
    unfolding run_command_def PlatformsCommand command.case by metis
next
  case PruneCommand
  from completesE [OF completes_prune [OF assms(1)] assms(2)] show ?thesis
    unfolding run_command_def PruneCommand command.case by metis
qed

lemma after_ends:
  assumes "cl_farm c = Some f" and "members_ok is_builder f (cl_world c)"
  shows "\<exists>r c'. after A D C c = (Ret r, c')"
proof -
  let ?close = "if pa_linux A then storeAfter C else storeAfter_other"
  have "safe False (\<lambda>_. True) (try_bind ?close (\<lambda>_. ret (Inr ())))" by (intro calm_intros)
  then show ?thesis unfolding after_farm [OF assms] by (rule safe_returns)
qed

lemma Execute_ends:
  assumes "config_ok A" and "detects A" and "\<And>m. set (ch_results (rc_build ch) m) \<subseteq> set m"
  shows "\<exists>n1 n2 n3 n4 n5 b r c'. Execute A D L norm C (run_events ch n1 n2 n3 n4 n5 b) cmd args c = (Ret r, c')"
proof (cases "ValidateArgs cmd args")
  case None
  obtain v c0 where b: "before A C c = (Ret v, c0)"
    using safe_returns [OF safe_store_hooks(2)] by blast
  obtain n1 n2 n3 n4 n5 bs u c1 where r: "run_command A D L norm C (run_events ch n1 n2 n3 n4 n5 bs) cmd args c0 = (Ret u, c1)"
    using run_command_ends [OF assms(1,2) None assms(3), of D L norm C c0] by blast
  have "\<exists>r c'. Execute A D L norm C (run_events ch n1 n2 n3 n4 n5 bs) cmd args c = (Ret r, c')"
  proof (cases "\<exists>a. v = Inr a \<and> u = Inr ()")
    case True
    then obtain f where "cl_farm c1 = Some f" "members_ok is_builder f (cl_world c1)"
      using run_command_members [OF r assms(1)] by auto
    from after_ends [OF this] True b r None show ?thesis
      by (auto simp: Execute_def cobra_execute_def try_bind_def)
  qed (use b r None in \<open>cases v; cases u; auto simp: Execute_def cobra_execute_def try_bind_def\<close>)
  then show ?thesis by blast
qed (simp add: Execute_def cobra_execute_def)



end
