(* ===== verification/Schedule_Origin.thy ===== *)
theory Schedule_Origin
  imports Later_Worlds
begin

text \<open>
  Where the platforms of a schedule come from: through the scheduler, the builders and their
  \<open>sync.Once\<close> back to the host's default platform, the kernel's registry of emulators, and the
  platform that a connection's host reported.
\<close>

section \<open>What builders have learned\<close>

text \<open>The platform of the local system, as \<open>fetchInfo\<close> of \<open>local.go\<close> makes it.\<close>

definition default_platform :: "'x podman_api \<Rightarrow> string option" where
  "default_platform A = (case str_splitn (CHR ''/'') 3 (pa_DefaultPlatform A) of
      [os, arch] \<Rightarrow> Some (platform_string (pa_NormalizePlatform A os arch []))
    | [os, arch, variant] \<Rightarrow> Some (platform_string (pa_NormalizePlatform A os arch variant))
    | _ \<Rightarrow> None)"

definition local_learned :: "'x podman_api \<Rightarrow> podmanLocal \<Rightarrow> bool" where
  "local_learned A l \<longleftrightarrow> (pml_once l \<and> pml_platformsErr l = None \<longrightarrow> (\<exists>p x. default_platform A = Some p \<and>
     pml_nativePlatforms l = [p] \<and> Registered (detect_emulation A x) = Ret (pml_emulatedPlatforms l)))"

definition remote_learned :: "'x podman_api \<Rightarrow> podmanRemote \<Rightarrow> bool" where
  "remote_learned A r \<longleftrightarrow> (pmr_once r \<and> pmr_platformsErr r = None \<longrightarrow> (\<exists>c x os arch x'. pmr_connCtx r = Some c \<and>
     pa_system_Info A c x = (Inr (os, arch), x') \<and> pmr_nativePlatforms r = [os @ ''/'' @ arch]))"

text \<open>As values that methods keep: the connection, while what was learned over it is true.\<close>

definition local_vouched :: "'x podman_api \<Rightarrow> podmanLocal \<Rightarrow> unit option" where
  "local_vouched A l = (if local_learned A l then Some () else None)"

definition remote_vouched :: "'x podman_api \<Rightarrow> podmanRemote \<Rightarrow> conn option" where
  "remote_vouched A r = (if remote_learned A r then pmr_connCtx r else None)"

lemma local_once_vouched [stable_intros]: "stable (local_vouched A) (local_once A)"
proof -
  have "local_learned A l'" if "local_learned A l" "local_once A (l, x) = (r, l', x')" for l x r l' x'
    using that keepsD [OF keeps_local_fetchInfo, of A "(l, x)"]
    by (auto simp: local_once_def io_bind_def self_def podmanLocal_fetchInfo_def local_platforms_def local_learned_def
        default_platform_def ret_def split: if_splits list.splits outcome.splits prod.splits)
  then show ?thesis by (auto simp: stable_def local_vouched_def split: if_splits) (metis prod.collapse)
qed

lemma remote_once_vouched [stable_intros]: "stable (remote_vouched A) (remote_once A)"
proof -
  have "remote_vouched A r' = Some c" if "remote_vouched A r = Some c" "remote_once A (r, x) = (o1, r', x')" for r x o1 r' x' c
    using that
    by (auto simp: remote_once_def io_bind_def self_def podmanRemote_fetchInfo_def remote_learned_def remote_vouched_def
        sys_def ret_def split: if_splits option.splits outcome.splits prod.splits sum.splits) blast+
  then have "remote_vouched A (fst (snd (remote_once A rx))) = Some c" if "remote_vouched A (fst rx) = Some c" for rx c
    using that by (metis prod.collapse)
  then show ?thesis unfolding stable_def by blast
qed

lemma methods_vouched [stable_intros]:
  "stable (local_vouched A) (podmanLocal_Info A)" "stable (local_vouched A) (podmanLocal_NativePlatforms A)"
  "stable (local_vouched A) (podmanLocal_EmulatedPlatforms A)" "stable (local_vouched A) (podmanLocal_Status A)"
  "stable (remote_vouched A) (podmanRemote_Info A)" "stable (remote_vouched A) (podmanRemote_NativePlatforms A)"
  "stable (remote_vouched A) (podmanRemote_EmulatedPlatforms A)" "stable (remote_vouched A) (podmanRemote_Status A)"
  unfolding podmanLocal_Info_def podmanLocal_NativePlatforms_def podmanLocal_EmulatedPlatforms_def podmanLocal_Status_def
    podmanRemote_Info_def podmanRemote_NativePlatforms_def podmanRemote_EmulatedPlatforms_def podmanRemote_Status_def
  by (intro stable_intros keeps_intros)+

lemmas build_vouched [stable_intros] = podmanLocal_Build_once [OF local_once_vouched]

section \<open>The relation between worlds\<close>

definition vouched :: "'x podman_api \<Rightarrow> builder_object \<Rightarrow> conn option option" where
  "vouched A ob = (case ob of
     LocalObj l \<Rightarrow> map_option (\<lambda>_. None) (local_vouched A l)
   | RemoteObj r \<Rightarrow> map_option Some (remote_vouched A r)
   | DockerObj d \<Rightarrow> None)"

lemma vouched_Some:
  "vouched A (LocalObj l) = Some v \<longleftrightarrow> local_vouched A l = Some () \<and> v = None"
  "vouched A (RemoteObj r) = Some v \<longleftrightarrow> (\<exists>c. remote_vouched A r = Some c \<and> v = Some c)"
  "vouched A (DockerObj d) \<noteq> Some v"
  by (auto simp: vouched_def)

definition vouching :: "'x podman_api \<Rightarrow> 'x farm_world \<Rightarrow> 'x farm_world \<Rightarrow> bool" where
  "vouching A w w' \<longleftrightarrow> (\<forall>b v. is_builder w b \<and> vouched A (heap w ! b) = Some v \<longrightarrow>
     is_builder w' b \<and> vouched A (heap w' ! b) = Some v)"

lemma dispatch_vouching:
  assumes "dispatch ml mr md b w = (r, w')" and "stable (local_vouched A) ml" and "stable (remote_vouched A) mr"
  shows "vouching A w w'"
proof -
  have "is_builder w' c \<and> vouched A (heap w' ! c) = Some v"
    if "is_builder w c" "vouched A (heap w ! c) = Some v" for c v
    using assms that
    by (cases "c = b")
       (auto simp: dispatch_def is_builder_def vouched_Some
        split: builder_object.splits prod.splits if_splits dest: stableD)
  then show ?thesis by (simp add: vouching_def)
qed

interpretation vouched: world_order "vouching A" A D for A D
  by (unfold_locales; (simp, erule dispatch_vouching; intro stable_intros keeps_intros)?)
     (simp_all add: vouching_def is_builder_def)

section \<open>The platforms of a schedule\<close>

text \<open>What a host offers: the local system its own platform, and on Linux those of a registry entry;
  the host of a connection the platform it reports over the connection.\<close>

definition host_offers :: "'x podman_api \<Rightarrow> builder_object \<Rightarrow> string \<Rightarrow> bool" where
  "host_offers A ob p = (case ob of
     LocalObj l \<Rightarrow> default_platform A = Some p \<or>
       pa_linux A \<and> (\<exists>x. \<exists>v\<in>set (registry_visits (pa_binfmt_misc A x)). entry_matches v p)
   | RemoteObj r \<Rightarrow> \<exists>c x os arch x'. pmr_connCtx r = Some c \<and> pa_system_Info A c x = (Inr (os, arch), x') \<and> p = os @ ''/'' @ arch
   | DockerObj d \<Rightarrow> False)"

lemma Registered_justified:
  assumes "Registered (detect_emulation A x) = Ret ps" and "p \<in> set ps"
  shows "pa_linux A \<and> (\<exists>v\<in>set (registry_visits (pa_binfmt_misc A x)). entry_matches v p)"
  using assms registered_justified
  by (auto simp: Registered_def detect_emulation_def registeredBinfmtMisc_other_def
      split: if_splits outcome.splits option.splits)

lemma built_for_vouched: "built_for n ob \<Longrightarrow> \<exists>v. vouched A ob = Some v"
  by (cases ob) (auto simp: built_for_def vouched_Some local_vouched_def local_learned_def remote_vouched_def remote_learned_def)

lemma vouched_offers:
  assumes "vouched A ob = Some v" and "vouched A ob' = Some v"
  shows "host_offers A ob p = host_offers A ob' p"
  using assms
  by (cases ob; cases ob') (auto simp: vouched_Some remote_vouched_def host_offers_def split: if_splits)

lemma learned_offers:
  assumes "vouched A ob = Some v" and "object_settled ob = Some (Inr i)"
    and "p \<in> set (NativePlatforms i) \<or> p \<in> set (EmulatedPlatforms i)"
  shows "host_offers A ob p"
proof (cases ob)
  case (LocalObj l)
  with assms show ?thesis
    by (auto simp: vouched_Some local_vouched_def local_learned_def object_settled_def local_settled_def with_err_def
        host_offers_def split: if_splits option.splits) (use Registered_justified [of A _ _ p] in blast)+
next
  case (RemoteObj r)
  with assms show ?thesis
    by (auto simp: vouched_Some remote_vouched_def remote_learned_def object_settled_def remote_settled_def with_err_def
        host_offers_def split: if_splits option.splits) blast
next
  case (DockerObj d)
  with assms(1) show ?thesis by (simp add: vouched_Some)
qed

text \<open>
  C17. Every platform of a schedule can be traced to the host it is assigned to: a member for a
  connection gets only the platform its host reported over that connection, and the local system its
  own platform or, on Linux, one for which the kernel's registry has an active entry that matches a
  known ELF header of that platform.
\<close>

theorem schedule_traced_to_hosts:
  assumes "Farm_Schedule (builders A D) f platforms evs_native evs_info w = (Ret (Inr s), w')"
    and "fresh_farm f w" and "map_of (platformBuilders s) p = Some bn"
  shows "\<exists>b. map_of (farm_builders f) bn = Some b \<and> host_offers A (heap w ! b) p"
proof -
  have ok: "members_ok is_builder f w" using assms(2) by (simp add: fresh_farm_def)
  have spec: "schedule_spec (farm_builders f) (answer builder_info w')
      (schedule_targets builder_info f platforms w') (map_of (platformBuilders s))"
    and all: "all_answered builder_info f w'"
    using objs.Schedule_Inr [OF assms(1) ok] by blast+
  obtain b where b: "map_of (farm_builders f) bn = Some b" and p: "p \<in> set (NativePlatforms (answer builder_info w' b)) \<or>
      p \<in> set (EmulatedPlatforms (answer builder_info w' b))"
    using spec assms(3) unfolding schedule_spec_def by blast
  then have mem: "(bn, b) \<in> set (farm_builders f)" by (simp add: map_of_SomeD)
  then obtain i where i: "object_settled (heap w' ! b) = Some (Inr i)"
    using all by (fastforce simp: all_answered_def builder_info_def)
  then have offered: "p \<in> set (NativePlatforms i) \<or> p \<in> set (EmulatedPlatforms i)"
    using p by (simp add: answer_def builder_info_def)
  obtain n where "built_for n (heap w ! b)" "is_builder w b"
    using assms(2) mem by (fastforce simp: fresh_farm_def members_ok_def)
  moreover have "vouching A w w'" by (rule moves_onD [OF vouched.moves_queries(4) assms(1)])
  ultimately obtain v where "vouched A (heap w ! b) = Some v" "vouched A (heap w' ! b) = Some v"
    using built_for_vouched unfolding vouching_def by metis
  with learned_offers [OF this(2) i offered] vouched_offers have "host_offers A (heap w ! b) p" by blast
  with b show ?thesis by blast
qed

text \<open>The local system alone, on Linux, with an emulator for arm64 in the registry.\<close>

definition emulating_podman :: "log podman_api" where
  "emulating_podman = sample_podman\<lparr>pa_linux := True, pa_binfmt_misc := (\<lambda>_. sample_registry)\<rparr>"

definition emulating_world :: "log farm_world" where
  "emulating_world = \<lparr>heap = [LocalObj (sample_local\<lparr>pml_once := False\<rparr>)], ext = []\<rparr>"

definition emulating_farm :: "builder Farm" where
  "emulating_farm = sample_farm\<lparr>farm_builders := [([], 0)]\<rparr>"

lemma sample_emulated: "sort (matching_platforms known_map (0, arm64_magic, arm64_mask)) = [''linux/arm64'']"
  by code_simp

lemma split_default: "str_splitn (CHR ''/'') 3 ''linux/amd64'' = [''linux'', ''amd64'']"
  by code_simp

lemma emulating_default: "str_splitn (CHR ''/'') 3 (pa_DefaultPlatform emulating_podman) = [''linux'', ''amd64'']"
  by (simp add: emulating_podman_def sample_podman_def split_default)

lemma emulating_schedule:
  "\<exists>w'. Farm_Schedule (builders emulating_podman sample_docker) emulating_farm [''linux/arm64''] []
     [Spawn, Call ([], 0), Commit ([], 0), Join ([], 0)] emulating_world =
     (Ret (Inr \<lparr>platformBuilders = [(''linux/arm64'', [])]\<rparr>), w')"
proof -
  have detected: "Registered (detect_emulation emulating_podman x) = Ret [''linux/arm64'']" for x
    by (simp add: detect_emulation_def emulating_podman_def sample_registered sample_emulated Registered_def)
  have fetched: "podmanLocal_fetchInfo emulating_podman lx =
      (Ret ((''linux'', ''amd64'', []), [''linux/amd64''], [''linux/arm64''], None), lx)" for lx
    unfolding podmanLocal_fetchInfo_def local_platforms_def detected emulating_default
    by (simp add: emulating_podman_def sample_podman_def platform_string_def)
  show ?thesis
    by (simp add: fetched schedule_eval group_eval method_eval emulating_world_def emulating_farm_def sample_farm_def local_once_def
        sample_local_def)
qed

theorem schedule_traced_to_hosts_witness:
  "\<exists>v\<in>set (registry_visits sample_registry). entry_matches v ''linux/arm64''"
proof -
  obtain w' where run: "Farm_Schedule (builders emulating_podman sample_docker) emulating_farm [''linux/arm64''] []
     [Spawn, Call ([], 0), Commit ([], 0), Join ([], 0)] emulating_world =
     (Ret (Inr \<lparr>platformBuilders = [(''linux/arm64'', [])]\<rparr>), w')"
    using emulating_schedule by blast
  have "fresh_farm emulating_farm emulating_world"
    by (auto simp: fresh_farm_def members_ok_def emulating_farm_def emulating_world_def sample_farm_def sample_local_def
        is_builder_def built_for_def node_key_def intro: exI [of _ LocalNode])
  from schedule_traced_to_hosts [OF run this, of "''linux/arm64''" "[]"]
  have "host_offers emulating_podman (LocalObj (sample_local\<lparr>pml_once := False\<rparr>)) ''linux/arm64''"
    by (simp add: emulating_farm_def emulating_world_def)
  moreover have "default_platform emulating_podman = Some ''linux/amd64''"
    unfolding default_platform_def emulating_default
    by (simp add: emulating_podman_def sample_podman_def platform_string_def)
  ultimately show ?thesis by (simp add: host_offers_def emulating_podman_def)
qed

end
