(* ===== verification/Build_Outcome.thy ===== *)
theory Build_Outcome
  imports Run_Ends Temp_Files
begin

text \<open>
  What \<open>(*Farm).Build\<close> returns, whatever its builders answer, and that its goroutines cannot get
  stuck.
\<close>

section \<open>The outcome of Build\<close>

lemma Farm_Build_after:
  assumes "output_format (bo_OutputFormat options0) = Inr fmt" and "options = options0\<lparr>bo_OutputFormat := fmt\<rparr>"
    and "build_jobs norm (farm_builders f) (platformBuilders s) [] = Inr jobs"
    and "choose_list_builder L f reference options w = (Ret (Inr lb), w0)"
  shows "Farm_Build ops L norm f ch reference s files options0 w =
    run_builds ops L ch jobs (platformBuilders s) files options lb w0"
  using assms by (simp add: Farm_Build_def Let_def try_bind_def wrap_err_def io_bind_def)

lemma try_bind_unit:
  assumes "try_bind m (\<lambda>_. ret (Inr ())) w = (Ret r, w')"
  obtains r' where "m w = (Ret r', w')" "r = map_sum id (\<lambda>_. ()) r'"
proof -
  obtain r' w1 where "m w = (Ret r', w1)" and "(case r' of Inl e \<Rightarrow> ret (Inl e) | Inr _ \<Rightarrow> ret (Inr ())) w1 = (Ret r, w')"
    using assms unfolding try_bind_def io_bind_RetE by blast
  with that show thesis by (cases r') auto
qed

text \<open>
  C9. What \<open>Build\<close> returns once the format, the jobs and the list builder are settled: every
  platform's build was called once and gave one answer. When any of them is an error, \<open>Build\<close>
  returns all of these errors, each once, and does nothing more; otherwise the list builder gets the
  map from each platform to its answer, and its outcome is the one of \<open>Build\<close>.
\<close>

theorem build_outcome:
  assumes run: "Farm_Build ops L norm f ch reference s files options0 w = (Ret r, w')"
    and wf: "wf_map (platformBuilders s)"
    and settled: "output_format (bo_OutputFormat options0) = Inr fmt" "options = options0\<lparr>bo_OutputFormat := fmt\<rparr>"
      "build_jobs norm (farm_builders f) (platformBuilders s) [] = Inr jobs"
      "choose_list_builder L f reference options w = (Ret (Inr lb), w0)"
  shows "\<exists>ans x R errs results w1.
    fork_join (build_body ops jobs files options) (platformBuilders s) (ch_builds ch) [] w0 = (Ret (x, R, errs, results), w1) \<and>
    (\<forall>pb\<in>set (platformBuilders s). \<exists>w2 w3. build_call ops jobs files options pb w2 = (Ret (ans pb), w3)) \<and>
    (if failures ans (platformBuilders s) \<noteq> []
     then w' = w1 \<and> (\<exists>e es. r = Inl (WrapE ''building: %w'' [] (MultiE e es)) \<and>
            mset (e # es) = mset (failures ans (platformBuilders s)))
     else (\<forall>pf v. map_of results pf = Some v \<longleftrightarrow> (\<exists>bn. (pf, bn) \<in> set (platformBuilders s) \<and> ans (pf, bn) = Inr v)) \<and>
       (\<exists>r'. ListBuilder_Build ops L ch lb (per_arch_builds (ch_results ch results)) w1 = (Ret r', w') \<and>
            r = map_sum id (\<lambda>_. ()) r'))"
proof -
  have "run_builds ops L ch jobs (platformBuilders s) files options lb w0 = (Ret r, w')"
    using run unfolding Farm_Build_after [OF settled] .
  then obtain x R errs results w1 where
      fj: "fork_join (build_body ops jobs files options) (platformBuilders s) (ch_builds ch) [] w0 = (Ret (x, R, errs, results), w1)"
    and cont: "(case error_or_nil errs of
         Some err \<Rightarrow> ret (Inl (WrapE ''building: %w'' [] err))
       | None \<Rightarrow> try_bind (ListBuilder_Build ops L ch lb (per_arch_builds (ch_results ch results))) (\<lambda>location.
           ret (Inr ()))) w1 = (Ret r, w')"
    unfolding run_builds_def io_bind_RetE by auto
  obtain ans where called: "\<And>pb. pb \<in> set (platformBuilders s) \<Longrightarrow> \<exists>w2 w3. build_call ops jobs files options pb w2 = (Ret (ans pb), w3)"
    and errs: "mset errs = mset (failures ans (platformBuilders s))"
    and results: "failures ans (platformBuilders s) = [] \<Longrightarrow>
      map_of results pf = Some v \<longleftrightarrow> (\<exists>bn. (pf, bn) \<in> set (platformBuilders s) \<and> ans (pf, bn) = Inr v)" for pf v
    by (rule build_group_answers [OF fj wf]) (rule that)
  show ?thesis
  proof (cases errs)
    case Nil
    with cont have "try_bind (ListBuilder_Build ops L ch lb (per_arch_builds (ch_results ch results))) (\<lambda>_. ret (Inr ())) w1 = (Ret r, w')"
      by simp
    then obtain r' where "ListBuilder_Build ops L ch lb (per_arch_builds (ch_results ch results)) w1 = (Ret r', w')"
        "r = map_sum id (\<lambda>_. ()) r'"
      by (rule try_bind_unit)
    moreover have "failures ans (platformBuilders s) = []" using errs Nil by simp
    ultimately show ?thesis using called results
      by (intro exI [of _ ans] exI [of _ x] exI [of _ R] exI [of _ errs] exI [of _ results] exI [of _ w1] conjI fj) simp_all
  next
    case (Cons e es)
    with cont have "r = Inl (WrapE ''building: %w'' [] (MultiE e es))" "w' = w1" by simp_all
    moreover have "failures ans (platformBuilders s) \<noteq> []" "mset (e # es) = mset (failures ans (platformBuilders s))"
      using errs Cons by auto
    ultimately show ?thesis using called
      by (intro exI [of _ ans] exI [of _ x] exI [of _ R] exI [of _ errs] exI [of _ results] exI [of _ w1] conjI fj) auto
  qed
qed

text \<open>Two builders, of which the second one fails.\<close>

definition half_builders :: "(nat, string list) ImageBuilder" where
  "half_builders = plain_builders\<lparr>ib_Build := (\<lambda>b ref files bo. ret (if b = 0
     then Inr \<lparr>ImageID = ''image-arm64'', SaveFormat = ''oci-archive''\<rparr> else Inl (ExtE ''exit status 125'')))\<rparr>"

definition half_farm :: "nat Farm" where
  "half_farm = dir_farm\<lparr>farm_builders := [(''arm'', 0), (''z'', 1)]\<rparr>"

definition half_schedule :: Schedule where
  "half_schedule = \<lparr>platformBuilders = [(''linux/arm64'', ''arm''), (''linux/s390x'', ''z'')]\<rparr>"

abbreviation "half_build \<equiv> Farm_Build half_builders dir_lists (\<lambda>a b c. (a, b, c)) half_farm
  (dir_choices\<lparr>ch_builds := overlap (''linux/arm64'', ''arm'') (''linux/s390x'', ''z'')\<rparr>) ''dir:/out'' half_schedule
  [''Containerfile''] zero_BuildOptions"

theorem build_outcome_witness:
  "\<exists>w'. half_build [] = (Ret (Inl (WrapE ''building: %w'' [] (MultiE
     (WrapE ''building for %q on %q: %w'' [AStr ''linux/s390x'', AStr ''z''] (ExtE ''exit status 125'')) []))), w')"
proof -
  have "(case half_build [] of (Ret r, w') \<Rightarrow> True | _ \<Rightarrow> False)" by code_simp
  then obtain r w' where run: "half_build [] = (Ret r, w')" by (auto split: prod.splits outcome.splits)
  let ?options = "zero_BuildOptions\<lparr>bo_OutputFormat := OCIv1ImageManifest\<rparr>"
  let ?jobs = "[(''arm'', make_job (\<lambda>a b c. (a, b, c)) ''linux/arm64'' (0 :: nat)),
    (''z'', make_job (\<lambda>a b c. (a, b, c)) ''linux/s390x'' 1)]"
  note defs = half_farm_def half_schedule_def dir_farm_def half_builders_def zero_BuildOptions_def
  have wf: "wf_map (platformBuilders half_schedule)" by (simp add: defs)
  have fmt: "output_format (bo_OutputFormat zero_BuildOptions) = Inr OCIv1ImageManifest"
    by (simp add: defs output_format_def)
  have jobs: "build_jobs (\<lambda>a b c. (a, b, c)) (farm_builders half_farm) (platformBuilders half_schedule) [] = Inr ?jobs"
    by (simp add: defs)
  obtain lb where lb: "choose_list_builder dir_lists half_farm ''dir:/out'' ?options [] = (Ret (Inr lb), [])"
    by (simp add: defs choose_list_builder_def NewFileListBuilder_def has_prefix_def trim_prefix_def)
  obtain ans where
      called: "\<forall>pb\<in>set (platformBuilders half_schedule). \<exists>w2 w3.
        build_call half_builders ?jobs [''Containerfile''] ?options pb w2 = (Ret (ans pb), w3)"
    and out: "failures ans (platformBuilders half_schedule) \<noteq> [] \<longrightarrow>
      (\<exists>e es. r = Inl (WrapE ''building: %w'' [] (MultiE e es)) \<and> mset (e # es) = mset (failures ans (platformBuilders half_schedule)))"
    using build_outcome [OF run wf fmt refl jobs lb] by (elim exE conjE) (rule that, assumption, simp split: if_splits)
  have "ans (''linux/arm64'', ''arm'') = Inr (\<lparr>ImageID = ''image-arm64'', SaveFormat = ''oci-archive''\<rparr>, 0)"
    "ans (''linux/s390x'', ''z'') = Inl (WrapE ''building for %q on %q: %w'' [AStr ''linux/s390x'', AStr ''z''] (ExtE ''exit status 125''))"
    using called by (simp_all add: defs build_call_def make_job_def split_platform_def try_bind_def wrap_err_def io_bind_def ret_def)
  then have "failures ans (platformBuilders half_schedule) =
      [WrapE ''building for %q on %q: %w'' [AStr ''linux/s390x'', AStr ''z''] (ExtE ''exit status 125'')]"
    by (simp add: failures_def half_schedule_def)
  with out run show ?thesis by auto
qed

section \<open>No deadlock\<close>

lemma choose_list_builder_at_work:
  assumes "choose_list_builder (list_calls L) f reference options w = (Ret r, w')" and "at_work A B w"
  shows "at_work A B w'"
proof -
  have "safe False (at_work A B) (choose_list_builder (list_calls L) f reference options)"
    unfolding choose_list_builder_def NewPodmanLocalListBuilder_def list_calls_sel Let_def by (intro calm_intros)
  from calmD [OF this assms(2,1)] show ?thesis by simp
qed

text \<open>
  C18. The goroutines of \<open>Build\<close> cannot get stuck: with the farm's members at work, every interleaving
  of the builds that has begun can be completed to one on which \<open>Build\<close> returns, and it has at
  most four steps per platform.
\<close>

theorem build_no_deadlock:
  assumes work: "at_work A (snd ` set (farm_builders f)) w" and wf: "wf_map (platformBuilders s)"
    and range: "\<And>m. set (ch_results ch m) \<subseteq> set m"
    and settled: "output_format (bo_OutputFormat options0) = Inr fmt" "options = options0\<lparr>bo_OutputFormat := fmt\<rparr>"
      "build_jobs norm (farm_builders f) (platformBuilders s) [] = Inr jobs"
      "choose_list_builder (list_calls L) f reference options w = (Ret (Inr lb), w0)"
    and begun: "group_run (build_body (builders A D) jobs files options) evs (group_init (platformBuilders s) [] w0) = (Ret u, g)"
  shows "\<exists>evs' d r w'. length (evs @ evs') \<le> 4 * length (platformBuilders s) \<and>
    Farm_Build (builders A D) (list_calls L) norm f (build_events ch (evs @ evs', d)) reference s files options0 w = (Ret r, w')"
proof -
  let ?B = "snd ` set (farm_builders f)"
  have jobs: "\<forall>j\<in>snd ` set jobs. job_builder j \<in> ?B" using build_jobs_members [OF settled(3) subset_refl] by simp
  have calls: "calm False (at_work A ?B) (call (build_body (builders A D) jobs files options) k) (okay (\<lambda>v. snd v \<in> ?B))" for k
    unfolding build_body_sel by (rule build_call_members [OF jobs])
  have "at_work A ?B w0" by (rule choose_list_builder_at_work [OF settled(4) work])
  note extends = extends_plain_group [where S = "\<lambda>results. \<forall>v\<in>set results. snd (snd v) \<in> ?B",
      OF build_body_sel(1) calls build_commit_members _ wf_map_distinct [OF wf] begun this]
  obtain evs' x w1 where run: "fork_join (build_body (builders A D) jobs files options) (platformBuilders s) (evs @ evs') [] w0 = (Ret x, w1)"
    and w1: "at_work A ?B w1" and x: "case x of (_, _, _, results) \<Rightarrow> \<forall>v\<in>set results. snd (snd v) \<in> ?B"
    by (rule extends) simp_all
  obtain d r w' where "after_builds (builders A D) (list_calls L) (build_events ch ([], d)) lb x w1 = (Ret r, w')"
    using completes_after_builds [OF x range] w1 by (rule completesE)
  with run have "Farm_Build (builders A D) (list_calls L) norm f (build_events ch (evs @ evs', d)) reference s files options0 w = (Ret r, w')"
    unfolding Farm_Build_after [OF settled] run_builds_after by simp
  moreover have "length (evs @ evs') \<le> 4 * length (platformBuilders s)" using fork_join_length [OF run] .
  ultimately show ?thesis by blast
qed

theorem build_no_deadlock_witness:
  "\<exists>evs' d r w'. Farm_Build sample_ops (list_calls sample_lists) sample_norm sample_farm
     (build_events sample_ch ([Spawn, Spawn, Call (''linux/arm64'', ''arm'')] @ evs', d)) ''dir:/out'' sample_schedule2
     [''Containerfile''] zero_BuildOptions sample_world2 = (Ret r, w')"
proof -
  let ?options = "zero_BuildOptions\<lparr>bo_OutputFormat := OCIv1ImageManifest\<rparr>"
  let ?jobs = "[([], make_job sample_norm ''linux/amd64'' (0 :: nat)), (''arm'', make_job sample_norm ''linux/arm64'' 1)]"
  have work: "at_work sample_podman (snd ` set (farm_builders sample_farm)) sample_world2"
    by (simp add: at_work_def detects_def usable_def remote_usable_def is_builder_def sample_defs sample_world2_def)
  have wf: "wf_map (platformBuilders sample_schedule2)" by (simp add: sample_schedule2_def)
  have range: "set (ch_results sample_ch m) \<subseteq> set m" for m by (simp add: sample_ch_def sample_choices_def)
  have fmt: "output_format (bo_OutputFormat zero_BuildOptions) = Inr OCIv1ImageManifest"
    by (simp add: zero_BuildOptions_def output_format_def)
  have jobs: "build_jobs sample_norm (farm_builders sample_farm) (platformBuilders sample_schedule2) [] = Inr ?jobs"
    by (simp add: sample_schedule2_def sample_farm_def)
  obtain lb where lb: "choose_list_builder (list_calls sample_lists) sample_farm ''dir:/out'' ?options sample_world2 = (Ret (Inr lb), sample_world2)"
    by (simp add: sample_farm_def choose_list_builder_def NewFileListBuilder_def has_prefix_def trim_prefix_def)
  have "\<exists>u g. group_run (build_body sample_ops ?jobs [''Containerfile''] ?options) [Spawn, Spawn, Call (''linux/arm64'', ''arm'')]
      (group_init (platformBuilders sample_schedule2) [] sample_world2) = (Ret u, g)"
    by (simp add: build_eval group_eval method_eval sample_defs sample_world2_def sample_schedule2_def)
  then obtain u g where "group_run (build_body sample_ops ?jobs [''Containerfile''] ?options) [Spawn, Spawn, Call (''linux/arm64'', ''arm'')]
      (group_init (platformBuilders sample_schedule2) [] sample_world2) = (Ret u, g)" by blast
  from build_no_deadlock [OF work wf range fmt refl jobs lb this] show ?thesis by blast
qed

end
