(* ===== verification/Multierror.thy ===== *)
theory Multierror
  imports Command_Line
begin

text \<open>
  The errors of \<open>go-multierror\<close> in full: \<open>Append\<close> for any values, nil pointers included, of which the
  groups and the loops use one case, and the walk of \<open>errors.As\<close> through a multierror, of which
  \<open>main\<close> uses the result.
\<close>

section \<open>append.go\<close>

text \<open>A value of the interface \<open>error\<close> as \<open>Append\<close> looks at it: nil, a \<open>*Error\<close> (which may be a nil
  pointer, or list no errors), or a value of another type.\<close>

datatype error_value = NilValue | MultiPtr "error list option" | PlainValue error

definition append_value :: "error list \<Rightarrow> error_value \<Rightarrow> error list" where
  "append_value errs e = (case e of
      MultiPtr None \<Rightarrow> errs
    | MultiPtr (Some es) \<Rightarrow> errs @ es
    | NilValue \<Rightarrow> errs
    | PlainValue e \<Rightarrow> errs @ [e])"

text \<open>The result is a pointer that is not nil; this is its list.\<close>

function Append :: "error_value \<Rightarrow> error_value list \<Rightarrow> error list" where
  "Append (MultiPtr m) errs = foldl append_value (case m of None \<Rightarrow> [] | Some es \<Rightarrow> es) errs"
| "Append NilValue errs = Append (MultiPtr (Some [])) errs"
| "Append (PlainValue e) errs = Append (MultiPtr (Some [])) (PlainValue e # errs)"
  by pat_completeness auto

termination
  by (relation "measure (\<lambda>(v, _). case v of MultiPtr _ \<Rightarrow> 0 | _ \<Rightarrow> 1)") auto

section \<open>multierror.go\<close>

definition ErrorOrNil :: "error list option \<Rightarrow> error option" where
  "ErrorOrNil m = (case m of None \<Rightarrow> None | Some es \<Rightarrow> if length es = 0 then None else error_or_nil es)"

definition WrappedErrors :: "error list option \<Rightarrow> error list" where
  "WrappedErrors m = (case m of None \<Rightarrow> [] | Some es \<Rightarrow> es)"

text \<open>What \<open>Unwrap\<close> leads to: an error, or a \<open>chain\<close> of errors.\<close>

datatype link = Link error | Chain error "error list"

definition Error_Unwrap :: "error list option \<Rightarrow> link option" where
  "Error_Unwrap m = (case m of
      None \<Rightarrow> None
    | Some [] \<Rightarrow> None
    | Some [e] \<Rightarrow> Some (Link e)
    | Some (e # es) \<Rightarrow> Some (Chain e es))"

definition chain_Unwrap :: "error \<Rightarrow> error list \<Rightarrow> link option" where
  "chain_Unwrap e es = (case es of [] \<Rightarrow> None | e' # es' \<Rightarrow> Some (Chain e' es'))"

text \<open>\<open>errors.Unwrap\<close>: the error a \<open>fmt.Errorf\<close> with \<open>%w\<close> wraps, or the method of the value.\<close>

fun Unwrap :: "link \<Rightarrow> link option" where
  "Unwrap (Link (WrapE f as e)) = Some (Link e)"
| "Unwrap (Link (MultiE e es)) = Error_Unwrap (Some (e # es))"
| "Unwrap (Link _) = None"
| "Unwrap (Chain e es) = chain_Unwrap e es"

primrec link_size :: "link \<Rightarrow> nat" where
  "link_size (Link e) = 2 * size e"
| "link_size (Chain e es) = 2 * size e + 2 * size_list size es + 1"

lemma Unwrap_smaller: "Unwrap l = Some l' \<Longrightarrow> link_size l' < link_size l"
  by (cases l rule: Unwrap.cases) (auto simp: Error_Unwrap_def chain_Unwrap_def split: list.splits)

text \<open>
  The loop of \<open>errors.As\<close> for an \<open>exec.ExitError\<close>, of which only an error of the outside can be one:
  the value itself, its method \<open>As\<close> (a chain has one, for its first error), then what it unwraps to.
\<close>

fun exit_error :: "(string \<Rightarrow> int option) \<Rightarrow> error \<Rightarrow> int option" where
  "exit_error st (ExtE s) = st s"
| "exit_error st _ = None"

function errors_As :: "(string \<Rightarrow> int option) \<Rightarrow> link \<Rightarrow> int option" where
  "errors_As st (Link e) =
     (case exit_error st e of
        Some code \<Rightarrow> Some code
      | None \<Rightarrow> (case Unwrap (Link e) of None \<Rightarrow> None | Some l \<Rightarrow> errors_As st l))"
| "errors_As st (Chain e es) =
     (case errors_As st (Link e) of
        Some code \<Rightarrow> Some code
      | None \<Rightarrow> (case Unwrap (Chain e es) of None \<Rightarrow> None | Some l \<Rightarrow> errors_As st l))"
  by pat_completeness auto

termination
  by (relation "measure (\<lambda>(_, l). link_size l)") (auto dest: Unwrap_smaller simp del: Unwrap.simps)

section \<open>Laws\<close>

definition flattened :: "error_value \<Rightarrow> error list" where
  "flattened v = (case v of NilValue \<Rightarrow> [] | MultiPtr m \<Rightarrow> WrappedErrors m | PlainValue e \<Rightarrow> [e])"

lemma append_value_flattened: "append_value errs v = errs @ flattened v"
  by (auto simp: append_value_def flattened_def WrappedErrors_def split: error_value.splits option.splits)

lemma foldl_append_value: "foldl append_value errs vs = errs @ concat (map flattened vs)"
  by (induction vs arbitrary: errs) (simp_all add: append_value_flattened)

lemma Append_flattened: "Append v vs = flattened v @ concat (map flattened vs)"
  by (cases v) (simp_all add: foldl_append_value append_value_flattened, simp_all add: flattened_def WrappedErrors_def)

text \<open>The operations of the prelude are these, for the values the program has.\<close>

definition error_value_of :: "error \<Rightarrow> error_value" where
  "error_value_of e = (case e of MultiE a as \<Rightarrow> MultiPtr (Some (a # as)) | _ \<Rightarrow> PlainValue e)"

lemma multi_append_Append: "multi_append errs e = Append (MultiPtr (Some errs)) [error_value_of e]"
  by (cases e) (simp_all add: error_value_of_def append_value_def)

lemma error_or_nil_ErrorOrNil: "error_or_nil errs = ErrorOrNil (Some errs)"
  by (simp add: ErrorOrNil_def)

text \<open>The group starts with a nil pointer, which \<open>Append\<close> replaces by an empty list.\<close>

lemma join_err_Append:
  "join_err e errs = Append (MultiPtr (if errs = [] then None else Some errs))
     [case e of None \<Rightarrow> NilValue | Some e \<Rightarrow> error_value_of e]"
  by (auto simp: join_err_def multi_append_Append append_value_flattened flattened_def split: option.splits)

text \<open>The errors of a multierror are looked at one after the other, each with all it wraps.\<close>

fun first_status :: "(string \<Rightarrow> int option) \<Rightarrow> error list \<Rightarrow> int option" where
  "first_status st [] = None"
| "first_status st (e # es) = (case exit_status_of st e of Some c \<Rightarrow> Some c | None \<Rightarrow> first_status st es)"

lemma first_status_filter:
  "first_status st es = (case filter (\<lambda>c. c \<noteq> None) (map (exit_status_of st) es) of [] \<Rightarrow> None | c # _ \<Rightarrow> c)"
  by (induction es) (auto split: option.splits)

lemma exit_status_Multi: "exit_status_of st (MultiE e es) = first_status st (e # es)"
  by (simp only: exit_status_of.simps(3) first_status_filter)

lemma errors_As_link:
  "errors_As st l = (case l of Link e \<Rightarrow> exit_status_of st e | Chain e es \<Rightarrow> first_status st (e # es))"
proof (induction st l rule: errors_As.induct)
  case (1 st e)
  show ?case
  proof (cases e)
    case (MultiE a as)
    with "1.IH" show ?thesis
      by (cases as) (auto simp: Error_Unwrap_def exit_status_Multi simp del: exit_status_of.simps(3)
        split: option.splits)
  qed (use "1.IH" in \<open>auto split: option.splits\<close>)
next
  case (2 st e es)
  then show ?case by (subst errors_As.simps)
    (cases es, auto simp: chain_Unwrap_def simp del: errors_As.simps split: option.splits)
qed

section \<open>Property\<close>

text \<open>
  C31. The exit status of the program after an error is the one the loop of \<open>errors.As\<close> finds: it
  asks the error and what it wraps, and in a multierror, whose \<open>Unwrap\<close> makes a chain of its errors,
  each error with all it wraps before the next one.
\<close>

theorem exit_status_errors_As: "exit_status_of st err = errors_As st (Link err)"
  by (simp add: errors_As_link)

end
